theory Spec2Isabelle
  imports Complex_Main
begin

section \<open>The simulation drivers of the population-biology notebook\<close>

text \<open>
  The notebook \<^verbatim>\<open>notebooks/interactions.ipynb\<close> defines two drivers,
  \<^verbatim>\<open>run_sim\<close> and \<^verbatim>\<open>run_sim_2d\<close>, which fill a numpy buffer generation by
  generation with the results of a caller-supplied transition function:
  \<^verbatim>\<open>
  def run_sim(N0, gen_fn, ngens, dtype='int', **kwargs):
      N = np.empty((ngens, len(N0)), dtype=dtype)
      N[0, :] = N0
      for t in range(1, ngens):
          N[t, :] = gen_fn(N[t-1, :], **kwargs)
      return N
  \<close>
  The embedding keeps the buffer, the views handed to the transition function, the
  conversion of every stored value to the buffer's dtype, numpy's broadcasting of a
  row assignment and every exception as explicit parts of the model.
\<close>

subsection \<open>Numbers, dtypes, exceptions\<close>

text \<open>
  A number is an integer (a Python \<^verbatim>\<open>int\<close> or an element of an \<^verbatim>\<open>int64\<close> array) or
  a float (a Python \<^verbatim>\<open>float\<close> or an element of a \<^verbatim>\<open>float64\<close> array). An integer
  outside the 64-bit range can only be a Python \<^verbatim>\<open>int\<close>. A float is taken to be a
  finite double, written as the real number it denotes; the drivers do no arithmetic on
  floats, they only convert and copy them.
\<close>

datatype num = IntV int | FloatV real

fun value_of :: "num \<Rightarrow> real" where
  "value_of (IntV n) = real_of_int n"
| "value_of (FloatV x) = x"

type_synonym vec = "num list"

type_synonym buffer = "num list list"

datatype dtype = DInt | DFloat

datatype error = AssertionError | ValueError | IndexError | OverflowError

definition in_int64 :: "int \<Rightarrow> bool" where
  "in_int64 n \<longleftrightarrow> - (2 ^ 63) \<le> n \<and> n < 2 ^ 63"

text \<open>The value an \<^verbatim>\<open>int64\<close> takes when arithmetic overflows (two's complement).\<close>

definition wrap64 :: "int \<Rightarrow> int" where
  "wrap64 n = (n + 2 ^ 63) mod 2 ^ 64 - 2 ^ 63"

text \<open>The conversion of a float to an integer drops the fractional part (towards zero).\<close>

definition trunc :: "real \<Rightarrow> int" where
  "trunc x = (if 0 \<le> x then \<lfloor>x\<rfloor> else \<lceil>x\<rceil>)"

text \<open>
  What numpy leaves to the machine is a parameter of the model: the contents of the
  memory \<^verbatim>\<open>np.empty\<close> hands out without initialising it; the outcome of converting
  to \<^verbatim>\<open>int64\<close> a float whose integral part is outside the 64-bit range
  (OverflowError for a Python \<^verbatim>\<open>float\<close>, an unspecified \<^verbatim>\<open>int64\<close> for an element of
  a float array); and the outcome of converting to \<^verbatim>\<open>float64\<close> an integer of
  magnitude above \<open>2\<^sup>5\<^sup>3\<close> (a nearby double, or OverflowError for a Python
  \<^verbatim>\<open>int\<close> beyond the largest double).
\<close>

datatype track = TrN | TrM

record numpy_env =
  uninit :: "track \<Rightarrow> nat \<Rightarrow> nat \<Rightarrow> num"
  cast_oor :: "real \<Rightarrow> error + int"
  round_big :: "int \<Rightarrow> error + real"

text \<open>
  The conversion of one value to a dtype, as a row assignment and an element assignment
  perform it. An integer outside the 64-bit range raises OverflowError under
  \<^verbatim>\<open>int\<close>; a float is truncated; an integer of magnitude at most \<open>2\<^sup>5\<^sup>3\<close> is a
  double.
\<close>

fun astype :: "numpy_env \<Rightarrow> dtype \<Rightarrow> num \<Rightarrow> error + num" where
  "astype m DInt (IntV n) = (if in_int64 n then Inr (IntV n) else Inl OverflowError)"
| "astype m DInt (FloatV x) =
     (if in_int64 (trunc x) then Inr (IntV (trunc x))
      else (case cast_oor m x of Inl e \<Rightarrow> Inl e | Inr n \<Rightarrow> Inr (IntV (wrap64 n))))"
| "astype m DFloat (IntV n) =
     (if \<bar>n\<bar> \<le> 2 ^ 53 then Inr (FloatV (real_of_int n))
      else (case round_big m n of Inl e \<Rightarrow> Inl e | Inr x \<Rightarrow> Inr (FloatV x)))"
| "astype m DFloat (FloatV x) = Inr (FloatV x)"

primrec astype_all :: "numpy_env \<Rightarrow> dtype \<Rightarrow> vec \<Rightarrow> error + vec" where
  "astype_all m dt [] = Inr []"
| "astype_all m dt (x # xs) =
     (case astype m dt x of
        Inl e \<Rightarrow> Inl e
      | Inr c \<Rightarrow> (case astype_all m dt xs of Inl e \<Rightarrow> Inl e | Inr cs \<Rightarrow> Inr (c # cs)))"

text \<open>The keyword argument \<^verbatim>\<open>dtype='int'\<close>: \<open>None\<close> is the omitted argument.\<close>

definition the_dtype :: "dtype option \<Rightarrow> dtype" where
  "the_dtype d = (case d of None \<Rightarrow> DInt | Some dt \<Rightarrow> dt)"

subsection \<open>The state of an invocation\<close>

text \<open>
  A driver owns up to two buffers, named after the variables \<^verbatim>\<open>N\<close> and \<^verbatim>\<open>M\<close>
  that hold them. The state of an invocation is the store of these buffers, the
  ambient world the transition function may read and change (the state of
  \<^verbatim>\<open>np.random\<close>), and the machine's part. Two logs record what happens in which
  order: \<open>trace\<close> lists allocations, row assignments and invocations of the transition
  function, \<open>returns\<close> lists the arrays each invocation returned.
\<close>

datatype event = Alloc track | Store track nat | Call nat

record 'w state =
  world :: 'w
  heap :: "track \<Rightarrow> buffer"
  env :: numpy_env
  trace :: "event list"
  returns :: "(nat \<times> vec list) list"

definition fresh :: "'w \<Rightarrow> numpy_env \<Rightarrow> 'w state" where
  "fresh w u = \<lparr>world = w, heap = (\<lambda>tr. []), env = u, trace = [], returns = []\<rparr>"

text \<open>
  A statement either raises (\<open>Inl\<close>) or completes (\<open>Inr\<close>); both leave a state behind.
  \<open>andthen\<close> is the sequencing of statements: an exception skips what follows.
\<close>

definition andthen ::
  "('s \<Rightarrow> (error + 'a) \<times> 's) \<Rightarrow> ('a \<Rightarrow> 's \<Rightarrow> (error + 'b) \<times> 's) \<Rightarrow> 's \<Rightarrow> (error + 'b) \<times> 's" where
  "andthen m f s = (case m s of (Inl e, s') \<Rightarrow> (Inl e, s') | (Inr a, s') \<Rightarrow> f a s')"

text \<open>\<^verbatim>\<open>for t in ts: body\<close>\<close>

primrec for_loop ::
  "('i \<Rightarrow> 's \<Rightarrow> (error + unit) \<times> 's) \<Rightarrow> 'i list \<Rightarrow> 's \<Rightarrow> (error + unit) \<times> 's" where
  "for_loop body [] s = (Inr (), s)"
| "for_loop body (t # ts) s =
     (case body t s of (Inl e, s') \<Rightarrow> (Inl e, s') | (Inr _, s') \<Rightarrow> for_loop body ts s')"

subsection \<open>The numpy operations the drivers use\<close>

text \<open>
  \<^verbatim>\<open>np.empty((n, L), dtype=dtype)\<close> raises ValueError for a negative dimension;
  otherwise the new buffer has \<open>n\<close> rows of \<open>L\<close> cells holding whatever the memory held.
  The dtype of the buffer is known to the driver, which passes it to every assignment.
\<close>

definition np_empty :: "track \<Rightarrow> int \<Rightarrow> nat \<Rightarrow> 'w state \<Rightarrow> (error + unit) \<times> 'w state" where
  "np_empty tr n L s =
     (if n < 0 then (Inl ValueError, s)
      else (Inr (),
            s\<lparr>heap := (heap s)(tr := map (\<lambda>i. map (uninit (env s) tr i) [0..<L]) [0..<nat n]),
              trace := trace s @ [Alloc tr]\<rparr>))"

text \<open>
  Broadcasting a one-dimensional value to a row of \<open>L\<close> cells: a value of length \<open>L\<close>
  is taken as it is, a value of length 1 is repeated, any other length raises
  ValueError.
\<close>

definition bcast :: "nat \<Rightarrow> vec \<Rightarrow> vec" where
  "bcast L v = (if length v = L then v else replicate L (hd v))"

definition broadcast :: "nat \<Rightarrow> vec \<Rightarrow> error + vec" where
  "broadcast L v = (if length v = L \<or> length v = 1 then Inr (bcast L v) else Inl ValueError)"

text \<open>
  What the assignment of \<open>v\<close> to a row of \<open>L\<close> cells of dtype \<open>dt\<close> stores: the values
  of \<open>v\<close> converted to \<open>dt\<close>, broadcast to the row.
\<close>

definition stored :: "numpy_env \<Rightarrow> dtype \<Rightarrow> nat \<Rightarrow> vec \<Rightarrow> error + vec" where
  "stored m dt L v = (case astype_all m dt v of Inl e \<Rightarrow> Inl e | Inr c \<Rightarrow> broadcast L c)"

text \<open>
  \<^verbatim>\<open>B[i, :] = v\<close> for a non-negative \<open>i\<close>: IndexError when the buffer has no
  row \<open>i\<close>, otherwise the row receives what the assignment stores.
\<close>

definition set_row ::
  "track \<Rightarrow> nat \<Rightarrow> dtype \<Rightarrow> vec \<Rightarrow> 'w state \<Rightarrow> (error + unit) \<times> 'w state" where
  "set_row tr i dt v s =
     (let b = heap s tr in
      if length b \<le> i then (Inl IndexError, s)
      else (case stored (env s) dt (length (b ! i)) v of
              Inl e \<Rightarrow> (Inl e, s)
            | Inr row \<Rightarrow>
                (Inr (),
                 s\<lparr>heap := (heap s)(tr := b[i := row]),
                   trace := trace s @ [Store tr i]\<rparr>)))"

text \<open>\<^verbatim>\<open>B[i, :]\<close> read for a non-negative \<open>i\<close>: the contents of the view of row \<open>i\<close>.\<close>

definition get_row :: "track \<Rightarrow> nat \<Rightarrow> 'w state \<Rightarrow> (error + vec) \<times> 'w state" where
  "get_row tr i s =
     (if i < length (heap s tr) then (Inr (heap s tr ! i), s) else (Inl IndexError, s))"

subsection \<open>Transition functions\<close>

text \<open>
  A transition function is called with the keyword arguments already bound. It
  receives a view of a row, so what it writes into its argument is written into the
  buffer. A call yields the world after the call, the element assignments
  \<open>(k, x)\<close> (for \<^verbatim>\<open>view[k] = x\<close>) it made to its argument in place, and either
  the exception it raised or the array it returned. A function that returns its own
  argument returns the contents the view has after these assignments.
\<close>

type_synonym writes = "(nat \<times> num) list"

type_synonym 'w gen_fn = "'w \<Rightarrow> vec \<Rightarrow> 'w \<times> writes \<times> (error + vec)"

type_synonym 'w gen_fn2 =
  "'w \<Rightarrow> vec \<Rightarrow> vec \<Rightarrow> 'w \<times> (writes \<times> writes) \<times> (error + vec \<times> vec)"

text \<open>
  The element assignments land in the view in order; each converts its value to the
  dtype of the buffer, and raises IndexError when the view has no such element.
\<close>

primrec apply_writes :: "numpy_env \<Rightarrow> dtype \<Rightarrow> writes \<Rightarrow> vec \<Rightarrow> error + vec" where
  "apply_writes m dt [] v = Inr v"
| "apply_writes m dt (w # ws) v =
     (if length v \<le> fst w then Inl IndexError
      else (case astype m dt (snd w) of
              Inl e \<Rightarrow> Inl e
            | Inr c \<Rightarrow> apply_writes m dt ws (v[fst w := c])))"

text \<open>A function that makes no in-place assignment to its arguments.\<close>

definition no_inplace :: "'w gen_fn \<Rightarrow> bool" where
  "no_inplace g \<longleftrightarrow> (\<forall>w v. fst (snd (g w v)) = [])"

definition no_inplace2 :: "'w gen_fn2 \<Rightarrow> bool" where
  "no_inplace2 g \<longleftrightarrow> (\<forall>w v v'. fst (snd (g w v v')) = ([], []))"

text \<open>A pure function of the argument arrays, as a transition function.\<close>

definition pure_fn :: "(vec \<Rightarrow> vec) \<Rightarrow> 'w gen_fn" where
  "pure_fn f w v = (w, [], Inr (f v))"

definition pure_fn2 :: "(vec \<Rightarrow> vec \<Rightarrow> vec \<times> vec) \<Rightarrow> 'w gen_fn2" where
  "pure_fn2 f w v v' = (w, ([], []), Inr (f v v'))"

subsection \<open>The single-track driver\<close>

text \<open>
  \<^verbatim>\<open>gen_fn(N[t-1, :], **kwargs)\<close>: the view of row \<open>t - 1\<close> is created, the
  function runs on it, and its in-place assignments land in row \<open>t - 1\<close>; an
  assignment that raises makes the call raise (the buffers are then lost with the
  invocation; the model leaves them as they were). The drivers evaluate this for
  \<open>t \<ge> 1\<close> only.
\<close>

definition call_gen ::
  "'w gen_fn \<Rightarrow> dtype \<Rightarrow> nat \<Rightarrow> 'w state \<Rightarrow> (error + vec) \<times> 'w state" where
  "call_gen g dt t s =
     (case get_row TrN (t - 1) s of
        (Inl e, s1) \<Rightarrow> (Inl e, s1)
      | (Inr v, s1) \<Rightarrow>
          (case g (world s1) v of
             (w', ws, res) \<Rightarrow>
               (case apply_writes (env s1) dt ws v of
                  Inl e \<Rightarrow> (Inl e, s1\<lparr>world := w', trace := trace s1 @ [Call t]\<rparr>)
                | Inr v' \<Rightarrow>
                    (res,
                     s1\<lparr>world := w',
                        heap := (heap s1)(TrN := (heap s1 TrN)[t - 1 := v']),
                        trace := trace s1 @ [Call t],
                        returns := returns s1 @
                          (case res of Inl e \<Rightarrow> [] | Inr out \<Rightarrow> [(t, [out])])\<rparr>))))"

text \<open>\<^verbatim>\<open>N[t, :] = gen_fn(N[t-1, :], **kwargs)\<close>\<close>

definition step :: "'w gen_fn \<Rightarrow> dtype \<Rightarrow> nat \<Rightarrow> 'w state \<Rightarrow> (error + unit) \<times> 'w state" where
  "step g dt t = andthen (call_gen g dt t) (\<lambda>out. set_row TrN t dt out)"

definition run_sim ::
  "vec \<Rightarrow> 'w gen_fn \<Rightarrow> int \<Rightarrow> dtype option \<Rightarrow> 'w state \<Rightarrow> (error + buffer) \<times> 'w state" where
  "run_sim N0 g ngens dtype =
     andthen (np_empty TrN ngens (length N0)) (\<lambda>_.
     andthen (set_row TrN 0 (the_dtype dtype) N0) (\<lambda>_.
     andthen (for_loop (step g (the_dtype dtype)) [1..<nat ngens]) (\<lambda>_ s.
     (Inr (heap s TrN), s))))"

subsection \<open>The dual-track driver\<close>

text \<open>
  \<^verbatim>\<open>
  def run_sim_2d(N0, M0, gen_fn, ngens, dtype='int', **kwargs):
      assert(len(N0) == len(M0))
      N = np.empty((ngens, len(N0)), dtype=dtype)
      N[0, :] = N0
      M = np.empty((ngens, len(M0)), dtype=dtype)
      M[0, :] = M0
      for t in range(1, ngens):
          N[t, :], M[t, :] = gen_fn(N[t-1, :], M[t-1, :], **kwargs)
      return N, M
  \<close>
\<close>

definition call_gen2 ::
  "'w gen_fn2 \<Rightarrow> dtype \<Rightarrow> nat \<Rightarrow> 'w state \<Rightarrow> (error + vec \<times> vec) \<times> 'w state" where
  "call_gen2 g dt t s =
     (case get_row TrN (t - 1) s of
        (Inl e, s1) \<Rightarrow> (Inl e, s1)
      | (Inr vN, s1) \<Rightarrow>
          (case get_row TrM (t - 1) s1 of
             (Inl e, s2) \<Rightarrow> (Inl e, s2)
           | (Inr vM, s2) \<Rightarrow>
               (case g (world s2) vN vM of
                  (w', (wsN, wsM), res) \<Rightarrow>
                    (case apply_writes (env s2) dt wsN vN of
                       Inl e \<Rightarrow> (Inl e, s2\<lparr>world := w', trace := trace s2 @ [Call t]\<rparr>)
                     | Inr vN' \<Rightarrow>
                         (case apply_writes (env s2) dt wsM vM of
                            Inl e \<Rightarrow> (Inl e, s2\<lparr>world := w', trace := trace s2 @ [Call t]\<rparr>)
                          | Inr vM' \<Rightarrow>
                              (res,
                               s2\<lparr>world := w',
                                  heap := (heap s2)
                                    (TrN := (heap s2 TrN)[t - 1 := vN'],
                                     TrM := (heap s2 TrM)[t - 1 := vM']),
                                  trace := trace s2 @ [Call t],
                                  returns := returns s2 @
                                    (case res of Inl e \<Rightarrow> []
                                     | Inr (oN, oM) \<Rightarrow> [(t, [oN, oM])])\<rparr>))))))"

text \<open>The tuple assignment stores the first component, then the second.\<close>

definition step2 :: "'w gen_fn2 \<Rightarrow> dtype \<Rightarrow> nat \<Rightarrow> 'w state \<Rightarrow> (error + unit) \<times> 'w state" where
  "step2 g dt t =
     andthen (call_gen2 g dt t) (\<lambda>(oN, oM).
     andthen (set_row TrN t dt oN) (\<lambda>_. set_row TrM t dt oM))"

definition run_sim_2d ::
  "vec \<Rightarrow> vec \<Rightarrow> 'w gen_fn2 \<Rightarrow> int \<Rightarrow> dtype option \<Rightarrow> 'w state
     \<Rightarrow> (error + buffer \<times> buffer) \<times> 'w state" where
  "run_sim_2d N0 M0 g ngens dtype s =
     (if length N0 \<noteq> length M0 then (Inl AssertionError, s)
      else
        andthen (np_empty TrN ngens (length N0)) (\<lambda>_.
        andthen (set_row TrN 0 (the_dtype dtype) N0) (\<lambda>_.
        andthen (np_empty TrM ngens (length M0)) (\<lambda>_.
        andthen (set_row TrM 0 (the_dtype dtype) M0) (\<lambda>_.
        andthen (for_loop (step2 g (the_dtype dtype)) [1..<nat ngens]) (\<lambda>_ s'.
        (Inr (heap s' TrN, heap s' TrM), s')))))) s)"

subsection \<open>What an array of a dtype holds, and values a conversion leaves as they are\<close>

fun is_dtype :: "dtype \<Rightarrow> num \<Rightarrow> bool" where
  "is_dtype DInt (IntV n) = in_int64 n"
| "is_dtype DInt (FloatV x) = False"
| "is_dtype DFloat (IntV n) = False"
| "is_dtype DFloat (FloatV x) = True"

text \<open>
  \<open>exact dt x\<close>: the dtype holds the value of \<open>x\<close> as it is. Under \<^verbatim>\<open>int\<close> these
  are the integral values of the 64-bit range, under \<^verbatim>\<open>float\<close> the floats and the
  integers of magnitude at most \<open>2\<^sup>5\<^sup>3\<close>.
\<close>

fun exact :: "dtype \<Rightarrow> num \<Rightarrow> bool" where
  "exact DInt (IntV n) = in_int64 n"
| "exact DInt (FloatV x) = (x \<in> \<int> \<and> in_int64 (trunc x))"
| "exact DFloat (IntV n) = (\<bar>n\<bar> \<le> 2 ^ 53)"
| "exact DFloat (FloatV x) = True"

subsection \<open>Transition functions of the scenarios\<close>

text \<open>
  \<^verbatim>\<open>f(N) = N + 1\<close> and \<^verbatim>\<open>f(N, M) = (N - 1, M + 1)\<close>, elementwise on arrays:
  integer elements stay integers, float elements stay floats.
\<close>

fun shift :: "int \<Rightarrow> num \<Rightarrow> num" where
  "shift k (IntV n) = IntV (wrap64 (n + k))"
| "shift k (FloatV x) = FloatV (x + real_of_int k)"

definition incr :: "vec \<Rightarrow> vec" where
  "incr v = map (shift 1) v"

definition decr_incr :: "vec \<Rightarrow> vec \<Rightarrow> vec \<times> vec" where
  "decr_incr v v' = (map (shift (- 1)) v, map (shift 1) v')"

text \<open>
  A machine whose uninitialised memory holds zeros, which raises OverflowError for a
  float outside the 64-bit range and converts large integers to floats as they are; for
  running the drivers on concrete inputs.
\<close>

definition mem0 :: numpy_env where
  "mem0 = \<lparr>uninit = (\<lambda>tr i j. IntV 0), cast_oor = (\<lambda>x. Inl OverflowError),
           round_big = (\<lambda>n. Inr (real_of_int n))\<rparr>"

subsection \<open>The state after the first two statements of a driver\<close>

text \<open>
  \<open>allocated tr n L s\<close> is the state once buffer \<open>tr\<close> has been allocated with
  \<open>n \<ge> 0\<close> rows of \<open>L\<close> cells, and \<open>started tr n L row s\<close> the state once its
  row 0 has then received \<open>row\<close>; they are used to state what the drivers compute, and
  are no part of the program.
\<close>

definition allocated :: "track \<Rightarrow> int \<Rightarrow> nat \<Rightarrow> 'w state \<Rightarrow> 'w state" where
  "allocated tr n L s =
     s\<lparr>heap := (heap s)(tr := map (\<lambda>i. map (uninit (env s) tr i) [0..<L]) [0..<nat n]),
       trace := trace s @ [Alloc tr]\<rparr>"

definition started :: "track \<Rightarrow> int \<Rightarrow> nat \<Rightarrow> vec \<Rightarrow> 'w state \<Rightarrow> 'w state" where
  "started tr n L row s =
     s\<lparr>heap := (heap s)(tr := (map (\<lambda>i. map (uninit (env s) tr i) [0..<L]) [0..<nat n])
                               [0 := row]),
       trace := trace s @ [Alloc tr, Store tr 0]\<rparr>"

subsection \<open>The in-place transition function of the notebook\<close>

text \<open>
  \<^verbatim>\<open>
  def SI_gen(S, I, dt, lam, c, a, rho, mu, delta):
      lam *= dt; c *= dt; rho *= dt; mu *= dt; delta *= dt
      nsims = len(S)
      assert(nsims == len(I))
      S += np.random.poisson(lam)
      S -= np.random.binomial(S, mu, nsims)
      I -= np.random.binomial(I, delta, nsims)
      for k in range(nsims):
          infective_encouters = np.random.binomial(I[k], a*c, S[k])
          new_infections = sum(infective_encouters > 0)
          S[k] -= new_infections
          I[k] += new_infections
      recoveries = np.random.binomial(I, rho, nsims)
      I -= recoveries
      S += recoveries
      return S, I
  \<close>
  The samplers of \<^verbatim>\<open>np.random\<close> belong to numpy, not to the notebook: they are
  parameters of the model. A sampler takes the parameters of its distribution and the
  world, and yields one draw (or the exception numpy raises for invalid parameters) and
  the world after the draw. The arrays \<^verbatim>\<open>S\<close> and \<^verbatim>\<open>I\<close> are the views the
  driver passed; every statement of the body updates them in place, and they are what
  the function returns. The model follows the function on integer arrays, as the
  notebook runs it: the body computes with the values of the elements, and an element
  of an integer view is written back as the \<^verbatim>\<open>int64\<close> of that value.
\<close>

record 'w np_random =
  poisson :: "real \<Rightarrow> 'w \<Rightarrow> (error + real) \<times> 'w"
  binomial :: "real \<Rightarrow> real \<Rightarrow> 'w \<Rightarrow> (error + real) \<times> 'w"

record 'w si_state =
  rng :: 'w
  arrS :: "real list"
  arrI :: "real list"

definition draw :: "('w \<Rightarrow> (error + real) \<times> 'w) \<Rightarrow> 'w si_state \<Rightarrow> (error + real) \<times> 'w si_state" where
  "draw smp st = (case smp (rng st) of (r, w') \<Rightarrow> (r, st\<lparr>rng := w'\<rparr>))"

primrec draw_each ::
  "(real \<Rightarrow> 'w \<Rightarrow> (error + real) \<times> 'w) \<Rightarrow> real list \<Rightarrow> 'w si_state
     \<Rightarrow> (error + real list) \<times> 'w si_state" where
  "draw_each smp [] = (\<lambda>st. (Inr [], st))"
| "draw_each smp (n # ns) =
     andthen (draw (smp n)) (\<lambda>d.
     andthen (draw_each smp ns) (\<lambda>ds st. (Inr (d # ds), st)))"

definition modify :: "('s \<Rightarrow> 's) \<Rightarrow> 's \<Rightarrow> (error + unit) \<times> 's" where
  "modify f st = (Inr (), f st)"

definition infect :: "'w np_random \<Rightarrow> real \<Rightarrow> nat \<Rightarrow> 'w si_state \<Rightarrow> (error + unit) \<times> 'w si_state" where
  "infect R p k st =
     (if arrS st ! k < 0 then (Inl ValueError, st)
      else
        andthen (draw_each (\<lambda>n. binomial R n p) (replicate (nat (trunc (arrS st ! k))) (arrI st ! k)))
          (\<lambda>infective_encounters.
             let new_infections = real (length (filter (\<lambda>x. 0 < x) infective_encounters))
             in modify (\<lambda>st. st\<lparr>arrS := (arrS st)[k := arrS st ! k - new_infections],
                                arrI := (arrI st)[k := arrI st ! k + new_infections]\<rparr>)) st)"

definition SI_body ::
  "'w np_random \<Rightarrow> real \<Rightarrow> real \<Rightarrow> real \<Rightarrow> real \<Rightarrow> real \<Rightarrow> real \<Rightarrow> real
     \<Rightarrow> 'w si_state \<Rightarrow> (error + unit) \<times> 'w si_state" where
  "SI_body R dt lam0 c0 a rho0 mu0 delta0 st0 =
     (let lam = lam0 * dt; c = c0 * dt; rho = rho0 * dt; mu = mu0 * dt; delta = delta0 * dt;
          nsims = length (arrS st0)
      in if nsims \<noteq> length (arrI st0) then (Inl AssertionError, st0)
         else
          (andthen (draw (poisson R lam)) (\<lambda>births.
           andthen (modify (\<lambda>st. st\<lparr>arrS := map (\<lambda>x. x + births) (arrS st)\<rparr>)) (\<lambda>_.
           andthen (\<lambda>st. draw_each (\<lambda>n. binomial R n mu) (arrS st) st) (\<lambda>deaths.
           andthen (modify (\<lambda>st. st\<lparr>arrS := map2 (\<lambda>x d. x - d) (arrS st) deaths\<rparr>)) (\<lambda>_.
           andthen (\<lambda>st. draw_each (\<lambda>n. binomial R n delta) (arrI st) st) (\<lambda>deaths.
           andthen (modify (\<lambda>st. st\<lparr>arrI := map2 (\<lambda>x d. x - d) (arrI st) deaths\<rparr>)) (\<lambda>_.
           andthen (for_loop (infect R (a * c)) [0..<nsims]) (\<lambda>_.
           andthen (\<lambda>st. draw_each (\<lambda>n. binomial R n rho) (arrI st) st) (\<lambda>recoveries.
           modify (\<lambda>st. st\<lparr>arrI := map2 (\<lambda>x d. x - d) (arrI st) recoveries,
                              arrS := map2 (\<lambda>x d. x + d) (arrS st) recoveries\<rparr>))))))))))
          st0)"

text \<open>The element an in-place update leaves in a view: of the kind the view holds.\<close>

fun retag :: "num \<Rightarrow> real \<Rightarrow> num" where
  "retag (IntV n) r = IntV (wrap64 (trunc r))"
| "retag (FloatV x) r = FloatV r"

definition overwrite :: "vec \<Rightarrow> writes" where
  "overwrite v = zip [0..<length v] v"

definition SI_gen ::
  "'w np_random \<Rightarrow> real \<Rightarrow> real \<Rightarrow> real \<Rightarrow> real \<Rightarrow> real \<Rightarrow> real \<Rightarrow> real \<Rightarrow> 'w gen_fn2" where
  "SI_gen R dt lam c a rho mu delta w vS vI =
     (case SI_body R dt lam c a rho mu delta
             \<lparr>rng = w, arrS = map value_of vS, arrI = map value_of vI\<rparr> of
        (r, st) \<Rightarrow>
          (rng st,
           (overwrite (map2 retag vS (arrS st)), overwrite (map2 retag vI (arrI st))),
           (case r of
              Inl e \<Rightarrow> Inl e
            | Inr _ \<Rightarrow> Inr (map2 retag vS (arrS st), map2 retag vI (arrI st)))))"

text \<open>
  Samplers that read their draws from a tape: the world is the list of the draws still
  to come, and a draw takes the next one (0 when the tape is used up).
\<close>

definition next_draw :: "real list \<Rightarrow> (error + real) \<times> real list" where
  "next_draw w = (case w of [] \<Rightarrow> (Inr 0, []) | x # xs \<Rightarrow> (Inr x, xs))"

definition tape_draws :: "(real list) np_random" where
  "tape_draws = \<lparr>poisson = (\<lambda>lam. next_draw), binomial = (\<lambda>n p. next_draw)\<rparr>"

text \<open>
  Further transition functions for concrete runs: \<^verbatim>\<open>f(N) = N + 0.5\<close> (a float array,
  whatever \<^verbatim>\<open>N\<close> holds) and its two-track version; a function that returns the
  one-element array \<^verbatim>\<open>np.array([N.sum()])\<close>; a function that returns an empty array;
  \<^verbatim>\<open>def f(N): N += 1; return N\<close>, which updates its argument in place; and
  \<^verbatim>\<open>def f(N): M = N + 1; N[0] = 2.7; return M\<close>, which assigns a float to an
  element of its argument.
\<close>

definition add_half :: "vec \<Rightarrow> vec" where
  "add_half v = map (\<lambda>c. FloatV (value_of c + 1 / 2)) v"

definition add_half2 :: "vec \<Rightarrow> vec \<Rightarrow> vec \<times> vec" where
  "add_half2 v v' = (add_half v, add_half v')"

fun plus_num :: "num \<Rightarrow> num \<Rightarrow> num" where
  "plus_num (IntV a) (IntV b) = IntV (wrap64 (a + b))"
| "plus_num a b = FloatV (value_of a + value_of b)"

definition total :: "vec \<Rightarrow> vec" where
  "total v = [foldr plus_num v (IntV 0)]"

definition drop_all :: "vec \<Rightarrow> vec" where
  "drop_all v = []"

definition incr_inplace :: "'w gen_fn" where
  "incr_inplace w v = (w, overwrite (incr v), Inr (incr v))"

definition poke :: "'w gen_fn" where
  "poke w v = (w, [(0, FloatV (27 / 10))], Inr (incr v))"

section \<open>Properties\<close>

subsection \<open>Evaluation on concrete inputs\<close>

lemmas run_defs = run_sim_def run_sim_2d_def andthen_def np_empty_def set_row_def get_row_def
  step_def step2_def call_gen_def call_gen2_def stored_def broadcast_def bcast_def fresh_def
  the_dtype_def pure_fn_def pure_fn2_def incr_def decr_incr_def trunc_def mem0_def
  in_int64_def wrap64_def add_half_def add_half2_def total_def drop_all_def incr_inplace_def
  poke_def overwrite_def

lemmas si_defs = SI_gen_def SI_body_def infect_def modify_def draw_def tape_draws_def
  next_draw_def Let_def

lemmas num_defs = upt_conv_Cons eval_nat_numeral ceiling_def

subsection \<open>Conversions and in-place assignments\<close>

lemma in_int64_wrap64: "in_int64 (wrap64 n)"
  by (simp add: in_int64_def wrap64_def)

lemma astype_is_dtype: "astype m dt x = Inr c \<Longrightarrow> is_dtype dt c"
  by (cases dt; cases x) (auto simp: in_int64_wrap64 split: if_splits sum.splits)

lemma astype_all_Cons:
  "astype_all m dt (x # xs) = Inr cs \<longleftrightarrow>
     (\<exists>c cs'. astype m dt x = Inr c \<and> astype_all m dt xs = Inr cs' \<and> cs = c # cs')"
  by (auto split: sum.splits)

lemma astype_all_length: "astype_all m dt v = Inr c \<Longrightarrow> length c = length v"
  by (induction v arbitrary: c) (auto split: sum.splits)

lemma astype_all_nth:
  "astype_all m dt v = Inr c \<Longrightarrow> i < length v \<Longrightarrow> astype m dt (v ! i) = Inr (c ! i)"
proof (induction v arbitrary: c i)
  case Nil
  then show ?case by simp
next
  case (Cons x xs)
  from Cons.prems(1) obtain c0 cs where x: "astype m dt x = Inr c0"
    and xs: "astype_all m dt xs = Inr cs" and c: "c = c0 # cs"
    by (auto split: sum.splits)
  show ?case
  proof (cases i)
    case 0
    with x c show ?thesis by simp
  next
    case (Suc j)
    with Cons.prems(2) have "j < length xs" by simp
    with xs have "astype m dt (xs ! j) = Inr (cs ! j)" by (rule Cons.IH)
    with Suc c show ?thesis by simp
  qed
qed

lemma astype_all_typed: "astype_all m dt v = Inr c \<Longrightarrow> list_all (is_dtype dt) c"
  by (induction v arbitrary: c) (auto simp: astype_is_dtype split: sum.splits)

lemma astype_all_fixed: "\<forall>x\<in>set v. astype m dt x = Inr x \<Longrightarrow> astype_all m dt v = Inr v"
  by (induction v) simp_all

lemma trunc_of_int: "x \<in> \<int> \<Longrightarrow> real_of_int (trunc x) = x"
  by (auto simp: trunc_def Ints_def)

lemma exact_astype:
  "exact dt x \<Longrightarrow> \<exists>c. astype m dt x = Inr c \<and> value_of c = value_of x"
  by (cases dt; cases x) (auto simp: trunc_of_int)

lemma exact_astype_all:
  "\<forall>x\<in>set v. exact dt x \<Longrightarrow> \<exists>c. astype_all m dt v = Inr c \<and> map value_of c = map value_of v"
proof (induction v)
  case Nil
  then show ?case by simp
next
  case (Cons x xs)
  then obtain cs where cs: "astype_all m dt xs = Inr cs" "map value_of cs = map value_of xs"
    by auto
  from Cons.prems obtain c where "astype m dt x = Inr c" "value_of c = value_of x"
    using exact_astype [of dt x m] by auto
  with cs show ?case by simp
qed

lemma length_apply_writes: "apply_writes m dt ws v = Inr v' \<Longrightarrow> length v' = length v"
proof (induction ws arbitrary: v)
  case Nil
  then show ?case by simp
next
  case (Cons w ws)
  from Cons.prems obtain c where "apply_writes m dt ws (v[fst w := c]) = Inr v'"
    by (auto split: if_splits sum.splits)
  then have "length v' = length (v[fst w := c])" by (rule Cons.IH)
  then show ?case by simp
qed

lemma apply_writes_typed:
  "apply_writes m dt ws v = Inr v' \<Longrightarrow> list_all (is_dtype dt) v \<Longrightarrow> list_all (is_dtype dt) v'"
proof (induction ws arbitrary: v)
  case Nil
  then show ?case by simp
next
  case (Cons w ws)
  from Cons.prems(1) obtain c where c: "astype m dt (snd w) = Inr c"
    and rest: "apply_writes m dt ws (v[fst w := c]) = Inr v'"
    by (auto split: if_splits sum.splits)
  from c have "is_dtype dt c" by (rule astype_is_dtype)
  with Cons.prems(2) have "list_all (is_dtype dt) (v[fst w := c])"
    by (auto simp: list_all_iff dest!: set_update_subset_insert [THEN subsetD])
  with rest show ?case by (rule Cons.IH)
qed

lemma length_bcast: "length v = L \<or> length v = 1 \<Longrightarrow> length (bcast L v) = L"
  by (auto simp: bcast_def)

lemma bcast_same: "length v = L \<Longrightarrow> bcast L v = v"
  by (simp add: bcast_def)

lemma bcast_typed:
  assumes "length v = L \<or> length v = 1" and "list_all P v"
  shows "list_all P (bcast L v)"
proof (cases "length v = L")
  case True
  with assms(2) show ?thesis by (simp add: bcast_def)
next
  case False
  with assms(1) have "length v = 1" by simp
  then obtain x where "v = [x]" by (cases v) auto
  with assms(2) False show ?thesis by (simp add: bcast_def list_all_iff)
qed

lemma stored_Inr:
  "stored m dt L v = Inr row \<longleftrightarrow>
     (\<exists>c. astype_all m dt v = Inr c \<and> (length v = L \<or> length v = 1) \<and> row = bcast L c)"
  by (auto simp: stored_def broadcast_def astype_all_length split: sum.splits)

lemma stored_length: "stored m dt L v = Inr row \<Longrightarrow> length row = L"
  by (auto simp: stored_Inr astype_all_length length_bcast)

lemma stored_input_length: "stored m dt L v = Inr row \<Longrightarrow> length v = L \<or> length v = 1"
  by (auto simp: stored_Inr)

lemma stored_typed: "stored m dt L v = Inr row \<Longrightarrow> list_all (is_dtype dt) row"
proof -
  assume "stored m dt L v = Inr row"
  then obtain c where c: "astype_all m dt v = Inr c" and l: "length v = L \<or> length v = 1"
    and row: "row = bcast L c"
    by (auto simp: stored_Inr)
  from c have "list_all (is_dtype dt) c" by (rule astype_all_typed)
  moreover from c l have "length c = L \<or> length c = 1" by (simp add: astype_all_length)
  ultimately show ?thesis unfolding row by (rule bcast_typed [rotated])
qed

lemma stored_same_length:
  "length v = L \<Longrightarrow> stored m dt L v = astype_all m dt v"
  by (auto simp: stored_def broadcast_def bcast_def astype_all_length split: sum.splits)

subsection \<open>Statements and loops\<close>

lemma map_length_update_same: "length x = length (b ! i) \<Longrightarrow> map length (b[i := x]) = map length b"
proof (cases "i < length b")
  case True
  assume "length x = length (b ! i)"
  with True have "(map length b)[i := length x] = (map length b)[i := map length b ! i]" by simp
  then show ?thesis by (simp add: map_update del: nth_map)
next
  case False
  then have "length b \<le> i" by simp
  then show ?thesis by (simp add: list_update_beyond)
qed

lemma andthenE:
  assumes "andthen m f s = (r, s')"
  obtains (fail) e where "m s = (Inl e, s')" "r = Inl e"
        | (ok) a s1 where "m s = (Inr a, s1)" "f a s1 = (r, s')"
  using assms by (auto simp: andthen_def split: prod.splits sum.splits)

lemma set_row_cases:
  assumes "set_row tr i dt v s = (r, s')"
  obtains (fail) e where "r = Inl e" "s' = s"
        | (ok) row where "r = Inr ()" "i < length (heap s tr)"
               "stored (env s) dt (length (heap s tr ! i)) v = Inr row"
               "s' = s\<lparr>heap := (heap s)(tr := (heap s tr)[i := row]),
                      trace := trace s @ [Store tr i]\<rparr>"
  using assms by (auto simp: set_row_def Let_def split: if_splits sum.splits)

lemma call_gen_cases:
  assumes "call_gen g dt t s = (r, s')"
  obtains (fail) "r = Inl IndexError" "s' = s" "\<not> t - 1 < length (heap s TrN)"
        | (bad_write) e w' where "r = Inl e" "s' = s\<lparr>world := w', trace := trace s @ [Call t]\<rparr>"
        | (called) w' ws v' where "t - 1 < length (heap s TrN)"
               "g (world s) (heap s TrN ! (t - 1)) = (w', ws, r)"
               "apply_writes (env s) dt ws (heap s TrN ! (t - 1)) = Inr v'"
               "s' = s\<lparr>world := w',
                      heap := (heap s)(TrN := (heap s TrN)[t - 1 := v']),
                      trace := trace s @ [Call t],
                      returns := returns s @ (case r of Inl e \<Rightarrow> [] | Inr out \<Rightarrow> [(t, [out])])\<rparr>"
proof (cases "t - 1 < length (heap s TrN)")
  case False
  with assms have "r = Inl IndexError" "s' = s"
    by (auto simp: call_gen_def get_row_def)
  then show ?thesis using False by (rule fail)
next
  case True
  obtain w' ws res where g: "g (world s) (heap s TrN ! (t - 1)) = (w', ws, res)"
    by (cases "g (world s) (heap s TrN ! (t - 1))")
  show ?thesis
  proof (cases "apply_writes (env s) dt ws (heap s TrN ! (t - 1))")
    case (Inl e)
    with assms True g have "r = Inl e" "s' = s\<lparr>world := w', trace := trace s @ [Call t]\<rparr>"
      by (auto simp: call_gen_def get_row_def)
    then show ?thesis by (rule bad_write)
  next
    case (Inr v')
    with assms True g have r: "r = res"
      and s': "s' = s\<lparr>world := w',
                      heap := (heap s)(TrN := (heap s TrN)[t - 1 := v']),
                      trace := trace s @ [Call t],
                      returns := returns s @ (case r of Inl e \<Rightarrow> [] | Inr out \<Rightarrow> [(t, [out])])\<rparr>"
      by (auto simp: call_gen_def get_row_def)
    from True g [unfolded r [symmetric]] Inr s' show ?thesis by (rule called)
  qed
qed

lemma set_row_shape:
  "set_row tr i dt v s = (r, s') \<Longrightarrow> map length (heap s' tr') = map length (heap s tr')"
  by (erule set_row_cases) (auto simp: map_length_update_same stored_length)

lemma set_row_env: "set_row tr i dt v s = (r, s') \<Longrightarrow> env s' = env s"
  by (erule set_row_cases) auto

lemma call_gen_shape:
  "call_gen g dt t s = (r, s') \<Longrightarrow> map length (heap s' tr) = map length (heap s tr)"
  by (erule call_gen_cases) (auto simp: map_length_update_same length_apply_writes)

lemma call_gen_env: "call_gen g dt t s = (r, s') \<Longrightarrow> env s' = env s"
  by (erule call_gen_cases) auto

lemma step_shape:
  "step g dt t s = (r, s') \<Longrightarrow> map length (heap s' tr) = map length (heap s tr)"
proof -
  assume "step g dt t s = (r, s')"
  then have "andthen (call_gen g dt t) (\<lambda>out. set_row TrN t dt out) s = (r, s')"
    by (simp add: step_def)
  then show ?thesis
  proof (cases rule: andthenE)
    case (fail e)
    then show ?thesis by (simp add: call_gen_shape)
  next
    case (ok a s1)
    then show ?thesis
      using call_gen_shape [of g dt t s "Inr a" s1 tr] set_row_shape [of TrN t dt a s1 r s' tr]
      by simp
  qed
qed

lemma step_env: "step g dt t s = (r, s') \<Longrightarrow> env s' = env s"
proof -
  assume "step g dt t s = (r, s')"
  then have "andthen (call_gen g dt t) (\<lambda>out. set_row TrN t dt out) s = (r, s')"
    by (simp add: step_def)
  then show ?thesis
  proof (cases rule: andthenE)
    case (fail e)
    then show ?thesis by (simp add: call_gen_env)
  next
    case (ok a s1)
    then show ?thesis
      using call_gen_env [of g dt t s "Inr a" s1] set_row_env [of TrN t dt a s1 r s']
      by simp
  qed
qed

lemma for_loop_rel:
  assumes "for_loop body ts s = (r, s')"
    and "\<And>a. R a a"
    and "\<And>a b c. R a b \<Longrightarrow> R b c \<Longrightarrow> R a c"
    and "\<And>t a r b. t \<in> set ts \<Longrightarrow> body t a = (r, b) \<Longrightarrow> R a b"
  shows "R s s'"
  using assms(1,4)
proof (induction ts arbitrary: s)
  case Nil
  then show ?case by (simp add: assms(2))
next
  case (Cons t ts)
  obtain r1 s1 where st: "body t s = (r1, s1)" by (cases "body t s")
  then have 1: "R s s1" using Cons.prems(2) [of t s r1 s1] by simp
  show ?case
  proof (cases r1)
    case (Inl e)
    with Cons.prems(1) st have "s' = s1" by simp
    with 1 show ?thesis by simp
  next
    case (Inr u)
    with Cons.prems(1) st have "for_loop body ts s1 = (r, s')" by simp
    then have "R s1 s'" using Cons.prems(2) by (intro Cons.IH) auto
    with 1 show ?thesis by (rule assms(3))
  qed
qed

lemma loop_shape:
  "for_loop (step g dt) ts s = (r, s') \<Longrightarrow> map length (heap s' tr) = map length (heap s tr)"
  by (erule for_loop_rel [where R = "\<lambda>a b. map length (heap b tr) = map length (heap a tr)"])
     (auto simp: step_shape)

lemma loop_env: "for_loop (step g dt) ts s = (r, s') \<Longrightarrow> env s' = env s"
  by (erule for_loop_rel [where R = "\<lambda>a b. env b = env a"]) (auto simp: step_env)

lemma for_loop_appends:
  assumes "for_loop body ts s = (Inr (), s')"
    and "\<And>t a b. t \<in> set ts \<Longrightarrow> body t a = (Inr (), b) \<Longrightarrow> obs b = obs a @ ev t"
  shows "obs s' = obs s @ concat (map ev ts)"
  using assms
proof (induction ts arbitrary: s)
  case Nil
  then show ?case by simp
next
  case (Cons t ts)
  obtain r1 s1 where st: "body t s = (r1, s1)" by (cases "body t s")
  with Cons.prems(1) have r1: "r1 = Inr ()" and rest: "for_loop body ts s1 = (Inr (), s')"
    by (auto split: sum.splits)
  from st r1 Cons.prems(2) [of t s s1] have "obs s1 = obs s @ ev t" by simp
  moreover from rest Cons.prems(2) have "obs s' = obs s1 @ concat (map ev ts)"
    by (intro Cons.IH) auto
  ultimately show ?case by simp
qed

lemma for_loop_Cons_ok:
  assumes "for_loop body (t # ts) s = (Inr (), s')"
  obtains s1 where "body t s = (Inr (), s1)" "for_loop body ts s1 = (Inr (), s')"
proof -
  obtain r1 s1 where st: "body t s = (r1, s1)" by (cases "body t s")
  with assms have "r1 = Inr ()" and "for_loop body ts s1 = (Inr (), s')"
    by (auto split: sum.splits)
  with st that show ?thesis by simp
qed

lemma shape_nth:
  assumes "map length xs = map length ys" and "i < length ys"
  shows "length (xs ! i) = length (ys ! i)"
proof -
  from assms(1) have l: "length xs = length ys" by (rule map_eq_imp_length_eq)
  with assms have "map length xs ! i = map length ys ! i" by simp
  with assms(2) l show ?thesis by simp
qed

lemma shape_length: "map length xs = map length ys \<Longrightarrow> length xs = length ys"
  by (rule map_eq_imp_length_eq)

lemma step_ok:
  assumes "step g dt t s = (Inr (), s')"
  obtains w' ws out v' row where
    "t - 1 < length (heap s TrN)" "t < length (heap s TrN)"
    "g (world s) (heap s TrN ! (t - 1)) = (w', ws, Inr out)"
    "apply_writes (env s) dt ws (heap s TrN ! (t - 1)) = Inr v'"
    "stored (env s) dt (length (heap s TrN ! t)) out = Inr row"
    "world s' = w'"
    "heap s' = (heap s)(TrN := ((heap s TrN)[t - 1 := v'])[t := row])"
    "trace s' = trace s @ [Call t, Store TrN t]"
    "returns s' = returns s @ [(t, [out])]"
proof -
  from assms have "andthen (call_gen g dt t) (\<lambda>out. set_row TrN t dt out) s = (Inr (), s')"
    by (simp add: step_def)
  then obtain out s1 where c: "call_gen g dt t s = (Inr out, s1)"
    and st: "set_row TrN t dt out s1 = (Inr (), s')"
    by (auto elim: andthenE)
  from c obtain w' ws v' where 1: "t - 1 < length (heap s TrN)"
     and 2: "g (world s) (heap s TrN ! (t - 1)) = (w', ws, Inr out)"
     and wr: "apply_writes (env s) dt ws (heap s TrN ! (t - 1)) = Inr v'"
     and 3: "s1 = s\<lparr>world := w',
                      heap := (heap s)(TrN := (heap s TrN)[t - 1 := v']),
                      trace := trace s @ [Call t],
                      returns := returns s @ [(t, [out])]\<rparr>"
    by (auto elim: call_gen_cases)
  have len: "length (heap s1 TrN ! t) = length (heap s TrN ! t)"
  proof (cases "t = 0")
    case True
    with 1 wr 3 show ?thesis by (simp add: length_apply_writes)
  next
    case False
    then have "t - 1 \<noteq> t" by simp
    with 3 show ?thesis by simp
  qed
  from st obtain row where 4: "t < length (heap s1 TrN)"
     and 5: "stored (env s1) dt (length (heap s1 TrN ! t)) out = Inr row"
     and 6: "s' = s1\<lparr>heap := (heap s1)(TrN := (heap s1 TrN)[t := row]),
                      trace := trace s1 @ [Store TrN t]\<rparr>"
    by (auto elim: set_row_cases)
  from 3 have e: "env s1 = env s" by simp
  show ?thesis
  proof (rule that [of w' ws out v' row])
    show "t - 1 < length (heap s TrN)" by (rule 1)
    show "t < length (heap s TrN)" using 4 3 by simp
    show "g (world s) (heap s TrN ! (t - 1)) = (w', ws, Inr out)" by (rule 2)
    show "apply_writes (env s) dt ws (heap s TrN ! (t - 1)) = Inr v'" by (rule wr)
    show "stored (env s) dt (length (heap s TrN ! t)) out = Inr row" using 5 e len by simp
    show "world s' = w'" using 3 6 by simp
    show "heap s' = (heap s)(TrN := ((heap s TrN)[t - 1 := v'])[t := row])" using 3 6 by simp
    show "trace s' = trace s @ [Call t, Store TrN t]" using 3 6 by simp
    show "returns s' = returns s @ [(t, [out])]" using 3 6 by simp
  qed
qed

lemma call_gen_no_inplace:
  assumes "no_inplace g" and "call_gen g dt t s = (r, s')"
  shows "heap s' = heap s"
  using assms(2)
proof (cases rule: call_gen_cases)
  case fail
  then show ?thesis by simp
next
  case (bad_write e w')
  then show ?thesis by simp
next
  case (called w' ws v')
  from assms(1) have "fst (snd (g (world s) (heap s TrN ! (t - 1)))) = []"
    by (simp add: no_inplace_def)
  with called(2) have "ws = []" by simp
  with called(3) have "v' = heap s TrN ! (t - 1)" by simp
  with called(4) show ?thesis by simp
qed

lemma step_frame:
  assumes "no_inplace g" and "step g dt t s = (r, s')" and "tr \<noteq> TrN \<or> i \<noteq> t"
  shows "heap s' tr ! i = heap s tr ! i"
proof -
  from assms(2) have "andthen (call_gen g dt t) (\<lambda>out. set_row TrN t dt out) s = (r, s')"
    by (simp add: step_def)
  then show ?thesis
  proof (cases rule: andthenE)
    case (fail e)
    with assms(1) show ?thesis by (simp add: call_gen_no_inplace)
  next
    case (ok a s1)
    with assms(1) have h: "heap s1 = heap s" by (simp add: call_gen_no_inplace)
    from ok(2) show ?thesis
    proof (cases rule: set_row_cases)
      case (fail e)
      with h show ?thesis by simp
    next
      case (ok row)
      with h assms(3) show ?thesis by auto
    qed
  qed
qed

lemma loop_frame:
  assumes "no_inplace g" and "for_loop (step g dt) ts s = (r, s')" and "tr \<noteq> TrN \<or> i \<notin> set ts"
  shows "heap s' tr ! i = heap s tr ! i"
  using assms(2)
proof (rule for_loop_rel [where R = "\<lambda>a b. heap b tr ! i = heap a tr ! i"])
  fix t a r b
  assume "t \<in> set ts" and "step g dt t a = (r, b)"
  with assms(1,3) show "heap b tr ! i = heap a tr ! i"
    by (intro step_frame [of g dt t a r b]) auto
qed auto

lemma step_trace:
  assumes "step g dt t s = (Inr (), s')"
  shows "trace s' = trace s @ [Call t, Store TrN t]"
  using assms by (rule step_ok)

lemma loop_trace:
  assumes "for_loop (step g dt) ts s = (Inr (), s')"
  shows "trace s' = trace s @ concat (map (\<lambda>t. [Call t, Store TrN t]) ts)"
  using assms
proof (rule for_loop_appends)
  fix t a b assume "step g dt t a = (Inr (), b)"
  then show "trace b = trace a @ [Call t, Store TrN t]" by (rule step_trace)
qed

lemma step_returns:
  assumes "step g dt t s = (Inr (), s')"
  obtains out where "returns s' = returns s @ [(t, [out])]" "t < length (heap s TrN)"
    "length out = length (heap s TrN ! t) \<or> length out = 1"
proof -
  from assms obtain out row where "returns s' = returns s @ [(t, [out])]"
    and "t < length (heap s TrN)"
    and "stored (env s) dt (length (heap s TrN ! t)) out = Inr row"
    by (rule step_ok)
  then show ?thesis by (intro that [of out]) (auto dest: stored_input_length)
qed

lemma loop_returns:
  assumes "for_loop (step g dt) ts s = (Inr (), s')"
    and "(t, outs) \<in> set (returns s')"
  shows "(t, outs) \<in> set (returns s) \<or>
         (\<exists>out. outs = [out] \<and> t < length (heap s TrN) \<and>
                (length out = length (heap s TrN ! t) \<or> length out = 1))"
  using assms
proof (induction ts arbitrary: s)
  case Nil
  then show ?case by simp
next
  case (Cons u ts)
  from Cons.prems(1) obtain s1 where st: "step g dt u s = (Inr (), s1)"
    and rest: "for_loop (step g dt) ts s1 = (Inr (), s')"
    by (rule for_loop_Cons_ok)
  from st have sh: "map length (heap s1 TrN) = map length (heap s TrN)" by (rule step_shape)
  from st obtain o1 where r1: "returns s1 = returns s @ [(u, [o1])]" and u: "u < length (heap s TrN)"
    and l1: "length o1 = length (heap s TrN ! u) \<or> length o1 = 1"
    by (rule step_returns)
  from Cons.IH [OF rest Cons.prems(2)]
  consider (old) "(t, outs) \<in> set (returns s1)"
    | (new) out where "outs = [out]" "t < length (heap s1 TrN)"
        "length out = length (heap s1 TrN ! t) \<or> length out = 1"
    by blast
  then show ?case
  proof cases
    case old
    with r1 have "(t, outs) \<in> set (returns s) \<union> {(u, [o1])}" by simp
    then have "(t, outs) \<in> set (returns s) \<or> (t = u \<and> outs = [o1])" by blast
    with u l1 show ?thesis by blast
  next
    case new
    from new(2) have t: "t < length (heap s TrN)" using shape_length [OF sh] by simp
    with sh have "length (heap s1 TrN ! t) = length (heap s TrN ! t)" by (rule shape_nth)
    with new t show ?thesis by simp
  qed
qed

lemma step_stored:
  assumes "no_inplace g" and "step g dt t s = (Inr (), s')"
  obtains out where "returns s' = returns s @ [(t, [out])]" "t < length (heap s TrN)"
    "stored (env s) dt (length (heap s TrN ! t)) out = Inr (heap s' TrN ! t)"
proof -
  from assms(2) obtain w' ws out v' row where
    1: "t < length (heap s TrN)"
    and 2: "stored (env s) dt (length (heap s TrN ! t)) out = Inr row"
    and 3: "heap s' = (heap s)(TrN := ((heap s TrN)[t - 1 := v'])[t := row])"
    and 4: "returns s' = returns s @ [(t, [out])]"
    by (rule step_ok)
  from 3 have "heap s' TrN = ((heap s TrN)[t - 1 := v'])[t := row]" by simp
  with 1 have "heap s' TrN ! t = row" by simp
  with 2 have "stored (env s) dt (length (heap s TrN ! t)) out = Inr (heap s' TrN ! t)" by simp
  with 4 1 show ?thesis by (rule that)
qed

lemma loop_stored:
  assumes "no_inplace g" and "for_loop (step g dt) ts s = (Inr (), s')" and "distinct ts"
    and "(t, outs) \<in> set (returns s')"
  shows "(t, outs) \<in> set (returns s) \<or>
         (\<exists>out. outs = [out] \<and> t \<in> set ts \<and> t < length (heap s TrN) \<and>
                stored (env s) dt (length (heap s TrN ! t)) out = Inr (heap s' TrN ! t))"
  using assms(2-4)
proof (induction ts arbitrary: s)
  case Nil
  then show ?case by simp
next
  case (Cons u ts)
  from Cons.prems(1) obtain s1 where st: "step g dt u s = (Inr (), s1)"
    and rest: "for_loop (step g dt) ts s1 = (Inr (), s')"
    by (rule for_loop_Cons_ok)
  from Cons.prems(2) have d: "distinct ts" and u_notin: "u \<notin> set ts" by simp_all
  from st have sh: "map length (heap s1 TrN) = map length (heap s TrN)" by (rule step_shape)
  from st have e: "env s1 = env s" by (rule step_env)
  from assms(1) st obtain o1 where r1: "returns s1 = returns s @ [(u, [o1])]"
    and u: "u < length (heap s TrN)"
    and row: "stored (env s) dt (length (heap s TrN ! u)) o1 = Inr (heap s1 TrN ! u)"
    by (rule step_stored)
  from Cons.IH [OF rest d Cons.prems(3)]
  consider (old) "(t, outs) \<in> set (returns s1)"
    | (new) out where "outs = [out]" "t \<in> set ts" "t < length (heap s1 TrN)"
        "stored (env s1) dt (length (heap s1 TrN ! t)) out = Inr (heap s' TrN ! t)"
    by blast
  then show ?case
  proof cases
    case old
    with r1 consider "(t, outs) \<in> set (returns s)" | "t = u" "outs = [o1]" by auto
    then show ?thesis
    proof cases
      case 1
      then show ?thesis by simp
    next
      case 2
      from assms(1) rest u_notin have "heap s' TrN ! u = heap s1 TrN ! u"
        by (intro loop_frame [of g dt ts s1 "Inr ()" s']) auto
      with row 2 u show ?thesis by simp
    qed
  next
    case new
    from new(3) have t: "t < length (heap s TrN)" using shape_length [OF sh] by simp
    with sh have "length (heap s1 TrN ! t) = length (heap s TrN ! t)" by (rule shape_nth)
    with new t e show ?thesis by simp
  qed
qed

lemma step_pure:
  assumes "step (pure_fn f) dt t s = (Inr (), s')"
  shows "t < length (heap s TrN) \<and>
         (length (f (heap s TrN ! (t - 1))) = length (heap s TrN ! t) \<or>
          length (f (heap s TrN ! (t - 1))) = 1) \<and>
         stored (env s) dt (length (heap s TrN ! t)) (f (heap s TrN ! (t - 1)))
           = Inr (heap s' TrN ! t)"
proof -
  from assms obtain w' ws out v' row where
    1: "t < length (heap s TrN)"
    and 2: "pure_fn f (world s) (heap s TrN ! (t - 1)) = (w', ws, Inr out)"
    and 3: "stored (env s) dt (length (heap s TrN ! t)) out = Inr row"
    and 4: "heap s' = (heap s)(TrN := ((heap s TrN)[t - 1 := v'])[t := row])"
    by (rule step_ok)
  from 2 have out: "out = f (heap s TrN ! (t - 1))" by (simp add: pure_fn_def)
  from 4 have "heap s' TrN = ((heap s TrN)[t - 1 := v'])[t := row]" by simp
  with 1 have "heap s' TrN ! t = row" by simp
  with 1 3 out show ?thesis by (auto dest: stored_input_length)
qed

lemma no_inplace_pure_fn: "no_inplace (pure_fn f)"
  by (simp add: no_inplace_def pure_fn_def)

lemma no_inplace_pure_fn2: "no_inplace2 (pure_fn2 f)"
  by (simp add: no_inplace2_def pure_fn2_def split: prod.splits)

lemma loop_pure:
  assumes "for_loop (step (pure_fn f) dt) ts s = (Inr (), s')" and "sorted_wrt (<) ts"
    and "\<forall>t\<in>set ts. 1 \<le> t" and "t \<in> set ts"
  shows "t < length (heap s TrN) \<and>
         (length (f (heap s' TrN ! (t - 1))) = length (heap s TrN ! t) \<or>
          length (f (heap s' TrN ! (t - 1))) = 1) \<and>
         stored (env s) dt (length (heap s TrN ! t)) (f (heap s' TrN ! (t - 1)))
           = Inr (heap s' TrN ! t)"
  using assms
proof (induction ts arbitrary: s)
  case Nil
  then show ?case by simp
next
  case (Cons u ts)
  from Cons.prems(1) obtain s1 where st: "step (pure_fn f) dt u s = (Inr (), s1)"
    and rest: "for_loop (step (pure_fn f) dt) ts s1 = (Inr (), s')"
    by (rule for_loop_Cons_ok)
  from Cons.prems(2) have srt: "sorted_wrt (<) ts" and above: "\<forall>x\<in>set ts. u < x" by simp_all
  from Cons.prems(3) have pos: "\<forall>t\<in>set ts. 1 \<le> t" and u1: "1 \<le> u" by simp_all
  from st have sh: "map length (heap s1 TrN) = map length (heap s TrN)" by (rule step_shape)
  from st have e: "env s1 = env s" by (rule step_env)
  show ?case
  proof (cases "t = u")
    case True
    from above have "u \<notin> set ts" and "u - 1 \<notin> set ts" by auto
    then have a: "heap s' TrN ! u = heap s1 TrN ! u" and b: "heap s' TrN ! (u - 1) = heap s1 TrN ! (u - 1)"
      using rest no_inplace_pure_fn [of f]
      by (auto intro!: loop_frame [of "pure_fn f" dt ts s1 "Inr ()" s'])
    from u1 have "u - 1 \<noteq> u" by simp
    with st have c: "heap s1 TrN ! (u - 1) = heap s TrN ! (u - 1)"
      using no_inplace_pure_fn [of f]
      by (intro step_frame [of "pure_fn f" dt u s "Inr ()" s1]) auto
    from step_pure [OF st] a b c True show ?thesis by simp
  next
    case False
    with Cons.prems(4) have "t \<in> set ts" by simp
    from Cons.IH [OF rest srt pos this]
    have 1: "t < length (heap s1 TrN)"
      and 2: "length (f (heap s' TrN ! (t - 1))) = length (heap s1 TrN ! t) \<or>
          length (f (heap s' TrN ! (t - 1))) = 1"
      and 3: "stored (env s1) dt (length (heap s1 TrN ! t)) (f (heap s' TrN ! (t - 1)))
           = Inr (heap s' TrN ! t)"
      by simp_all
    from 1 have t: "t < length (heap s TrN)" using shape_length [OF sh] by simp
    with sh have "length (heap s1 TrN ! t) = length (heap s TrN ! t)" by (rule shape_nth)
    with 2 3 t e show ?thesis by simp
  qed
qed

lemma step_typed:
  assumes "step g dt t s = (Inr (), s')"
    and "\<forall>i<t. list_all (is_dtype dt) (heap s TrN ! i)"
  shows "\<forall>i<Suc t. list_all (is_dtype dt) (heap s' TrN ! i)"
proof (intro allI impI)
  fix i assume i: "i < Suc t"
  from assms(1) obtain w' ws out v' row where
    1: "t < length (heap s TrN)"
    and 2: "apply_writes (env s) dt ws (heap s TrN ! (t - 1)) = Inr v'"
    and 3: "stored (env s) dt (length (heap s TrN ! t)) out = Inr row"
    and 4: "heap s' = (heap s)(TrN := ((heap s TrN)[t - 1 := v'])[t := row])"
    by (rule step_ok)
  from 4 have h: "heap s' TrN = ((heap s TrN)[t - 1 := v'])[t := row]" by simp
  from 3 have row: "list_all (is_dtype dt) row" by (rule stored_typed)
  show "list_all (is_dtype dt) (heap s' TrN ! i)"
  proof (cases "i = t")
    case True
    with h 1 row show ?thesis by simp
  next
    case False
    with i have lt: "i < t" by simp
    show ?thesis
    proof (cases "i = t - 1")
      case True
      from lt assms(2) True have "list_all (is_dtype dt) (heap s TrN ! (t - 1))" by simp
      with 2 have "list_all (is_dtype dt) v'" by (rule apply_writes_typed)
      with h 1 lt True show ?thesis by simp
    next
      case False
      with h lt assms(2) show ?thesis by simp
    qed
  qed
qed

lemma loop_typed:
  assumes "for_loop (step g dt) [a..<n] s = (Inr (), s')"
    and "\<forall>i<a. list_all (is_dtype dt) (heap s TrN ! i)"
  shows "\<forall>i<max a n. list_all (is_dtype dt) (heap s' TrN ! i)"
  using assms
proof (induction "n - a" arbitrary: a s)
  case 0
  then have "[a..<n] = []" and "max a n = a" by simp_all
  with "0.prems" show ?case by simp
next
  case (Suc k)
  then have lt: "a < n" by simp
  then have "[a..<n] = a # [Suc a..<n]" by (simp add: upt_conv_Cons)
  with Suc.prems(1) have "for_loop (step g dt) (a # [Suc a..<n]) s = (Inr (), s')" by simp
  then obtain s1 where st: "step g dt a s = (Inr (), s1)"
    and rest: "for_loop (step g dt) [Suc a..<n] s1 = (Inr (), s')"
    by (rule for_loop_Cons_ok)
  from st Suc.prems(2) have "\<forall>i<Suc a. list_all (is_dtype dt) (heap s1 TrN ! i)"
    by (rule step_typed)
  moreover from Suc.hyps(2) have "k = n - Suc a" by simp
  ultimately have "\<forall>i<max (Suc a) n. list_all (is_dtype dt) (heap s' TrN ! i)"
    using rest by (intro Suc.hyps(1)) simp_all
  moreover from lt have "max (Suc a) n = max a n" by simp
  ultimately show ?case by simp
qed

lemma init_eq:
  "andthen (np_empty tr n (length v)) (\<lambda>_. andthen (set_row tr 0 dt v) k) s =
     (if n < 0 then (Inl ValueError, s)
      else if n = 0 then (Inl IndexError, allocated tr n (length v) s)
      else (case astype_all (env s) dt v of
              Inl e \<Rightarrow> (Inl e, allocated tr n (length v) s)
            | Inr row \<Rightarrow> k () (started tr n (length v) row s)))"
proof -
  consider "n < 0" | "n = 0" | "0 < n" by linarith
  then show ?thesis
  proof cases
    case 1
    then show ?thesis by (simp add: andthen_def np_empty_def)
  next
    case 2
    then show ?thesis by (simp add: andthen_def np_empty_def set_row_def allocated_def)
  next
    case 3
    then have "[0..<nat n] = 0 # [1..<nat n]" by (simp add: upt_conv_Cons)
    with 3 show ?thesis
      by (simp add: andthen_def np_empty_def set_row_def stored_same_length started_def
            allocated_def split: sum.splits)
  qed
qed

lemma started_simps:
  "world (started tr n L row s) = world s"
  "returns (started tr n L row s) = returns s"
  "env (started tr n L row s) = env s"
  "trace (started tr n L row s) = trace s @ [Alloc tr, Store tr 0]"
  "tr' \<noteq> tr \<Longrightarrow> heap (started tr n L row s) tr' = heap s tr'"
  by (simp_all add: started_def)

lemma allocated_simps:
  "world (allocated tr n L s) = world s"
  "returns (allocated tr n L s) = returns s"
  "env (allocated tr n L s) = env s"
  "trace (allocated tr n L s) = trace s @ [Alloc tr]"
  by (simp_all add: allocated_def)

lemma started_shape:
  "length row = L \<Longrightarrow> map length (heap (started tr n L row s) tr) = replicate (nat n) L"
  by (cases "nat n") (simp_all add: started_def map_update map_replicate_const comp_def
        upt_conv_Cons del: upt_Suc)

lemma started_row0:
  "0 < n \<Longrightarrow> heap (started tr n L row s) tr ! 0 = row"
  by (simp add: started_def)

lemma run_sim_eq:
  "run_sim N0 g ngens dtype s =
     (if ngens < 0 then (Inl ValueError, s)
      else if ngens = 0 then (Inl IndexError, allocated TrN ngens (length N0) s)
      else (case astype_all (env s) (the_dtype dtype) N0 of
              Inl e \<Rightarrow> (Inl e, allocated TrN ngens (length N0) s)
            | Inr r0 \<Rightarrow>
               (case for_loop (step g (the_dtype dtype)) [1..<nat ngens]
                       (started TrN ngens (length N0) r0 s) of
                  (Inl e, s') \<Rightarrow> (Inl e, s')
                | (Inr _, s') \<Rightarrow> (Inr (heap s' TrN), s'))))"
  by (simp add: run_sim_def init_eq) (simp add: andthen_def split: sum.splits)

lemma run_sim_ok:
  assumes "fst (run_sim N0 g ngens dtype s) = Inr traj"
  obtains r0 where "0 < ngens" "astype_all (env s) (the_dtype dtype) N0 = Inr r0"
    "for_loop (step g (the_dtype dtype)) [1..<nat ngens] (started TrN ngens (length N0) r0 s)
       = (Inr (), snd (run_sim N0 g ngens dtype s))"
    "traj = heap (snd (run_sim N0 g ngens dtype s)) TrN"
proof -
  from assms have pos: "0 < ngens" by (auto simp: run_sim_eq split: if_splits)
  with assms obtain r0 where r0: "astype_all (env s) (the_dtype dtype) N0 = Inr r0"
    by (cases "astype_all (env s) (the_dtype dtype) N0") (auto simp: run_sim_eq)
  obtain r s' where l: "for_loop (step g (the_dtype dtype)) [1..<nat ngens]
            (started TrN ngens (length N0) r0 s) = (r, s')"
    by (cases "for_loop (step g (the_dtype dtype)) [1..<nat ngens]
            (started TrN ngens (length N0) r0 s)")
  with assms pos r0 have "r = Inr ()" "s' = snd (run_sim N0 g ngens dtype s)"
    "traj = heap (snd (run_sim N0 g ngens dtype s)) TrN"
    by (cases r; simp add: run_sim_eq)+
  with pos r0 l show ?thesis by (intro that [of r0]) simp_all
qed

lemma replicate_shape_nth:
  assumes "map length b = replicate n L" and "t < n"
  shows "length (b ! t) = L" and "length b = n"
proof -
  from assms(1) have "length (map length b) = length (replicate n L)" by simp
  then show l: "length b = n" by simp
  from assms l have "map length b ! t = replicate n L ! t" by simp
  with assms(2) l show "length (b ! t) = L" by simp
qed

lemma replicate_shape_rows:
  assumes "map length b = replicate n L" and "row \<in> set b"
  shows "length row = L"
proof -
  from assms(2) have "length row \<in> set (map length b)" by simp
  with assms(1) show ?thesis by simp
qed

lemma run_sim_shape:
  assumes "fst (run_sim N0 g ngens dtype s) = Inr traj"
  shows "map length traj = replicate (nat ngens) (length N0)" and "0 < ngens"
proof -
  from assms obtain r0 where pos: "0 < ngens"
    and r0: "astype_all (env s) (the_dtype dtype) N0 = Inr r0"
    and l: "for_loop (step g (the_dtype dtype)) [1..<nat ngens]
            (started TrN ngens (length N0) r0 s) = (Inr (), snd (run_sim N0 g ngens dtype s))"
    and t: "traj = heap (snd (run_sim N0 g ngens dtype s)) TrN"
    by (rule run_sim_ok)
  from r0 have "length r0 = length N0" by (rule astype_all_length)
  with loop_shape [OF l, of TrN] t show "map length traj = replicate (nat ngens) (length N0)"
    by (simp add: started_shape)
  from pos show "0 < ngens" .
qed

lemma run_sim_row0:
  assumes "no_inplace g" and "fst (run_sim N0 g ngens dtype s) = Inr traj"
  shows "astype_all (env s) (the_dtype dtype) N0 = Inr (traj ! 0)"
proof -
  from assms(2) obtain r0 where pos: "0 < ngens"
    and r0: "astype_all (env s) (the_dtype dtype) N0 = Inr r0"
    and l: "for_loop (step g (the_dtype dtype)) [1..<nat ngens]
            (started TrN ngens (length N0) r0 s) = (Inr (), snd (run_sim N0 g ngens dtype s))"
    and t: "traj = heap (snd (run_sim N0 g ngens dtype s)) TrN"
    by (rule run_sim_ok)
  have "0 \<notin> set [1..<nat ngens]" by simp
  with assms(1) l have "heap (snd (run_sim N0 g ngens dtype s)) TrN ! 0
      = heap (started TrN ngens (length N0) r0 s) TrN ! 0"
    by (intro loop_frame [of g _ "[1..<nat ngens]" _ "Inr ()"]) simp_all
  with t pos r0 show ?thesis by (simp add: started_row0)
qed

lemma run_sim_trace:
  assumes "fst (run_sim N0 g ngens dtype s) = Inr traj"
  shows "trace (snd (run_sim N0 g ngens dtype s)) =
           trace s @ [Alloc TrN, Store TrN 0] @
           concat (map (\<lambda>t. [Call t, Store TrN t]) [1..<nat ngens])"
proof -
  from assms obtain r0 where
    l: "for_loop (step g (the_dtype dtype)) [1..<nat ngens]
            (started TrN ngens (length N0) r0 s) = (Inr (), snd (run_sim N0 g ngens dtype s))"
    by (rule run_sim_ok)
  from loop_trace [OF l] show ?thesis by (simp add: started_simps)
qed

lemma run_sim_stored:
  assumes "no_inplace g" and "fst (run_sim N0 g ngens dtype s) = Inr traj"
    and "(t, outs) \<in> set (returns (snd (run_sim N0 g ngens dtype s)))"
  shows "(t, outs) \<in> set (returns s) \<or>
         (\<exists>out. outs = [out] \<and> 1 \<le> t \<and> t < nat ngens \<and>
                stored (env s) (the_dtype dtype) (length N0) out = Inr (traj ! t))"
proof -
  from assms(2) obtain r0 where
    r0: "astype_all (env s) (the_dtype dtype) N0 = Inr r0"
    and l: "for_loop (step g (the_dtype dtype)) [1..<nat ngens]
            (started TrN ngens (length N0) r0 s) = (Inr (), snd (run_sim N0 g ngens dtype s))"
    and tr: "traj = heap (snd (run_sim N0 g ngens dtype s)) TrN"
    by (rule run_sim_ok)
  let ?s0 = "started TrN ngens (length N0) r0 s"
  from r0 have "length r0 = length N0" by (rule astype_all_length)
  then have sh: "map length (heap ?s0 TrN) = replicate (nat ngens) (length N0)"
    by (rule started_shape)
  from loop_stored [OF assms(1) l _ assms(3)]
  consider "(t, outs) \<in> set (returns ?s0)"
    | out where "outs = [out]" "t \<in> set [1..<nat ngens]"
        "stored (env ?s0) (the_dtype dtype) (length (heap ?s0 TrN ! t)) out
           = Inr (heap (snd (run_sim N0 g ngens dtype s)) TrN ! t)"
    by auto
  then show ?thesis
  proof cases
    case 1
    then show ?thesis by (simp add: started_simps)
  next
    case 2
    from 2(2) have t: "1 \<le> t" "t < nat ngens" by simp_all
    from sh t(2) have "length (heap ?s0 TrN ! t) = length N0" by (rule replicate_shape_nth)
    with 2 t tr show ?thesis by (simp add: started_simps)
  qed
qed

lemma run_sim_returns:
  assumes "fst (run_sim N0 g ngens dtype s) = Inr traj"
    and "(t, outs) \<in> set (returns (snd (run_sim N0 g ngens dtype s)))"
  shows "(t, outs) \<in> set (returns s) \<or>
         (\<exists>out. outs = [out] \<and> (length out = length N0 \<or> length out = 1))"
proof -
  from assms(1) obtain r0 where
    r0: "astype_all (env s) (the_dtype dtype) N0 = Inr r0"
    and l: "for_loop (step g (the_dtype dtype)) [1..<nat ngens]
            (started TrN ngens (length N0) r0 s) = (Inr (), snd (run_sim N0 g ngens dtype s))"
    by (rule run_sim_ok)
  let ?s0 = "started TrN ngens (length N0) r0 s"
  from r0 have "length r0 = length N0" by (rule astype_all_length)
  then have sh: "map length (heap ?s0 TrN) = replicate (nat ngens) (length N0)"
    by (rule started_shape)
  from loop_returns [OF l assms(2)]
  consider "(t, outs) \<in> set (returns ?s0)"
    | out where "outs = [out]" "t < length (heap ?s0 TrN)"
        "length out = length (heap ?s0 TrN ! t) \<or> length out = 1"
    by blast
  then show ?thesis
  proof cases
    case 1
    then show ?thesis by (simp add: started_simps)
  next
    case 2
    from sh have "length (map length (heap ?s0 TrN)) = length (replicate (nat ngens) (length N0))"
      by simp
    with 2(2) have t: "t < nat ngens" by simp
    from sh t have "length (heap ?s0 TrN ! t) = length N0" by (rule replicate_shape_nth)
    with 2 show ?thesis by simp
  qed
qed

lemma run_sim_pure:
  assumes "fst (run_sim N0 (pure_fn f) ngens dtype s) = Inr traj"
    and "1 \<le> t" and "t < nat ngens"
  shows "length (f (traj ! (t - 1))) = length N0 \<or> length (f (traj ! (t - 1))) = 1"
    and "stored (env s) (the_dtype dtype) (length N0) (f (traj ! (t - 1))) = Inr (traj ! t)"
proof -
  let ?s' = "snd (run_sim N0 (pure_fn f) ngens dtype s)"
  from assms(1) obtain r0 where
    r0: "astype_all (env s) (the_dtype dtype) N0 = Inr r0"
    and l: "for_loop (step (pure_fn f) (the_dtype dtype)) [1..<nat ngens]
            (started TrN ngens (length N0) r0 s) = (Inr (), ?s')"
    and tr: "traj = heap ?s' TrN"
    by (rule run_sim_ok)
  let ?s0 = "started TrN ngens (length N0) r0 s"
  from r0 have "length r0 = length N0" by (rule astype_all_length)
  then have sh: "map length (heap ?s0 TrN) = replicate (nat ngens) (length N0)"
    by (rule started_shape)
  from sh assms(3) have len: "length (heap ?s0 TrN ! t) = length N0" by (rule replicate_shape_nth)
  have srt: "sorted_wrt (<) [1..<nat ngens]" by simp
  have pos: "\<forall>t\<in>set [1..<nat ngens]. 1 \<le> t" by simp
  from assms(2,3) have mem: "t \<in> set [1..<nat ngens]" by simp
  from loop_pure [OF l srt pos mem] len tr
  show "length (f (traj ! (t - 1))) = length N0 \<or> length (f (traj ! (t - 1))) = 1"
    and "stored (env s) (the_dtype dtype) (length N0) (f (traj ! (t - 1))) = Inr (traj ! t)"
    by (simp_all add: started_simps)
qed

lemma run_sim_typed:
  assumes "fst (run_sim N0 g ngens dtype s) = Inr traj"
  shows "list_all (list_all (is_dtype (the_dtype dtype))) traj"
proof -
  let ?s' = "snd (run_sim N0 g ngens dtype s)"
  from assms obtain r0 where pos: "0 < ngens"
    and r0: "astype_all (env s) (the_dtype dtype) N0 = Inr r0"
    and l: "for_loop (step g (the_dtype dtype)) [1..<nat ngens]
            (started TrN ngens (length N0) r0 s) = (Inr (), ?s')"
    and tr: "traj = heap ?s' TrN"
    by (rule run_sim_ok)
  let ?s0 = "started TrN ngens (length N0) r0 s"
  from r0 have "list_all (is_dtype (the_dtype dtype)) r0" by (rule astype_all_typed)
  with pos have "\<forall>i<1. list_all (is_dtype (the_dtype dtype)) (heap ?s0 TrN ! i)"
    by (simp add: started_row0)
  with l have "\<forall>i<max 1 (nat ngens). list_all (is_dtype (the_dtype dtype)) (heap ?s' TrN ! i)"
    by (rule loop_typed)
  moreover from run_sim_shape(1) [OF assms] have "length traj = nat ngens"
    using replicate_shape_nth(2) [of traj "nat ngens" "length N0" 0] pos by simp
  ultimately show ?thesis using tr by (simp add: list_all_length)
qed

subsection \<open>The dual-track driver\<close>

lemma call_gen2_cases:
  assumes "call_gen2 g dt t s = (r, s')"
  obtains (fail) "r = Inl IndexError" "s' = s"
        | (bad_write) e w' where "r = Inl e" "s' = s\<lparr>world := w', trace := trace s @ [Call t]\<rparr>"
        | (called) w' wsN wsM vN' vM' where
            "t - 1 < length (heap s TrN)" "t - 1 < length (heap s TrM)"
            "g (world s) (heap s TrN ! (t - 1)) (heap s TrM ! (t - 1)) = (w', (wsN, wsM), r)"
            "apply_writes (env s) dt wsN (heap s TrN ! (t - 1)) = Inr vN'"
            "apply_writes (env s) dt wsM (heap s TrM ! (t - 1)) = Inr vM'"
            "s' = s\<lparr>world := w',
                      heap := (heap s)
                        (TrN := (heap s TrN)[t - 1 := vN'],
                         TrM := (heap s TrM)[t - 1 := vM']),
                      trace := trace s @ [Call t],
                      returns := returns s @
                        (case r of Inl e \<Rightarrow> [] | Inr (oN, oM) \<Rightarrow> [(t, [oN, oM])])\<rparr>"
proof (cases "t - 1 < length (heap s TrN) \<and> t - 1 < length (heap s TrM)")
  case False
  with assms have "r = Inl IndexError" "s' = s"
    by (auto simp: call_gen2_def get_row_def split: if_splits)
  then show ?thesis by (rule fail)
next
  case True
  obtain w' wsN wsM res where
    g: "g (world s) (heap s TrN ! (t - 1)) (heap s TrM ! (t - 1)) = (w', (wsN, wsM), res)"
    by (cases "g (world s) (heap s TrN ! (t - 1)) (heap s TrM ! (t - 1))") auto
  show ?thesis
  proof (cases "apply_writes (env s) dt wsN (heap s TrN ! (t - 1))")
    case (Inl e)
    with assms True g have "r = Inl e" "s' = s\<lparr>world := w', trace := trace s @ [Call t]\<rparr>"
      by (auto simp: call_gen2_def get_row_def)
    then show ?thesis by (rule bad_write)
  next
    case wN: (Inr vN')
    show ?thesis
    proof (cases "apply_writes (env s) dt wsM (heap s TrM ! (t - 1))")
      case (Inl e)
      with assms True g wN have "r = Inl e" "s' = s\<lparr>world := w', trace := trace s @ [Call t]\<rparr>"
        by (auto simp: call_gen2_def get_row_def)
      then show ?thesis by (rule bad_write)
    next
      case wM: (Inr vM')
      with assms True g wN have r: "r = res"
        and s': "s' = s\<lparr>world := w',
                      heap := (heap s)
                        (TrN := (heap s TrN)[t - 1 := vN'],
                         TrM := (heap s TrM)[t - 1 := vM']),
                      trace := trace s @ [Call t],
                      returns := returns s @
                        (case r of Inl e \<Rightarrow> [] | Inr (oN, oM) \<Rightarrow> [(t, [oN, oM])])\<rparr>"
        by (auto simp: call_gen2_def get_row_def)
      from True have "t - 1 < length (heap s TrN)" "t - 1 < length (heap s TrM)" by simp_all
      then show ?thesis using g [unfolded r [symmetric]] wN wM s' by (rule called)
    qed
  qed
qed

lemma call_gen2_shape:
  "call_gen2 g dt t s = (r, s') \<Longrightarrow> map length (heap s' tr) = map length (heap s tr)"
  by (erule call_gen2_cases) (auto simp: map_length_update_same length_apply_writes)

lemma call_gen2_env: "call_gen2 g dt t s = (r, s') \<Longrightarrow> env s' = env s"
  by (erule call_gen2_cases) auto

lemma step2E:
  assumes "step2 g dt t s = (r, s')"
  obtains (raised) e where "call_gen2 g dt t s = (Inl e, s')" "r = Inl e"
        | (badN) oN oM s1 e where "call_gen2 g dt t s = (Inr (oN, oM), s1)"
            "set_row TrN t dt oN s1 = (Inl e, s')" "r = Inl e"
        | (stored) oN oM s1 s2 where "call_gen2 g dt t s = (Inr (oN, oM), s1)"
            "set_row TrN t dt oN s1 = (Inr (), s2)" "set_row TrM t dt oM s2 = (r, s')"
proof -
  from assms have "andthen (call_gen2 g dt t) (\<lambda>(oN, oM).
     andthen (set_row TrN t dt oN) (\<lambda>_. set_row TrM t dt oM)) s = (r, s')"
    by (simp add: step2_def)
  then show ?thesis
  proof (cases rule: andthenE)
    case (fail e)
    then show ?thesis by (rule raised)
  next
    case (ok a s1)
    obtain oN oM where a: "a = (oN, oM)" by (cases a)
    with ok(2) have "andthen (set_row TrN t dt oN) (\<lambda>_. set_row TrM t dt oM) s1 = (r, s')"
      by simp
    then show ?thesis
    proof (cases rule: andthenE)
      case (fail e)
      with ok(1) a show ?thesis by (intro badN [of oN oM s1 e]) simp_all
    next
      case (ok u s2)
      with \<open>call_gen2 g dt t s = (Inr a, s1)\<close> a show ?thesis
        by (intro stored [of oN oM s1 s2]) simp_all
    qed
  qed
qed

lemma step2_shape:
  assumes "step2 g dt t s = (r, s')"
  shows "map length (heap s' tr) = map length (heap s tr)"
  using assms
proof (cases rule: step2E)
  case (raised e)
  then show ?thesis by (simp add: call_gen2_shape)
next
  case (badN oN oM s1 e)
  then show ?thesis
    using call_gen2_shape [of g dt t s "Inr (oN, oM)" s1 tr]
      set_row_shape [of TrN t dt oN s1 "Inl e" s' tr]
    by simp
next
  case (stored oN oM s1 s2)
  then show ?thesis
    using call_gen2_shape [of g dt t s "Inr (oN, oM)" s1 tr]
      set_row_shape [of TrN t dt oN s1 "Inr ()" s2 tr]
      set_row_shape [of TrM t dt oM s2 r s' tr]
    by simp
qed

lemma step2_env:
  assumes "step2 g dt t s = (r, s')"
  shows "env s' = env s"
  using assms
proof (cases rule: step2E)
  case (raised e)
  then show ?thesis by (simp add: call_gen2_env)
next
  case (badN oN oM s1 e)
  then show ?thesis
    using call_gen2_env [of g dt t s "Inr (oN, oM)" s1]
      set_row_env [of TrN t dt oN s1 "Inl e" s']
    by simp
next
  case (stored oN oM s1 s2)
  then show ?thesis
    using call_gen2_env [of g dt t s "Inr (oN, oM)" s1]
      set_row_env [of TrN t dt oN s1 "Inr ()" s2]
      set_row_env [of TrM t dt oM s2 r s']
    by simp
qed

lemma loop2_shape:
  "for_loop (step2 g dt) ts s = (r, s') \<Longrightarrow> map length (heap s' tr) = map length (heap s tr)"
  by (erule for_loop_rel [where R = "\<lambda>a b. map length (heap b tr) = map length (heap a tr)"])
     (auto simp: step2_shape)

lemma loop2_env: "for_loop (step2 g dt) ts s = (r, s') \<Longrightarrow> env s' = env s"
  by (erule for_loop_rel [where R = "\<lambda>a b. env b = env a"]) (auto simp: step2_env)

lemma step2_ok:
  assumes "step2 g dt t s = (Inr (), s')"
  obtains w' wsN wsM oN oM vN' vM' rowN rowM where
    "t < length (heap s TrN)" "t < length (heap s TrM)"
    "g (world s) (heap s TrN ! (t - 1)) (heap s TrM ! (t - 1)) = (w', (wsN, wsM), Inr (oN, oM))"
    "apply_writes (env s) dt wsN (heap s TrN ! (t - 1)) = Inr vN'"
    "apply_writes (env s) dt wsM (heap s TrM ! (t - 1)) = Inr vM'"
    "stored (env s) dt (length (heap s TrN ! t)) oN = Inr rowN"
    "stored (env s) dt (length (heap s TrM ! t)) oM = Inr rowM"
    "world s' = w'"
    "heap s' TrN = ((heap s TrN)[t - 1 := vN'])[t := rowN]"
    "heap s' TrM = ((heap s TrM)[t - 1 := vM'])[t := rowM]"
    "trace s' = trace s @ [Call t, Store TrN t, Store TrM t]"
    "returns s' = returns s @ [(t, [oN, oM])]"
  using assms
proof (cases rule: step2E)
  case (stored oN oM s1 s2)
  from stored(1) obtain w' wsN wsM vN' vM' where
    1: "g (world s) (heap s TrN ! (t - 1)) (heap s TrM ! (t - 1)) = (w', (wsN, wsM), Inr (oN, oM))"
    and wN: "apply_writes (env s) dt wsN (heap s TrN ! (t - 1)) = Inr vN'"
    and wM: "apply_writes (env s) dt wsM (heap s TrM ! (t - 1)) = Inr vM'"
    and 2: "s1 = s\<lparr>world := w',
                      heap := (heap s)
                        (TrN := (heap s TrN)[t - 1 := vN'],
                         TrM := (heap s TrM)[t - 1 := vM']),
                      trace := trace s @ [Call t],
                      returns := returns s @ [(t, [oN, oM])]\<rparr>"
    and 3: "t - 1 < length (heap s TrN)" "t - 1 < length (heap s TrM)"
    by (auto elim: call_gen2_cases)
  have shN: "map length (heap s1 TrN) = map length (heap s TrN)"
    and shM: "map length (heap s1 TrM) = map length (heap s TrM)"
    using stored(1) by (rule call_gen2_shape)+
  from stored(2) obtain rowN where 4: "t < length (heap s1 TrN)"
     and 5: "stored (env s1) dt (length (heap s1 TrN ! t)) oN = Inr rowN"
     and 6: "s2 = s1\<lparr>heap := (heap s1)(TrN := (heap s1 TrN)[t := rowN]),
                      trace := trace s1 @ [Store TrN t]\<rparr>"
    by (auto elim: set_row_cases)
  from stored(3) obtain rowM where 7: "t < length (heap s2 TrM)"
     and 8: "stored (env s2) dt (length (heap s2 TrM ! t)) oM = Inr rowM"
     and 9: "s' = s2\<lparr>heap := (heap s2)(TrM := (heap s2 TrM)[t := rowM]),
                      trace := trace s2 @ [Store TrM t]\<rparr>"
    by (auto elim: set_row_cases)
  from 4 have tN: "t < length (heap s TrN)" using shape_length [OF shN] by simp
  from 7 6 have tM1: "t < length (heap s1 TrM)" by simp
  then have tM: "t < length (heap s TrM)" using shape_length [OF shM] by simp
  from shN tN have lN: "length (heap s1 TrN ! t) = length (heap s TrN ! t)" by (rule shape_nth)
  from shM tM have lM: "length (heap s1 TrM ! t) = length (heap s TrM ! t)" by (rule shape_nth)
  from 6 have lM2: "heap s2 TrM = heap s1 TrM" by simp
  from 2 have e1: "env s1 = env s" by simp
  from 6 e1 have e2: "env s2 = env s" by simp
  show ?thesis
  proof (rule that [of w' wsN wsM oN oM vN' vM' rowN rowM])
    show "t < length (heap s TrN)" by (rule tN)
    show "t < length (heap s TrM)" by (rule tM)
    show "g (world s) (heap s TrN ! (t - 1)) (heap s TrM ! (t - 1)) = (w', (wsN, wsM), Inr (oN, oM))"
      by (rule 1)
    show "apply_writes (env s) dt wsN (heap s TrN ! (t - 1)) = Inr vN'" by (rule wN)
    show "apply_writes (env s) dt wsM (heap s TrM ! (t - 1)) = Inr vM'" by (rule wM)
    show "stored (env s) dt (length (heap s TrN ! t)) oN = Inr rowN" using 5 lN e1 by simp
    show "stored (env s) dt (length (heap s TrM ! t)) oM = Inr rowM" using 8 lM lM2 e2 by simp
    show "world s' = w'" using 2 6 9 by simp
    show "heap s' TrN = ((heap s TrN)[t - 1 := vN'])[t := rowN]"
      using 9 6 by (simp add: 2)
    show "heap s' TrM = ((heap s TrM)[t - 1 := vM'])[t := rowM]"
      using 9 6 by (simp add: 2)
    show "trace s' = trace s @ [Call t, Store TrN t, Store TrM t]" using 2 6 9 by simp
    show "returns s' = returns s @ [(t, [oN, oM])]" using 2 6 9 by simp
  qed
qed simp_all

lemma call_gen2_no_inplace:
  assumes "no_inplace2 g" and "call_gen2 g dt t s = (r, s')"
  shows "heap s' = heap s"
  using assms(2)
proof (cases rule: call_gen2_cases)
  case fail
  then show ?thesis by simp
next
  case (bad_write e w')
  then show ?thesis by simp
next
  case (called w' wsN wsM vN' vM')
  from assms(1) have "fst (snd (g (world s) (heap s TrN ! (t - 1)) (heap s TrM ! (t - 1)))) = ([], [])"
    by (simp add: no_inplace2_def)
  with called(3) have "wsN = []" "wsM = []" by simp_all
  with called(4,5) have "vN' = heap s TrN ! (t - 1)" "vM' = heap s TrM ! (t - 1)" by simp_all
  with called(6) show ?thesis by simp
qed

lemma set_row_frame:
  assumes "set_row tr t dt v s = (r, s')" and "tr' \<noteq> tr \<or> i \<noteq> t"
  shows "heap s' tr' ! i = heap s tr' ! i"
  using assms(1)
proof (cases rule: set_row_cases)
  case (fail e)
  then show ?thesis by simp
next
  case (ok row)
  with assms(2) show ?thesis by auto
qed

lemma step2_frame:
  assumes "no_inplace2 g" and "step2 g dt t s = (r, s')" and "i \<noteq> t"
  shows "heap s' tr ! i = heap s tr ! i"
  using assms(2)
proof (cases rule: step2E)
  case (raised e)
  with assms(1) show ?thesis by (simp add: call_gen2_no_inplace)
next
  case (badN oN oM s1 e)
  from assms(1) badN(1) have "heap s1 = heap s" by (rule call_gen2_no_inplace)
  moreover from badN(2) assms(3) have "heap s' tr ! i = heap s1 tr ! i"
    by (intro set_row_frame [of TrN t dt oN s1 "Inl e" s']) simp_all
  ultimately show ?thesis by simp
next
  case (stored oN oM s1 s2)
  from assms(1) stored(1) have "heap s1 = heap s" by (rule call_gen2_no_inplace)
  moreover from stored(2) assms(3) have "heap s2 tr ! i = heap s1 tr ! i"
    by (intro set_row_frame [of TrN t dt oN s1 "Inr ()" s2]) simp_all
  moreover from stored(3) assms(3) have "heap s' tr ! i = heap s2 tr ! i"
    by (intro set_row_frame [of TrM t dt oM s2 r s']) simp_all
  ultimately show ?thesis by simp
qed

lemma loop2_frame:
  assumes "no_inplace2 g" and "for_loop (step2 g dt) ts s = (r, s')" and "i \<notin> set ts"
  shows "heap s' tr ! i = heap s tr ! i"
  using assms(2)
proof (rule for_loop_rel [where R = "\<lambda>a b. heap b tr ! i = heap a tr ! i"])
  fix t a r b
  assume "t \<in> set ts" and "step2 g dt t a = (r, b)"
  with assms(1,3) show "heap b tr ! i = heap a tr ! i"
    by (intro step2_frame [of g dt t a r b]) auto
qed auto

lemma step2_trace:
  assumes "step2 g dt t s = (Inr (), s')"
  shows "trace s' = trace s @ [Call t, Store TrN t, Store TrM t]"
  using assms by (rule step2_ok)

lemma loop2_trace:
  assumes "for_loop (step2 g dt) ts s = (Inr (), s')"
  shows "trace s' = trace s @ concat (map (\<lambda>t. [Call t, Store TrN t, Store TrM t]) ts)"
  using assms
proof (rule for_loop_appends)
  fix t a b assume "step2 g dt t a = (Inr (), b)"
  then show "trace b = trace a @ [Call t, Store TrN t, Store TrM t]" by (rule step2_trace)
qed

lemma step2_stored:
  assumes "step2 g dt t s = (Inr (), s')"
  obtains oN oM where "returns s' = returns s @ [(t, [oN, oM])]"
    "t < length (heap s TrN)" "t < length (heap s TrM)"
    "stored (env s) dt (length (heap s TrN ! t)) oN = Inr (heap s' TrN ! t)"
    "stored (env s) dt (length (heap s TrM ! t)) oM = Inr (heap s' TrM ! t)"
proof -
  from assms obtain oN oM vN' vM' rowN rowM where
    1: "t < length (heap s TrN)" "t < length (heap s TrM)"
    and 2: "stored (env s) dt (length (heap s TrN ! t)) oN = Inr rowN"
       "stored (env s) dt (length (heap s TrM ! t)) oM = Inr rowM"
    and 3: "heap s' TrN = ((heap s TrN)[t - 1 := vN'])[t := rowN]"
       "heap s' TrM = ((heap s TrM)[t - 1 := vM'])[t := rowM]"
    and 4: "returns s' = returns s @ [(t, [oN, oM])]"
    by (rule step2_ok)
  from 1 3 have "heap s' TrN ! t = rowN" and "heap s' TrM ! t = rowM" by simp_all
  with 2 have "stored (env s) dt (length (heap s TrN ! t)) oN = Inr (heap s' TrN ! t)"
    and "stored (env s) dt (length (heap s TrM ! t)) oM = Inr (heap s' TrM ! t)"
    by simp_all
  with 4 1 show ?thesis by (rule that)
qed

lemma loop2_stored:
  assumes "no_inplace2 g" and "for_loop (step2 g dt) ts s = (Inr (), s')" and "distinct ts"
    and "(t, outs) \<in> set (returns s')"
  shows "(t, outs) \<in> set (returns s) \<or>
         (\<exists>oN oM. outs = [oN, oM] \<and> t \<in> set ts \<and>
                t < length (heap s TrN) \<and> t < length (heap s TrM) \<and>
                stored (env s) dt (length (heap s TrN ! t)) oN = Inr (heap s' TrN ! t) \<and>
                stored (env s) dt (length (heap s TrM ! t)) oM = Inr (heap s' TrM ! t))"
  using assms(2-4)
proof (induction ts arbitrary: s)
  case Nil
  then show ?case by simp
next
  case (Cons u ts)
  from Cons.prems(1) obtain s1 where st: "step2 g dt u s = (Inr (), s1)"
    and rest: "for_loop (step2 g dt) ts s1 = (Inr (), s')"
    by (rule for_loop_Cons_ok)
  from Cons.prems(2) have d: "distinct ts" and u_notin: "u \<notin> set ts" by simp_all
  from st have shN: "map length (heap s1 TrN) = map length (heap s TrN)"
    and shM: "map length (heap s1 TrM) = map length (heap s TrM)" by (rule step2_shape)+
  from st have e: "env s1 = env s" by (rule step2_env)
  from st obtain o1 o2 where r1: "returns s1 = returns s @ [(u, [o1, o2])]"
    and u: "u < length (heap s TrN)" "u < length (heap s TrM)"
    and row: "stored (env s) dt (length (heap s TrN ! u)) o1 = Inr (heap s1 TrN ! u)"
       "stored (env s) dt (length (heap s TrM ! u)) o2 = Inr (heap s1 TrM ! u)"
    by (rule step2_stored)
  from Cons.IH [OF rest d Cons.prems(3)]
  consider (old) "(t, outs) \<in> set (returns s1)"
    | (new) oN oM where "outs = [oN, oM]" "t \<in> set ts"
        "t < length (heap s1 TrN)" "t < length (heap s1 TrM)"
        "stored (env s1) dt (length (heap s1 TrN ! t)) oN = Inr (heap s' TrN ! t)"
        "stored (env s1) dt (length (heap s1 TrM ! t)) oM = Inr (heap s' TrM ! t)"
    by blast
  then show ?case
  proof cases
    case old
    with r1 have "(t, outs) \<in> set (returns s) \<union> {(u, [o1, o2])}" by simp
    then consider "(t, outs) \<in> set (returns s)" | "t = u" "outs = [o1, o2]" by blast
    then show ?thesis
    proof cases
      case 1
      then show ?thesis by simp
    next
      case 2
      from assms(1) rest u_notin have "heap s' TrN ! u = heap s1 TrN ! u"
        and "heap s' TrM ! u = heap s1 TrM ! u"
        by (rule loop2_frame)+
      with row 2 u show ?thesis by simp
    qed
  next
    case new
    from new(3) have tN: "t < length (heap s TrN)" using shape_length [OF shN] by simp
    from new(4) have tM: "t < length (heap s TrM)" using shape_length [OF shM] by simp
    from shN tN have "length (heap s1 TrN ! t) = length (heap s TrN ! t)" by (rule shape_nth)
    moreover from shM tM have "length (heap s1 TrM ! t) = length (heap s TrM ! t)" by (rule shape_nth)
    ultimately show ?thesis using new tN tM e by simp
  qed
qed

lemma step2_typed:
  assumes "step2 g dt t s = (Inr (), s')"
    and "\<forall>i<t. list_all (is_dtype dt) (heap s TrN ! i) \<and> list_all (is_dtype dt) (heap s TrM ! i)"
  shows "\<forall>i<Suc t. list_all (is_dtype dt) (heap s' TrN ! i) \<and>
                    list_all (is_dtype dt) (heap s' TrM ! i)"
proof (intro allI impI)
  fix i assume i: "i < Suc t"
  from assms(1) obtain vN' vM' rowN rowM wsN wsM oN oM where
    1: "t < length (heap s TrN)" "t < length (heap s TrM)"
    and 2: "apply_writes (env s) dt wsN (heap s TrN ! (t - 1)) = Inr vN'"
       "apply_writes (env s) dt wsM (heap s TrM ! (t - 1)) = Inr vM'"
    and 3: "stored (env s) dt (length (heap s TrN ! t)) oN = Inr rowN"
       "stored (env s) dt (length (heap s TrM ! t)) oM = Inr rowM"
    and h: "heap s' TrN = ((heap s TrN)[t - 1 := vN'])[t := rowN]"
       "heap s' TrM = ((heap s TrM)[t - 1 := vM'])[t := rowM]"
    by (rule step2_ok)
  from 3 have row: "list_all (is_dtype dt) rowN" "list_all (is_dtype dt) rowM"
    by (auto intro: stored_typed)
  show "list_all (is_dtype dt) (heap s' TrN ! i) \<and> list_all (is_dtype dt) (heap s' TrM ! i)"
  proof (cases "i = t")
    case True
    with h 1 row show ?thesis by simp
  next
    case False
    with i have lt: "i < t" by simp
    show ?thesis
    proof (cases "i = t - 1")
      case True
      from lt assms(2) True have "list_all (is_dtype dt) (heap s TrN ! (t - 1))"
        and "list_all (is_dtype dt) (heap s TrM ! (t - 1))" by simp_all
      with 2 have "list_all (is_dtype dt) vN'" and "list_all (is_dtype dt) vM'"
        by (auto intro: apply_writes_typed)
      with h 1 lt True show ?thesis by simp
    next
      case False
      with h lt assms(2) show ?thesis by simp
    qed
  qed
qed

lemma loop2_typed:
  assumes "for_loop (step2 g dt) [a..<n] s = (Inr (), s')"
    and "\<forall>i<a. list_all (is_dtype dt) (heap s TrN ! i) \<and> list_all (is_dtype dt) (heap s TrM ! i)"
  shows "\<forall>i<max a n. list_all (is_dtype dt) (heap s' TrN ! i) \<and>
                      list_all (is_dtype dt) (heap s' TrM ! i)"
  using assms
proof (induction "n - a" arbitrary: a s)
  case 0
  then have "[a..<n] = []" and "max a n = a" by simp_all
  with "0.prems" show ?case by simp
next
  case (Suc k)
  then have lt: "a < n" by simp
  then have "[a..<n] = a # [Suc a..<n]" by (simp add: upt_conv_Cons)
  with Suc.prems(1) have "for_loop (step2 g dt) (a # [Suc a..<n]) s = (Inr (), s')" by simp
  then obtain s1 where st: "step2 g dt a s = (Inr (), s1)"
    and rest: "for_loop (step2 g dt) [Suc a..<n] s1 = (Inr (), s')"
    by (rule for_loop_Cons_ok)
  from st Suc.prems(2) have "\<forall>i<Suc a. list_all (is_dtype dt) (heap s1 TrN ! i) \<and>
      list_all (is_dtype dt) (heap s1 TrM ! i)"
    by (rule step2_typed)
  moreover from Suc.hyps(2) have "k = n - Suc a" by simp
  ultimately have "\<forall>i<max (Suc a) n. list_all (is_dtype dt) (heap s' TrN ! i) \<and>
      list_all (is_dtype dt) (heap s' TrM ! i)"
    using rest by (intro Suc.hyps(1)) simp_all
  moreover from lt have "max (Suc a) n = max a n" by simp
  ultimately show ?case by simp
qed

lemma run_sim_2d_eq:
  "run_sim_2d N0 M0 g ngens dtype s =
     (if length N0 \<noteq> length M0 then (Inl AssertionError, s)
      else if ngens < 0 then (Inl ValueError, s)
      else if ngens = 0 then (Inl IndexError, allocated TrN ngens (length N0) s)
      else (case astype_all (env s) (the_dtype dtype) N0 of
              Inl e \<Rightarrow> (Inl e, allocated TrN ngens (length N0) s)
            | Inr rN \<Rightarrow>
               (case astype_all (env s) (the_dtype dtype) M0 of
                  Inl e \<Rightarrow> (Inl e, allocated TrM ngens (length M0)
                                     (started TrN ngens (length N0) rN s))
                | Inr rM \<Rightarrow>
                   (case for_loop (step2 g (the_dtype dtype)) [1..<nat ngens]
                           (started TrM ngens (length M0) rM
                              (started TrN ngens (length N0) rN s)) of
                      (Inl e, s') \<Rightarrow> (Inl e, s')
                    | (Inr _, s') \<Rightarrow> (Inr (heap s' TrN, heap s' TrM), s')))))"
  unfolding run_sim_2d_def init_eq
  by (simp add: andthen_def started_simps split: sum.splits)

lemma run_sim_2d_ok:
  assumes "fst (run_sim_2d N0 M0 g ngens dtype s) = Inr (tN, tM)"
  obtains rN rM where "length N0 = length M0" "0 < ngens"
    "astype_all (env s) (the_dtype dtype) N0 = Inr rN"
    "astype_all (env s) (the_dtype dtype) M0 = Inr rM"
    "for_loop (step2 g (the_dtype dtype)) [1..<nat ngens]
        (started TrM ngens (length M0) rM (started TrN ngens (length N0) rN s))
       = (Inr (), snd (run_sim_2d N0 M0 g ngens dtype s))"
    "tN = heap (snd (run_sim_2d N0 M0 g ngens dtype s)) TrN"
    "tM = heap (snd (run_sim_2d N0 M0 g ngens dtype s)) TrM"
proof -
  from assms have eq: "length N0 = length M0" and pos: "0 < ngens"
    by (auto simp: run_sim_2d_eq split: if_splits)
  with assms obtain rN where rN: "astype_all (env s) (the_dtype dtype) N0 = Inr rN"
    by (cases "astype_all (env s) (the_dtype dtype) N0") (auto simp: run_sim_2d_eq)
  with assms eq pos obtain rM where rM: "astype_all (env s) (the_dtype dtype) M0 = Inr rM"
    by (cases "astype_all (env s) (the_dtype dtype) M0") (auto simp: run_sim_2d_eq)
  let ?s0 = "started TrM ngens (length M0) rM (started TrN ngens (length N0) rN s)"
  obtain r s' where l: "for_loop (step2 g (the_dtype dtype)) [1..<nat ngens] ?s0 = (r, s')"
    by (cases "for_loop (step2 g (the_dtype dtype)) [1..<nat ngens] ?s0")
  have run: "run_sim_2d N0 M0 g ngens dtype s =
      (case r of Inl e \<Rightarrow> (Inl e, s') | Inr _ \<Rightarrow> (Inr (heap s' TrN, heap s' TrM), s'))"
    unfolding run_sim_2d_eq using eq pos rN rM l by (simp split: sum.splits)
  with assms have "r = Inr ()" "s' = snd (run_sim_2d N0 M0 g ngens dtype s)"
    "tN = heap (snd (run_sim_2d N0 M0 g ngens dtype s)) TrN"
    "tM = heap (snd (run_sim_2d N0 M0 g ngens dtype s)) TrM"
    by (cases r; simp)+
  with eq pos rN rM l show ?thesis by (intro that [of rN rM]) simp_all
qed

lemma run_sim_2d_shape:
  assumes "fst (run_sim_2d N0 M0 g ngens dtype s) = Inr (tN, tM)"
  shows "map length tN = replicate (nat ngens) (length N0)"
    and "map length tM = replicate (nat ngens) (length M0)"
    and "0 < ngens" and "length N0 = length M0"
proof -
  from assms obtain rN rM where pos: "0 < ngens" and eq: "length N0 = length M0"
    and rN: "astype_all (env s) (the_dtype dtype) N0 = Inr rN"
    and rM: "astype_all (env s) (the_dtype dtype) M0 = Inr rM"
    and l: "for_loop (step2 g (the_dtype dtype)) [1..<nat ngens]
        (started TrM ngens (length M0) rM (started TrN ngens (length N0) rN s))
       = (Inr (), snd (run_sim_2d N0 M0 g ngens dtype s))"
    and t: "tN = heap (snd (run_sim_2d N0 M0 g ngens dtype s)) TrN"
       "tM = heap (snd (run_sim_2d N0 M0 g ngens dtype s)) TrM"
    by (rule run_sim_2d_ok)
  let ?s0 = "started TrM ngens (length M0) rM (started TrN ngens (length N0) rN s)"
  from rN have lN: "length rN = length N0" by (rule astype_all_length)
  from rM have lM: "length rM = length M0" by (rule astype_all_length)
  have "heap ?s0 TrN = heap (started TrN ngens (length N0) rN s) TrN"
    by (simp add: started_simps)
  with lN have "map length (heap ?s0 TrN) = replicate (nat ngens) (length N0)"
    by (simp add: started_shape)
  with loop2_shape [OF l, of TrN] t show "map length tN = replicate (nat ngens) (length N0)"
    by simp
  from loop2_shape [OF l, of TrM] t lM show "map length tM = replicate (nat ngens) (length M0)"
    by (simp add: started_shape)
  from pos show "0 < ngens" .
  from eq show "length N0 = length M0" .
qed

lemma run_sim_2d_row0:
  assumes "no_inplace2 g" and "fst (run_sim_2d N0 M0 g ngens dtype s) = Inr (tN, tM)"
  shows "astype_all (env s) (the_dtype dtype) N0 = Inr (tN ! 0)"
    and "astype_all (env s) (the_dtype dtype) M0 = Inr (tM ! 0)"
proof -
  from assms(2) obtain rN rM where pos: "0 < ngens"
    and rN: "astype_all (env s) (the_dtype dtype) N0 = Inr rN"
    and rM: "astype_all (env s) (the_dtype dtype) M0 = Inr rM"
    and l: "for_loop (step2 g (the_dtype dtype)) [1..<nat ngens]
        (started TrM ngens (length M0) rM (started TrN ngens (length N0) rN s))
       = (Inr (), snd (run_sim_2d N0 M0 g ngens dtype s))"
    and t: "tN = heap (snd (run_sim_2d N0 M0 g ngens dtype s)) TrN"
       "tM = heap (snd (run_sim_2d N0 M0 g ngens dtype s)) TrM"
    by (rule run_sim_2d_ok)
  let ?s0 = "started TrM ngens (length M0) rM (started TrN ngens (length N0) rN s)"
  have notin: "0 \<notin> set [1..<nat ngens]" by simp
  have fr: "heap (snd (run_sim_2d N0 M0 g ngens dtype s)) tr ! 0 = heap ?s0 tr ! 0" for tr
    using assms(1) l notin by (rule loop2_frame)
  have "heap ?s0 TrN = heap (started TrN ngens (length N0) rN s) TrN"
    by (simp add: started_simps)
  with fr [of TrN] t pos rN show "astype_all (env s) (the_dtype dtype) N0 = Inr (tN ! 0)"
    by (simp add: started_row0)
  from fr [of TrM] t pos rM show "astype_all (env s) (the_dtype dtype) M0 = Inr (tM ! 0)"
    by (simp add: started_row0)
qed

lemma run_sim_2d_trace:
  assumes "fst (run_sim_2d N0 M0 g ngens dtype s) = Inr (tN, tM)"
  shows "trace (snd (run_sim_2d N0 M0 g ngens dtype s)) =
           trace s @ [Alloc TrN, Store TrN 0, Alloc TrM, Store TrM 0] @
           concat (map (\<lambda>t. [Call t, Store TrN t, Store TrM t]) [1..<nat ngens])"
proof -
  from assms obtain rN rM where
    l: "for_loop (step2 g (the_dtype dtype)) [1..<nat ngens]
        (started TrM ngens (length M0) rM (started TrN ngens (length N0) rN s))
       = (Inr (), snd (run_sim_2d N0 M0 g ngens dtype s))"
    by (rule run_sim_2d_ok)
  from loop2_trace [OF l] show ?thesis by (simp add: started_simps)
qed

lemma run_sim_2d_stored:
  assumes "no_inplace2 g" and "fst (run_sim_2d N0 M0 g ngens dtype s) = Inr (tN, tM)"
    and "(t, outs) \<in> set (returns (snd (run_sim_2d N0 M0 g ngens dtype s)))"
  shows "(t, outs) \<in> set (returns s) \<or>
         (\<exists>oN oM. outs = [oN, oM] \<and> 1 \<le> t \<and> t < nat ngens \<and>
                stored (env s) (the_dtype dtype) (length N0) oN = Inr (tN ! t) \<and>
                stored (env s) (the_dtype dtype) (length M0) oM = Inr (tM ! t))"
proof -
  let ?s' = "snd (run_sim_2d N0 M0 g ngens dtype s)"
  from assms(2) obtain rN rM where
    rN: "astype_all (env s) (the_dtype dtype) N0 = Inr rN"
    and rM: "astype_all (env s) (the_dtype dtype) M0 = Inr rM"
    and l: "for_loop (step2 g (the_dtype dtype)) [1..<nat ngens]
        (started TrM ngens (length M0) rM (started TrN ngens (length N0) rN s)) = (Inr (), ?s')"
    and tr: "tN = heap ?s' TrN" "tM = heap ?s' TrM"
    by (rule run_sim_2d_ok)
  let ?s0 = "started TrM ngens (length M0) rM (started TrN ngens (length N0) rN s)"
  from rN have lN: "length rN = length N0" by (rule astype_all_length)
  from rM have lM: "length rM = length M0" by (rule astype_all_length)
  have "heap ?s0 TrN = heap (started TrN ngens (length N0) rN s) TrN"
    by (simp add: started_simps)
  with lN have shN: "map length (heap ?s0 TrN) = replicate (nat ngens) (length N0)"
    by (simp add: started_shape)
  from lM have shM: "map length (heap ?s0 TrM) = replicate (nat ngens) (length M0)"
    by (rule started_shape)
  from loop2_stored [OF assms(1) l _ assms(3)]
  consider "(t, outs) \<in> set (returns ?s0)"
    | oN oM where "outs = [oN, oM]" "t \<in> set [1..<nat ngens]"
        "stored (env ?s0) (the_dtype dtype) (length (heap ?s0 TrN ! t)) oN = Inr (heap ?s' TrN ! t)"
        "stored (env ?s0) (the_dtype dtype) (length (heap ?s0 TrM ! t)) oM = Inr (heap ?s' TrM ! t)"
    by auto
  then show ?thesis
  proof cases
    case 1
    then show ?thesis by (simp add: started_simps)
  next
    case 2
    from 2(2) have t: "1 \<le> t" "t < nat ngens" by simp_all
    from shN t(2) have "length (heap ?s0 TrN ! t) = length N0" by (rule replicate_shape_nth)
    moreover from shM t(2) have "length (heap ?s0 TrM ! t) = length M0" by (rule replicate_shape_nth)
    ultimately show ?thesis using 2 t tr by (simp add: started_simps)
  qed
qed

lemma run_sim_2d_typed:
  assumes "fst (run_sim_2d N0 M0 g ngens dtype s) = Inr (tN, tM)"
  shows "list_all (list_all (is_dtype (the_dtype dtype))) tN"
    and "list_all (list_all (is_dtype (the_dtype dtype))) tM"
proof -
  let ?s' = "snd (run_sim_2d N0 M0 g ngens dtype s)"
  from assms obtain rN rM where pos: "0 < ngens"
    and rN: "astype_all (env s) (the_dtype dtype) N0 = Inr rN"
    and rM: "astype_all (env s) (the_dtype dtype) M0 = Inr rM"
    and l: "for_loop (step2 g (the_dtype dtype)) [1..<nat ngens]
        (started TrM ngens (length M0) rM (started TrN ngens (length N0) rN s)) = (Inr (), ?s')"
    and tr: "tN = heap ?s' TrN" "tM = heap ?s' TrM"
    by (rule run_sim_2d_ok)
  let ?s0 = "started TrM ngens (length M0) rM (started TrN ngens (length N0) rN s)"
  from rN have a: "list_all (is_dtype (the_dtype dtype)) rN" by (rule astype_all_typed)
  from rM have b: "list_all (is_dtype (the_dtype dtype)) rM" by (rule astype_all_typed)
  have "heap ?s0 TrN = heap (started TrN ngens (length N0) rN s) TrN"
    by (simp add: started_simps)
  with a b pos have "\<forall>i<1. list_all (is_dtype (the_dtype dtype)) (heap ?s0 TrN ! i) \<and>
      list_all (is_dtype (the_dtype dtype)) (heap ?s0 TrM ! i)"
    by (simp add: started_row0)
  with l have typed: "\<forall>i<max 1 (nat ngens). list_all (is_dtype (the_dtype dtype)) (heap ?s' TrN ! i) \<and>
      list_all (is_dtype (the_dtype dtype)) (heap ?s' TrM ! i)"
    by (rule loop2_typed)
  from run_sim_2d_shape(1) [OF assms] have "length tN = nat ngens"
    using replicate_shape_nth(2) [of tN "nat ngens" "length N0" 0] pos by simp
  with typed tr show "list_all (list_all (is_dtype (the_dtype dtype))) tN"
    by (simp add: list_all_length)
  from run_sim_2d_shape(2) [OF assms] have "length tM = nat ngens"
    using replicate_shape_nth(2) [of tM "nat ngens" "length M0" 0] pos by simp
  with typed tr show "list_all (list_all (is_dtype (the_dtype dtype))) tM"
    by (simp add: list_all_length)
qed

subsection \<open>Further facts about the drivers\<close>

lemma is_dtype_astype: "is_dtype dt x \<Longrightarrow> astype m dt x = Inr x"
  by (cases dt; cases x) auto

lemma is_dtype_astype_all: "\<forall>x\<in>set v. is_dtype dt x \<Longrightarrow> astype_all m dt v = Inr v"
  by (simp add: astype_all_fixed is_dtype_astype)

lemma astype_trunc: "in_int64 (trunc x) \<Longrightarrow> astype m DInt (FloatV x) = Inr (IntV (trunc x))"
  by simp

lemma trunc_bounds:
  "\<bar>real_of_int (trunc y)\<bar> \<le> \<bar>y\<bar>" "\<bar>y - real_of_int (trunc y)\<bar> < 1"
  by (simp_all add: trunc_def) linarith+

lemma trunc_neq: "y \<notin> \<int> \<Longrightarrow> value_of (IntV (trunc y)) \<noteq> y"
proof
  assume "y \<notin> \<int>" and "value_of (IntV (trunc y)) = y"
  then have "y = real_of_int (trunc y)" by simp
  then have "y \<in> \<int>" by (metis Ints_of_int)
  with \<open>y \<notin> \<int>\<close> show False by simp
qed

lemma stored_nth:
  assumes "stored m dt L v = Inr row" and "j < L"
  shows "astype m dt (bcast L v ! j) = Inr (row ! j)"
proof -
  from assms(1) obtain c where c: "astype_all m dt v = Inr c"
    and l: "length v = L \<or> length v = 1" and row: "row = bcast L c"
    by (auto simp: stored_Inr)
  from c have lc: "length c = length v" by (rule astype_all_length)
  show ?thesis
  proof (cases "length v = L")
    case True
    with c assms(2) have "astype m dt (v ! j) = Inr (c ! j)" by (intro astype_all_nth) simp_all
    with True lc row show ?thesis by (simp add: bcast_def)
  next
    case False
    with l have one: "length v = 1" by simp
    then obtain a where v: "v = [a]" by (cases v) auto
    from lc one obtain c0 where c0: "c = [c0]" by (cases c) auto
    from c v c0 have "astype m dt a = Inr c0" by (auto split: sum.splits)
    with False v c0 row assms(2) lc show ?thesis by (simp add: bcast_def)
  qed
qed

lemma stored_trunc:
  assumes "stored m DInt L v = Inr row" and "j < L" and "bcast L v ! j = FloatV x"
    and "in_int64 (trunc x)"
  shows "row ! j = IntV (trunc x)"
proof -
  from assms(1,2) have "astype m DInt (bcast L v ! j) = Inr (row ! j)" by (rule stored_nth)
  with assms(3,4) show ?thesis by simp
qed

lemma astype_all_trunc:
  assumes "astype_all m DInt v = Inr row" and "j < length v" and "v ! j = FloatV x"
    and "in_int64 (trunc x)"
  shows "row ! j = IntV (trunc x)"
proof -
  from assms(1,2) have "astype m DInt (v ! j) = Inr (row ! j)" by (rule astype_all_nth)
  with assms(3,4) show ?thesis by simp
qed

lemma exact_row:
  assumes "astype_all m dt v = Inr row" and "\<forall>x\<in>set v. exact dt x"
  shows "map value_of row = map value_of v"
  using exact_astype_all [OF assms(2), of m] assms(1) by auto

lemma step_view:
  assumes "step g dt t s = (Inr (), s')" and "1 \<le> t"
  shows "apply_writes (env s) dt (fst (snd (g (world s) (heap s TrN ! (t - 1)))))
           (heap s TrN ! (t - 1)) = Inr (heap s' TrN ! (t - 1))"
proof -
  from assms(1) obtain w' ws out v' row where
    1: "t - 1 < length (heap s TrN)"
    and 2: "g (world s) (heap s TrN ! (t - 1)) = (w', ws, Inr out)"
    and 3: "apply_writes (env s) dt ws (heap s TrN ! (t - 1)) = Inr v'"
    and 4: "heap s' = (heap s)(TrN := ((heap s TrN)[t - 1 := v'])[t := row])"
    by (rule step_ok)
  from assms(2) have ne: "t \<noteq> t - 1" by simp
  from 4 have "heap s' TrN = ((heap s TrN)[t - 1 := v'])[t := row]" by simp
  with 1 ne have "heap s' TrN ! (t - 1) = v'" by simp
  with 2 3 show ?thesis by simp
qed

lemma step2_view:
  assumes "step2 g dt t s = (Inr (), s')" and "1 \<le> t"
  shows "apply_writes (env s) dt
           (fst (fst (snd (g (world s) (heap s TrN ! (t - 1)) (heap s TrM ! (t - 1))))))
           (heap s TrN ! (t - 1)) = Inr (heap s' TrN ! (t - 1))"
    and "apply_writes (env s) dt
           (snd (fst (snd (g (world s) (heap s TrN ! (t - 1)) (heap s TrM ! (t - 1))))))
           (heap s TrM ! (t - 1)) = Inr (heap s' TrM ! (t - 1))"
proof -
  from assms(1) obtain w' wsN wsM oN oM vN' vM' rowN rowM where
    1: "t < length (heap s TrN)" "t < length (heap s TrM)"
    and 2: "g (world s) (heap s TrN ! (t - 1)) (heap s TrM ! (t - 1))
              = (w', (wsN, wsM), Inr (oN, oM))"
    and 3: "apply_writes (env s) dt wsN (heap s TrN ! (t - 1)) = Inr vN'"
       "apply_writes (env s) dt wsM (heap s TrM ! (t - 1)) = Inr vM'"
    and 4: "heap s' TrN = ((heap s TrN)[t - 1 := vN'])[t := rowN]"
       "heap s' TrM = ((heap s TrM)[t - 1 := vM'])[t := rowM]"
    by (rule step2_ok)
  from assms(2) have ne: "t \<noteq> t - 1" by simp
  from 1 4 ne have "heap s' TrN ! (t - 1) = vN'" and "heap s' TrM ! (t - 1) = vM'" by simp_all
  with 2 3 show "apply_writes (env s) dt
           (fst (fst (snd (g (world s) (heap s TrN ! (t - 1)) (heap s TrM ! (t - 1))))))
           (heap s TrN ! (t - 1)) = Inr (heap s' TrN ! (t - 1))"
    and "apply_writes (env s) dt
           (snd (fst (snd (g (world s) (heap s TrN ! (t - 1)) (heap s TrM ! (t - 1))))))
           (heap s TrM ! (t - 1)) = Inr (heap s' TrM ! (t - 1))"
    by simp_all
qed

lemma step_store:
  assumes "step g dt t s = (Inr (), s')"
  shows "\<exists>out. snd (snd (g (world s) (heap s TrN ! (t - 1)))) = Inr out \<and>
               stored (env s) dt (length (heap s TrN ! t)) out = Inr (heap s' TrN ! t)"
proof -
  from assms obtain w' ws out v' row where
    1: "t < length (heap s TrN)"
    and 2: "g (world s) (heap s TrN ! (t - 1)) = (w', ws, Inr out)"
    and 3: "stored (env s) dt (length (heap s TrN ! t)) out = Inr row"
    and 4: "heap s' = (heap s)(TrN := ((heap s TrN)[t - 1 := v'])[t := row])"
    by (rule step_ok)
  from 4 have "heap s' TrN = ((heap s TrN)[t - 1 := v'])[t := row]" by simp
  with 1 have "heap s' TrN ! t = row" by simp
  with 2 3 show ?thesis by simp
qed

lemma step2_store:
  assumes "step2 g dt t s = (Inr (), s')"
  shows "\<exists>oN oM. snd (snd (g (world s) (heap s TrN ! (t - 1)) (heap s TrM ! (t - 1))))
                    = Inr (oN, oM) \<and>
               stored (env s) dt (length (heap s TrN ! t)) oN = Inr (heap s' TrN ! t) \<and>
               stored (env s) dt (length (heap s TrM ! t)) oM = Inr (heap s' TrM ! t)"
proof -
  from assms obtain w' wsN wsM oN oM vN' vM' rowN rowM where
    1: "t < length (heap s TrN)" "t < length (heap s TrM)"
    and 2: "g (world s) (heap s TrN ! (t - 1)) (heap s TrM ! (t - 1))
              = (w', (wsN, wsM), Inr (oN, oM))"
    and 3: "stored (env s) dt (length (heap s TrN ! t)) oN = Inr rowN"
       "stored (env s) dt (length (heap s TrM ! t)) oM = Inr rowM"
    and 4: "heap s' TrN = ((heap s TrN)[t - 1 := vN'])[t := rowN]"
       "heap s' TrM = ((heap s TrM)[t - 1 := vM'])[t := rowM]"
    by (rule step2_ok)
  from 1 4 have "heap s' TrN ! t = rowN" and "heap s' TrM ! t = rowM" by simp_all
  with 2 3 show ?thesis by simp
qed

lemma run_sim_one:
  "run_sim N0 g 1 dtype s =
     (case astype_all (env s) (the_dtype dtype) N0 of
        Inl e \<Rightarrow> (Inl e, allocated TrN 1 (length N0) s)
      | Inr r \<Rightarrow> (Inr [r], started TrN 1 (length N0) r s))"
  by (simp add: run_sim_eq started_def split: sum.splits)

lemma run_sim_2d_one:
  "length N0 = length M0 \<Longrightarrow> run_sim_2d N0 M0 g 1 dtype s =
     (case astype_all (env s) (the_dtype dtype) N0 of
        Inl e \<Rightarrow> (Inl e, allocated TrN 1 (length N0) s)
      | Inr rN \<Rightarrow>
         (case astype_all (env s) (the_dtype dtype) M0 of
            Inl e \<Rightarrow> (Inl e, allocated TrM 1 (length M0) (started TrN 1 (length N0) rN s))
          | Inr rM \<Rightarrow> (Inr ([rN], [rM]),
                         started TrM 1 (length M0) rM (started TrN 1 (length N0) rN s))))"
  by (simp add: run_sim_2d_eq started_def split: sum.splits)

lemma SI_gen_example:
  "SI_gen tape_draws (1 / 2) 4 (1 / 100) (1 / 10) (1 / 5) (1 / 100) (1 / 50)
      [0, 0, 0, 1, 0, 0] [IntV 2] [IntV 1]
     = ([], ([(0, IntV 1)], [(0, IntV 2)]), Inr ([IntV 1], [IntV 2]))"
  by (simp add: si_defs overwrite_def andthen_def trunc_def wrap64_def num_defs)

lemma SI_gen_inplace:
  "\<not> no_inplace2 (SI_gen tape_draws (1 / 2) 4 (1 / 100) (1 / 10) (1 / 5) (1 / 100) (1 / 50))"
proof
  assume "no_inplace2 (SI_gen tape_draws (1 / 2) 4 (1 / 100) (1 / 10) (1 / 5) (1 / 100) (1 / 50))"
  then have "fst (snd (SI_gen tape_draws (1 / 2) 4 (1 / 100) (1 / 10) (1 / 5) (1 / 100) (1 / 50)
      [0, 0, 0, 1, 0, 0] [IntV 2] [IntV 1])) = ([], [])"
    unfolding no_inplace2_def by blast
  then show False by (simp add: SI_gen_example)
qed

lemma Inr_unique: "a = Inr x \<Longrightarrow> a = Inr y \<Longrightarrow> x = y"
  by simp

lemma three_halves_not_int: "(3 / 2 :: real) \<notin> \<int>"
proof -
  have "frac (3 / 2 :: real) \<noteq> 0" by (simp add: frac_def)
  then show ?thesis by (simp add: frac_eq_0_iff)
qed

section \<open>The claims\<close>

text \<open>
  Claim C6. The single-track driver, run with the initial vector \<open>[10]\<close>, the
  transition \<open>f(N) = N + 1\<close>, five generations and the default dtype, returns the
  trajectory whose generations are \<open>[10]\<close>, \<open>[11]\<close>, \<open>[12]\<close>, \<open>[13]\<close>, \<open>[14]\<close>
  (one replicate per generation), whatever the world and the machine are, and whether
  the initial vector holds the integer 10 or the float 10.0.
\<close>

theorem run_sim_scenario:
  "fst (run_sim [IntV 10] (pure_fn incr) 5 None (fresh w u))
     = Inr [[IntV 10], [IntV 11], [IntV 12], [IntV 13], [IntV 14]] \<and>
   fst (run_sim [FloatV 10] (pure_fn incr) 5 None (fresh w u))
     = Inr [[IntV 10], [IntV 11], [IntV 12], [IntV 13], [IntV 14]]"
  by (simp add: run_defs num_defs)

text \<open>
  Claim C7. The dual-track driver, run with the initial vectors \<open>[10]\<close> and \<open>[0]\<close>,
  the transition \<open>f(N, M) = (N - 1, M + 1)\<close>, four generations and the default dtype,
  returns the N-trajectory \<open>[10], [9], [8], [7]\<close> and the M-trajectory
  \<open>[0], [1], [2], [3]\<close>.
\<close>

theorem run_sim_2d_scenario:
  "fst (run_sim_2d [IntV 10] [IntV 0] (pure_fn2 decr_incr) 4 None (fresh w u))
     = Inr ([[IntV 10], [IntV 9], [IntV 8], [IntV 7]], [[IntV 0], [IntV 1], [IntV 2], [IntV 3]])"
  by (simp add: run_defs num_defs)

text \<open>
  Claim C8. Whenever a driver returns, the trajectory has as many generations as were
  requested and every generation has as many elements as the initial condition; when
  the dual-track driver returns, the two initial conditions have equal length, and
  both trajectories have this shape.
\<close>

theorem trajectory_shape:
  "(fst (run_sim N0 g ngens dtype s) = Inr traj \<longrightarrow>
      int (length traj) = ngens \<and> (\<forall>row\<in>set traj. length row = length N0)) \<and>
   (fst (run_sim_2d N0 M0 g2 ngens dtype s2) = Inr (tN, tM) \<longrightarrow>
      length N0 = length M0 \<and> int (length tN) = ngens \<and> int (length tM) = ngens \<and>
      (\<forall>row\<in>set tN \<union> set tM. length row = length N0))"
proof (intro conjI impI)
  assume ok: "fst (run_sim N0 g ngens dtype s) = Inr traj"
  from run_sim_shape [OF ok] have sh: "map length traj = replicate (nat ngens) (length N0)"
    and pos: "0 < ngens" by simp_all
  from sh have "length (map length traj) = length (replicate (nat ngens) (length N0))" by simp
  with pos show "int (length traj) = ngens" by simp
  from sh show "\<forall>row\<in>set traj. length row = length N0"
    by (auto dest: replicate_shape_rows)
next
  assume ok: "fst (run_sim_2d N0 M0 g2 ngens dtype s2) = Inr (tN, tM)"
  from run_sim_2d_shape [OF ok] have shN: "map length tN = replicate (nat ngens) (length N0)"
    and shM: "map length tM = replicate (nat ngens) (length M0)"
    and pos: "0 < ngens" and eq: "length N0 = length M0" by simp_all
  from eq show "length N0 = length M0" .
  from shN have "length (map length tN) = length (replicate (nat ngens) (length N0))" by simp
  with pos show "int (length tN) = ngens" by simp
  from shM have "length (map length tM) = length (replicate (nat ngens) (length M0))" by simp
  with pos show "int (length tM) = ngens" by simp
  from shN shM eq show "\<forall>row\<in>set tN \<union> set tM. length row = length N0"
    by (auto dest: replicate_shape_rows)
qed

theorem trajectory_shape_witness:
  "fst (run_sim [IntV 10] (pure_fn incr) 4 None (fresh () mem0))
     = Inr [[IntV 10], [IntV 11], [IntV 12], [IntV 13]] \<and>
   int (length [[IntV 10], [IntV 11], [IntV 12], [IntV 13]]) = 4 \<and>
   list_all (\<lambda>row. length row = length [IntV 10])
     [[IntV 10], [IntV 11], [IntV 12], [IntV 13]] \<and>
   fst (run_sim_2d [IntV 10] [IntV 0] (pure_fn2 decr_incr) 4 None (fresh () mem0))
     = Inr ([[IntV 10], [IntV 9], [IntV 8], [IntV 7]], [[IntV 0], [IntV 1], [IntV 2], [IntV 3]]) \<and>
   length [IntV 10] = length [IntV 0] \<and>
   int (length [[IntV 10], [IntV 9], [IntV 8], [IntV 7]]) = 4 \<and>
   int (length [[IntV 0], [IntV 1], [IntV 2], [IntV 3]]) = 4 \<and>
   list_all (\<lambda>row. length row = length [IntV 10])
     ([[IntV 10], [IntV 9], [IntV 8], [IntV 7]] @ [[IntV 0], [IntV 1], [IntV 2], [IntV 3]])"
proof -
  have a: "fst (run_sim [IntV 10] (pure_fn incr) 4 None (fresh () mem0))
      = Inr [[IntV 10], [IntV 11], [IntV 12], [IntV 13]]"
    by (simp add: run_defs num_defs)
  have b: "fst (run_sim_2d [IntV 10] [IntV 0] (pure_fn2 decr_incr) 4 None (fresh () mem0))
     = Inr ([[IntV 10], [IntV 9], [IntV 8], [IntV 7]], [[IntV 0], [IntV 1], [IntV 2], [IntV 3]])"
    by (simp add: run_defs num_defs)
  from trajectory_shape [where ?N0.0 = "[IntV 10]" and g = "pure_fn incr" and ngens = 4
      and dtype = None and s = "fresh () mem0"
      and traj = "[[IntV 10], [IntV 11], [IntV 12], [IntV 13]]" and ?M0.0 = "[IntV 0]"
      and ?g2.0 = "pure_fn2 decr_incr" and ?s2.0 = "fresh () mem0"
      and tN = "[[IntV 10], [IntV 9], [IntV 8], [IntV 7]]"
      and tM = "[[IntV 0], [IntV 1], [IntV 2], [IntV 3]]"] a b
  show ?thesis by simp
qed

text \<open>
  Claim C3. When the two initial vectors differ in length, the dual-track driver raises
  AssertionError and leaves the state as it found it: nothing has been allocated or
  stored, and the transition function has not been called. When the driver returns, the
  initial vectors had equal length, the two trajectories have the same number of
  generations, and the run consisted of the two allocations and initial stores followed,
  for each \<open>t\<close> from 1 in increasing order, by one call of the transition function, the
  store of generation \<open>t\<close> of N and the store of generation \<open>t\<close> of M.
\<close>

theorem run_sim_2d_lockstep:
  "(length N0 \<noteq> length M0 \<longrightarrow>
      run_sim_2d N0 M0 g ngens dtype s = (Inl AssertionError, s)) \<and>
   (fst (run_sim_2d N0 M0 g ngens dtype (fresh w u)) = Inr (tN, tM) \<longrightarrow>
      length N0 = length M0 \<and> length tN = length tM \<and>
      trace (snd (run_sim_2d N0 M0 g ngens dtype (fresh w u))) =
        [Alloc TrN, Store TrN 0, Alloc TrM, Store TrM 0] @
        concat (map (\<lambda>t. [Call t, Store TrN t, Store TrM t]) [1..<nat ngens]))"
proof (intro conjI impI)
  assume "length N0 \<noteq> length M0"
  then show "run_sim_2d N0 M0 g ngens dtype s = (Inl AssertionError, s)"
    by (simp add: run_sim_2d_def)
next
  assume ok: "fst (run_sim_2d N0 M0 g ngens dtype (fresh w u)) = Inr (tN, tM)"
  from run_sim_2d_shape [OF ok] have shN: "map length tN = replicate (nat ngens) (length N0)"
    and shM: "map length tM = replicate (nat ngens) (length M0)"
    and eq: "length N0 = length M0" by simp_all
  from eq show "length N0 = length M0" .
  from shN have "length (map length tN) = length (replicate (nat ngens) (length N0))" by simp
  moreover from shM have "length (map length tM) = length (replicate (nat ngens) (length M0))"
    by simp
  ultimately show "length tN = length tM" by simp
  from run_sim_2d_trace [OF ok]
  show "trace (snd (run_sim_2d N0 M0 g ngens dtype (fresh w u))) =
        [Alloc TrN, Store TrN 0, Alloc TrM, Store TrM 0] @
        concat (map (\<lambda>t. [Call t, Store TrN t, Store TrM t]) [1..<nat ngens])"
    by (simp add: fresh_def)
qed

theorem run_sim_2d_lockstep_witness:
  "length [IntV 1, IntV 2] \<noteq> length [IntV 3] \<and>
   run_sim_2d [IntV 1, IntV 2] [IntV 3] (pure_fn2 decr_incr) 3 None (fresh () mem0)
     = (Inl AssertionError, fresh () mem0) \<and>
   fst (run_sim_2d [IntV 10] [IntV 0] (pure_fn2 decr_incr) 3 None (fresh () mem0))
     = Inr ([[IntV 10], [IntV 9], [IntV 8]], [[IntV 0], [IntV 1], [IntV 2]]) \<and>
   length [IntV 10] = length [IntV 0] \<and>
   length [[IntV 10], [IntV 9], [IntV 8]] = length [[IntV 0], [IntV 1], [IntV 2]] \<and>
   trace (snd (run_sim_2d [IntV 10] [IntV 0] (pure_fn2 decr_incr) 3 None (fresh () mem0))) =
     [Alloc TrN, Store TrN 0, Alloc TrM, Store TrM 0,
      Call 1, Store TrN 1, Store TrM 1, Call 2, Store TrN 2, Store TrM 2]"
proof -
  have a: "length [IntV 1, IntV 2] \<noteq> length [IntV 3]" by simp
  have b: "fst (run_sim_2d [IntV 10] [IntV 0] (pure_fn2 decr_incr) 3 None (fresh () mem0))
     = Inr ([[IntV 10], [IntV 9], [IntV 8]], [[IntV 0], [IntV 1], [IntV 2]])"
    by (simp add: run_defs num_defs)
  from run_sim_2d_lockstep [where ?N0.0 = "[IntV 1, IntV 2]" and ?M0.0 = "[IntV 3]"
      and g = "pure_fn2 decr_incr" and ngens = 3 and dtype = None and s = "fresh () mem0"] a
  have c: "run_sim_2d [IntV 1, IntV 2] [IntV 3] (pure_fn2 decr_incr) 3 None (fresh () mem0)
     = (Inl AssertionError, fresh () mem0)"
    by blast
  from run_sim_2d_lockstep [where ?N0.0 = "[IntV 10]" and ?M0.0 = "[IntV 0]"
      and g = "pure_fn2 decr_incr" and ngens = 3 and dtype = None and w = "()" and u = mem0
      and tN = "[[IntV 10], [IntV 9], [IntV 8]]" and tM = "[[IntV 0], [IntV 1], [IntV 2]]"] b
  have d: "trace (snd (run_sim_2d [IntV 10] [IntV 0] (pure_fn2 decr_incr) 3 None (fresh () mem0))) =
        [Alloc TrN, Store TrN 0, Alloc TrM, Store TrM 0] @
        concat (map (\<lambda>t. [Call t, Store TrN t, Store TrM t]) [1..<nat 3])"
    by blast
  have "[1..<nat 3] = [1, 2]" by (simp add: num_defs)
  with a b c d show ?thesis by simp
qed

text \<open>
  Claim C4, amended. The single-track driver raises when fewer than one generation is
  requested (ValueError from the allocation for a negative count, IndexError from the
  store of generation 0 for the count 0); and a run in which some call of the transition
  function returned an array whose length is neither that of the initial vector nor 1
  raises.
\<close>

theorem run_sim_failures:
  "(ngens < 1 \<longrightarrow>
      fst (run_sim N0 g ngens dtype s) = Inl (if ngens < 0 then ValueError else IndexError)) \<and>
   ((t, [out]) \<in> set (returns (snd (run_sim N0 g ngens dtype (fresh w u)))) \<and>
    length out \<noteq> length N0 \<and> length out \<noteq> 1 \<longrightarrow>
      (\<exists>e. fst (run_sim N0 g ngens dtype (fresh w u)) = Inl e))"
proof (intro conjI impI)
  assume "ngens < 1"
  then show "fst (run_sim N0 g ngens dtype s) = Inl (if ngens < 0 then ValueError else IndexError)"
    by (simp add: run_sim_eq)
next
  assume a: "(t, [out]) \<in> set (returns (snd (run_sim N0 g ngens dtype (fresh w u)))) \<and>
    length out \<noteq> length N0 \<and> length out \<noteq> 1"
  show "\<exists>e. fst (run_sim N0 g ngens dtype (fresh w u)) = Inl e"
  proof (cases "fst (run_sim N0 g ngens dtype (fresh w u))")
    case (Inl e)
    then show ?thesis by simp
  next
    case (Inr traj)
    from a have "(t, [out]) \<in> set (returns (snd (run_sim N0 g ngens dtype (fresh w u))))"
      by simp
    with Inr have "(t, [out]) \<in> set (returns (fresh w u)) \<or>
         (\<exists>out'. [out] = [out'] \<and> (length out' = length N0 \<or> length out' = 1))"
      by (rule run_sim_returns)
    with a show ?thesis by (simp add: fresh_def)
  qed
qed

theorem run_sim_failures_witness:
  "(0::int) < 1 \<and>
   fst (run_sim [IntV 1, IntV 2] (pure_fn incr) 0 None (fresh () mem0)) = Inl IndexError \<and>
   (-1::int) < 1 \<and>
   fst (run_sim [IntV 1, IntV 2] (pure_fn incr) (-1) None (fresh () mem0)) = Inl ValueError \<and>
   (1, [[]]) \<in> set (returns (snd (run_sim [IntV 1, IntV 2] (pure_fn drop_all) 3 None
                                      (fresh () mem0)))) \<and>
   length ([]::vec) \<noteq> length [IntV 1, IntV 2] \<and> length ([]::vec) \<noteq> 1 \<and>
   fst (run_sim [IntV 1, IntV 2] (pure_fn drop_all) 3 None (fresh () mem0)) = Inl ValueError"
proof -
  have a: "(1, [[]]) \<in> set (returns (snd (run_sim [IntV 1, IntV 2] (pure_fn drop_all) 3 None
      (fresh () mem0))))"
    by (simp add: run_defs num_defs)
  have b: "fst (run_sim [IntV 1, IntV 2] (pure_fn drop_all) 3 None (fresh () mem0)) = Inl ValueError"
    by (simp add: run_defs num_defs)
  from run_sim_failures [where ngens = 0 and ?N0.0 = "[IntV 1, IntV 2]" and g = "pure_fn incr"
      and dtype = None and s = "fresh () mem0"]
  have c: "fst (run_sim [IntV 1, IntV 2] (pure_fn incr) 0 None (fresh () mem0)) = Inl IndexError"
    by simp
  from run_sim_failures [where ngens = "-1" and ?N0.0 = "[IntV 1, IntV 2]" and g = "pure_fn incr"
      and dtype = None and s = "fresh () mem0"]
  have d: "fst (run_sim [IntV 1, IntV 2] (pure_fn incr) (-1) None (fresh () mem0)) = Inl ValueError"
    by simp
  from run_sim_failures [where ngens = 3 and ?N0.0 = "[IntV 1, IntV 2]" and g = "pure_fn drop_all"
      and dtype = None and w = "()" and u = mem0 and t = 1 and out = "[]"] a
  have "\<exists>e. fst (run_sim [IntV 1, IntV 2] (pure_fn drop_all) 3 None (fresh () mem0)) = Inl e"
    by simp
  with a b c d show ?thesis by simp
qed

text \<open>
  As stated, C4 fails: an output of length 1 differs in length from the initial vector
  \<open>[1, 2]\<close>, and the driver returns, with the output repeated along the row.
\<close>

theorem run_sim_failures_counterexample:
  "fst (run_sim [IntV 1, IntV 2] (pure_fn total) 2 None (fresh () mem0))
     = Inr [[IntV 1, IntV 2], [IntV 3, IntV 3]] \<and>
   total [IntV 1, IntV 2] = [IntV 3] \<and> length [IntV 3] \<noteq> length [IntV 1, IntV 2]"
  by (simp add: run_defs num_defs)

text \<open>
  Claim C2, amended. For a transition function \<open>f\<close> that is a pure function of its
  argument, in a trajectory returned by the single-track driver every generation
  \<open>t \<ge> 1\<close> is \<open>f\<close> of generation \<open>t - 1\<close>, converted to the requested dtype and
  broadcast to the length of the initial vector (the length of \<open>f\<close>'s result is that
  length or 1); it is \<open>f\<close> of generation \<open>t - 1\<close> itself when the result has that length
  and the conversion leaves its values unchanged. The generations are computed in
  increasing order: the run consists of the allocation, the store of generation 0 and
  then, for \<open>t = 1, 2, \<dots>\<close>, the call for generation \<open>t\<close> followed by its store.
\<close>

theorem recurrence:
  "fst (run_sim N0 (pure_fn f) ngens dtype (fresh w u)) = Inr traj \<longrightarrow>
     (\<forall>t. 1 \<le> t \<and> t < nat ngens \<longrightarrow>
        (length (f (traj ! (t - 1))) = length N0 \<or> length (f (traj ! (t - 1))) = 1) \<and>
        (\<exists>c. astype_all u (the_dtype dtype) (f (traj ! (t - 1))) = Inr c \<and>
             traj ! t = bcast (length N0) c) \<and>
        (length (f (traj ! (t - 1))) = length N0 \<and>
         (\<forall>x\<in>set (f (traj ! (t - 1))). astype u (the_dtype dtype) x = Inr x)
           \<longrightarrow> traj ! t = f (traj ! (t - 1)))) \<and>
     trace (snd (run_sim N0 (pure_fn f) ngens dtype (fresh w u))) =
       [Alloc TrN, Store TrN 0] @ concat (map (\<lambda>t. [Call t, Store TrN t]) [1..<nat ngens])"
proof (intro impI conjI allI)
  assume ok: "fst (run_sim N0 (pure_fn f) ngens dtype (fresh w u)) = Inr traj"
  from run_sim_trace [OF ok]
  show "trace (snd (run_sim N0 (pure_fn f) ngens dtype (fresh w u))) =
       [Alloc TrN, Store TrN 0] @ concat (map (\<lambda>t. [Call t, Store TrN t]) [1..<nat ngens])"
    by (simp add: fresh_def)
  fix t
  assume t: "1 \<le> t \<and> t < nat ngens"
  then have t1: "1 \<le> t" and t2: "t < nat ngens" by simp_all
  from run_sim_pure(1) [OF ok t1 t2]
  show len: "length (f (traj ! (t - 1))) = length N0 \<or> length (f (traj ! (t - 1))) = 1" .
  from run_sim_pure(2) [OF ok t1 t2]
  have st: "stored u (the_dtype dtype) (length N0) (f (traj ! (t - 1))) = Inr (traj ! t)"
    by (simp add: fresh_def)
  then show "\<exists>c. astype_all u (the_dtype dtype) (f (traj ! (t - 1))) = Inr c \<and>
             traj ! t = bcast (length N0) c"
    by (auto simp: stored_Inr)
  assume ex: "length (f (traj ! (t - 1))) = length N0 \<and>
         (\<forall>x\<in>set (f (traj ! (t - 1))). astype u (the_dtype dtype) x = Inr x)"
  then have "astype_all u (the_dtype dtype) (f (traj ! (t - 1))) = Inr (f (traj ! (t - 1)))"
    by (simp add: astype_all_fixed)
  with st ex show "traj ! t = f (traj ! (t - 1))"
    by (simp add: stored_same_length)
qed

theorem recurrence_witness:
  "fst (run_sim [IntV 10] (pure_fn incr) 3 None (fresh () mem0))
     = Inr [[IntV 10], [IntV 11], [IntV 12]] \<and>
   (1::nat) \<le> 2 \<and> (2::nat) < nat 3 \<and>
   length (incr ([[IntV 10], [IntV 11], [IntV 12]] ! (2 - 1))) = length [IntV 10] \<and>
   list_all (\<lambda>x. astype mem0 (the_dtype None) x = Inr x)
     (incr ([[IntV 10], [IntV 11], [IntV 12]] ! (2 - 1))) \<and>
   [[IntV 10], [IntV 11], [IntV 12]] ! 2 = incr ([[IntV 10], [IntV 11], [IntV 12]] ! (2 - 1)) \<and>
   trace (snd (run_sim [IntV 10] (pure_fn incr) 3 None (fresh () mem0))) =
     [Alloc TrN, Store TrN 0, Call 1, Store TrN 1, Call 2, Store TrN 2]"
proof -
  have a: "fst (run_sim [IntV 10] (pure_fn incr) 3 None (fresh () mem0))
      = Inr [[IntV 10], [IntV 11], [IntV 12]]"
    by (simp add: run_defs num_defs)
  have b: "[1..<nat 3] = [1, 2]" by (simp add: num_defs)
  have c: "\<forall>x\<in>set (incr ([[IntV 10], [IntV 11], [IntV 12]] ! (2 - 1))).
      astype mem0 (the_dtype None) x = Inr x"
    by (simp add: incr_def the_dtype_def in_int64_def wrap64_def)
  from recurrence [where ?N0.0 = "[IntV 10]" and f = incr and ngens = 3 and dtype = None
      and w = "()" and u = mem0 and traj = "[[IntV 10], [IntV 11], [IntV 12]]"] a
  have d: "(\<forall>t. 1 \<le> t \<and> t < nat 3 \<longrightarrow>
        (length (incr ([[IntV 10], [IntV 11], [IntV 12]] ! (t - 1))) = length [IntV 10] \<and>
         (\<forall>x\<in>set (incr ([[IntV 10], [IntV 11], [IntV 12]] ! (t - 1))).
            astype mem0 (the_dtype None) x = Inr x)
           \<longrightarrow> [[IntV 10], [IntV 11], [IntV 12]] ! t
               = incr ([[IntV 10], [IntV 11], [IntV 12]] ! (t - 1))))"
    and e: "trace (snd (run_sim [IntV 10] (pure_fn incr) 3 None (fresh () mem0))) =
       [Alloc TrN, Store TrN 0] @ concat (map (\<lambda>t. [Call t, Store TrN t]) [1..<nat 3])"
    by blast+
  from d [rule_format, of 2] c
  have "[[IntV 10], [IntV 11], [IntV 12]] ! 2 = incr ([[IntV 10], [IntV 11], [IntV 12]] ! (2 - 1))"
    by (simp add: incr_def)
  with a b c e show ?thesis by (simp add: list_all_iff incr_def)
qed

text \<open>
  As stated, C2 fails: under the default dtype \<open>f(N) = N + 0.5\<close> is stored truncated; a
  result of length 1 is repeated along the row; and a deterministic function that updates
  its argument in place changes the generation it was computed from.
\<close>

theorem recurrence_counterexample:
  "fst (run_sim [IntV 1] (pure_fn add_half) 2 None (fresh () mem0)) = Inr [[IntV 1], [IntV 1]] \<and>
   map value_of ([[IntV 1], [IntV 1]] ! 1) \<noteq> map value_of (add_half ([[IntV 1], [IntV 1]] ! 0)) \<and>
   fst (run_sim [IntV 1, IntV 2] (pure_fn total) 2 None (fresh () mem0))
     = Inr [[IntV 1, IntV 2], [IntV 3, IntV 3]] \<and>
   [[IntV 1, IntV 2], [IntV 3, IntV 3]] ! 1 \<noteq> total ([[IntV 1, IntV 2], [IntV 3, IntV 3]] ! 0) \<and>
   fst (run_sim [IntV 10] incr_inplace 3 None (fresh () mem0))
     = Inr [[IntV 11], [IntV 12], [IntV 12]] \<and>
   [[IntV 11], [IntV 12], [IntV 12]] ! 2 \<noteq> incr ([[IntV 11], [IntV 12], [IntV 12]] ! 1)"
  by (simp add: run_defs num_defs)

text \<open>
  Claim C5, amended. With one generation requested, the transition function is never
  invoked: the log of calls is empty and the world is unchanged, whether the driver
  returns or raises. When the initial vector converts to the requested dtype, the
  single-track driver returns the trajectory whose only generation is the converted
  vector, and the run consists of the allocation and the store of generation 0; when
  the conversion raises, the driver raises the same exception after the allocation. In
  particular the driver returns, with a generation numerically equal to the initial
  vector, when the dtype holds every value of the vector as it is. The same holds for
  the dual-track driver on initial vectors of equal length.
\<close>

theorem single_generation:
  "(astype_all u (the_dtype dtype) N0 = Inr r \<longrightarrow>
      fst (run_sim N0 g 1 dtype (fresh w u)) = Inr [r] \<and>
      trace (snd (run_sim N0 g 1 dtype (fresh w u))) = [Alloc TrN, Store TrN 0]) \<and>
   (astype_all u (the_dtype dtype) N0 = Inl e \<longrightarrow>
      fst (run_sim N0 g 1 dtype (fresh w u)) = Inl e \<and>
      trace (snd (run_sim N0 g 1 dtype (fresh w u))) = [Alloc TrN]) \<and>
   returns (snd (run_sim N0 g 1 dtype (fresh w u))) = [] \<and>
   world (snd (run_sim N0 g 1 dtype (fresh w u))) = w \<and>
   ((\<forall>x\<in>set N0. exact (the_dtype dtype) x) \<longrightarrow>
      (\<exists>r0. fst (run_sim N0 g 1 dtype (fresh w u)) = Inr [r0] \<and>
            map value_of r0 = map value_of N0)) \<and>
   (length N0 = length M0 \<and> astype_all u (the_dtype dtype) N0 = Inr rN \<and>
    astype_all u (the_dtype dtype) M0 = Inr rM \<longrightarrow>
      fst (run_sim_2d N0 M0 g2 1 dtype (fresh w u)) = Inr ([rN], [rM]) \<and>
      trace (snd (run_sim_2d N0 M0 g2 1 dtype (fresh w u)))
        = [Alloc TrN, Store TrN 0, Alloc TrM, Store TrM 0]) \<and>
   (length N0 = length M0 \<and> astype_all u (the_dtype dtype) N0 = Inl e \<longrightarrow>
      fst (run_sim_2d N0 M0 g2 1 dtype (fresh w u)) = Inl e) \<and>
   (length N0 = length M0 \<and> astype_all u (the_dtype dtype) N0 = Inr rN \<and>
    astype_all u (the_dtype dtype) M0 = Inl e \<longrightarrow>
      fst (run_sim_2d N0 M0 g2 1 dtype (fresh w u)) = Inl e) \<and>
   returns (snd (run_sim_2d N0 M0 g2 1 dtype (fresh w u))) = [] \<and>
   world (snd (run_sim_2d N0 M0 g2 1 dtype (fresh w u))) = w \<and>
   (length N0 = length M0 \<and> (\<forall>x\<in>set N0 \<union> set M0. exact (the_dtype dtype) x) \<longrightarrow>
      (\<exists>r1 r2. fst (run_sim_2d N0 M0 g2 1 dtype (fresh w u)) = Inr ([r1], [r2]) \<and>
            map value_of r1 = map value_of N0 \<and> map value_of r2 = map value_of M0))"
proof -
  have e: "env (fresh w u) = u" by (simp add: fresh_def)
  have one: "run_sim N0 g 1 dtype (fresh w u) =
     (case astype_all u (the_dtype dtype) N0 of
        Inl e \<Rightarrow> (Inl e, allocated TrN 1 (length N0) (fresh w u))
      | Inr r \<Rightarrow> (Inr [r], started TrN 1 (length N0) r (fresh w u)))"
    by (simp add: run_sim_one e)
  have two: "length N0 = length M0 \<Longrightarrow> run_sim_2d N0 M0 g2 1 dtype (fresh w u) =
     (case astype_all u (the_dtype dtype) N0 of
        Inl e \<Rightarrow> (Inl e, allocated TrN 1 (length N0) (fresh w u))
      | Inr rN \<Rightarrow>
         (case astype_all u (the_dtype dtype) M0 of
            Inl e \<Rightarrow> (Inl e, allocated TrM 1 (length M0)
                               (started TrN 1 (length N0) rN (fresh w u)))
          | Inr rM \<Rightarrow> (Inr ([rN], [rM]),
                         started TrM 1 (length M0) rM
                           (started TrN 1 (length N0) rN (fresh w u)))))"
    using run_sim_2d_one [of N0 M0 g2 dtype "fresh w u"] by (simp only: e)
  have f: "returns (fresh w u) = []" "world (fresh w u) = w" "trace (fresh w u) = []"
    by (simp_all add: fresh_def)
  have c1: "astype_all u (the_dtype dtype) N0 = Inr r \<longrightarrow>
      fst (run_sim N0 g 1 dtype (fresh w u)) = Inr [r] \<and>
      trace (snd (run_sim N0 g 1 dtype (fresh w u))) = [Alloc TrN, Store TrN 0]"
    by (simp add: one started_simps f)
  have c2: "astype_all u (the_dtype dtype) N0 = Inl e \<longrightarrow>
      fst (run_sim N0 g 1 dtype (fresh w u)) = Inl e \<and>
      trace (snd (run_sim N0 g 1 dtype (fresh w u))) = [Alloc TrN]"
    by (simp add: one allocated_simps f)
  have c3: "returns (snd (run_sim N0 g 1 dtype (fresh w u))) = []"
    by (simp add: one started_simps allocated_simps f split: sum.splits)
  have c4: "world (snd (run_sim N0 g 1 dtype (fresh w u))) = w"
    by (simp add: one started_simps allocated_simps f split: sum.splits)
  have c5: "(\<forall>x\<in>set N0. exact (the_dtype dtype) x) \<longrightarrow>
      (\<exists>r0. fst (run_sim N0 g 1 dtype (fresh w u)) = Inr [r0] \<and>
            map value_of r0 = map value_of N0)"
  proof
    assume "\<forall>x\<in>set N0. exact (the_dtype dtype) x"
    then obtain c where "astype_all u (the_dtype dtype) N0 = Inr c"
      and "map value_of c = map value_of N0"
      using exact_astype_all [of N0 "the_dtype dtype" u] by blast
    then show "\<exists>r0. fst (run_sim N0 g 1 dtype (fresh w u)) = Inr [r0] \<and>
            map value_of r0 = map value_of N0"
      by (simp add: one)
  qed
  have c6: "length N0 = length M0 \<and> astype_all u (the_dtype dtype) N0 = Inr rN \<and>
    astype_all u (the_dtype dtype) M0 = Inr rM \<longrightarrow>
      fst (run_sim_2d N0 M0 g2 1 dtype (fresh w u)) = Inr ([rN], [rM]) \<and>
      trace (snd (run_sim_2d N0 M0 g2 1 dtype (fresh w u)))
        = [Alloc TrN, Store TrN 0, Alloc TrM, Store TrM 0]"
    by (simp add: two started_simps f)
  have c7: "length N0 = length M0 \<and> astype_all u (the_dtype dtype) N0 = Inl e \<longrightarrow>
      fst (run_sim_2d N0 M0 g2 1 dtype (fresh w u)) = Inl e"
    by (simp add: two)
  have c8: "length N0 = length M0 \<and> astype_all u (the_dtype dtype) N0 = Inr rN \<and>
    astype_all u (the_dtype dtype) M0 = Inl e \<longrightarrow>
      fst (run_sim_2d N0 M0 g2 1 dtype (fresh w u)) = Inl e"
    by (simp add: two)
  have c9: "returns (snd (run_sim_2d N0 M0 g2 1 dtype (fresh w u))) = []"
  proof (cases "length N0 = length M0")
    case True
    then show ?thesis by (simp add: two started_simps allocated_simps f split: sum.splits)
  next
    case False
    then show ?thesis by (simp add: run_sim_2d_def f)
  qed
  have c10: "world (snd (run_sim_2d N0 M0 g2 1 dtype (fresh w u))) = w"
  proof (cases "length N0 = length M0")
    case True
    then show ?thesis by (simp add: two started_simps allocated_simps f split: sum.splits)
  next
    case False
    then show ?thesis by (simp add: run_sim_2d_def f)
  qed
  have c11: "length N0 = length M0 \<and> (\<forall>x\<in>set N0 \<union> set M0. exact (the_dtype dtype) x) \<longrightarrow>
      (\<exists>r1 r2. fst (run_sim_2d N0 M0 g2 1 dtype (fresh w u)) = Inr ([r1], [r2]) \<and>
            map value_of r1 = map value_of N0 \<and> map value_of r2 = map value_of M0)"
  proof
    assume a: "length N0 = length M0 \<and> (\<forall>x\<in>set N0 \<union> set M0. exact (the_dtype dtype) x)"
    then have eq: "length N0 = length M0" and "\<forall>x\<in>set N0. exact (the_dtype dtype) x"
      and "\<forall>x\<in>set M0. exact (the_dtype dtype) x" by auto
    then obtain cN cM where "astype_all u (the_dtype dtype) N0 = Inr cN"
      and "map value_of cN = map value_of N0"
      and "astype_all u (the_dtype dtype) M0 = Inr cM"
      and "map value_of cM = map value_of M0"
      using exact_astype_all [of N0 "the_dtype dtype" u]
        exact_astype_all [of M0 "the_dtype dtype" u] by blast
    with eq show "\<exists>r1 r2. fst (run_sim_2d N0 M0 g2 1 dtype (fresh w u)) = Inr ([r1], [r2]) \<and>
            map value_of r1 = map value_of N0 \<and> map value_of r2 = map value_of M0"
      by (simp add: two)
  qed
  from c1 c2 c3 c4 c5 c6 c7 c8 c9 c10 c11 show ?thesis by blast
qed

theorem single_generation_witness:
  "astype_all mem0 (the_dtype None) [IntV 10] = Inr [IntV 10] \<and>
   fst (run_sim [IntV 10] (pure_fn incr) 1 None (fresh () mem0)) = Inr [[IntV 10]] \<and>
   trace (snd (run_sim [IntV 10] (pure_fn incr) 1 None (fresh () mem0)))
     = [Alloc TrN, Store TrN 0] \<and>
   returns (snd (run_sim [IntV 10] (pure_fn incr) 1 None (fresh () mem0))) = [] \<and>
   astype_all mem0 (the_dtype None) [IntV (2 ^ 63)] = Inl OverflowError \<and>
   fst (run_sim [IntV (2 ^ 63)] (pure_fn incr) 1 None (fresh () mem0)) = Inl OverflowError \<and>
   trace (snd (run_sim [IntV (2 ^ 63)] (pure_fn incr) 1 None (fresh () mem0))) = [Alloc TrN] \<and>
   astype_all mem0 (the_dtype (Some DFloat)) [FloatV (3 / 2)] = Inr [FloatV (3 / 2)] \<and>
   fst (run_sim [FloatV (3 / 2)] (pure_fn incr) 1 (Some DFloat) (fresh () mem0))
     = Inr [[FloatV (3 / 2)]] \<and>
   astype_all mem0 (the_dtype None) [FloatV (- 3 / 2)] = Inr [IntV (- 1)] \<and>
   fst (run_sim [FloatV (- 3 / 2)] (pure_fn incr) 1 None (fresh () mem0)) = Inr [[IntV (- 1)]] \<and>
   list_all (exact (the_dtype None)) ([IntV 10] @ [IntV 0]) \<and>
   length [IntV 10] = length [IntV 0] \<and>
   astype_all mem0 (the_dtype None) [IntV 0] = Inr [IntV 0] \<and>
   fst (run_sim_2d [IntV 10] [IntV 0] (pure_fn2 decr_incr) 1 None (fresh () mem0))
     = Inr ([[IntV 10]], [[IntV 0]]) \<and>
   trace (snd (run_sim_2d [IntV 10] [IntV 0] (pure_fn2 decr_incr) 1 None (fresh () mem0)))
     = [Alloc TrN, Store TrN 0, Alloc TrM, Store TrM 0] \<and>
   returns (snd (run_sim_2d [IntV 10] [IntV 0] (pure_fn2 decr_incr) 1 None (fresh () mem0))) = [] \<and>
   length [IntV 10] = length [IntV (2 ^ 63)] \<and>
   fst (run_sim_2d [IntV 10] [IntV (2 ^ 63)] (pure_fn2 decr_incr) 1 None (fresh () mem0))
     = Inl OverflowError"
proof -
  have a1: "astype_all mem0 (the_dtype None) [IntV 10] = Inr [IntV 10]"
    and a2: "astype_all mem0 (the_dtype None) [IntV (2 ^ 63)] = Inl OverflowError"
    and a3: "astype_all mem0 (the_dtype (Some DFloat)) [FloatV (3 / 2)] = Inr [FloatV (3 / 2)]"
    and a4: "astype_all mem0 (the_dtype None) [FloatV (- 3 / 2)] = Inr [IntV (- 1)]"
    and a5: "astype_all mem0 (the_dtype None) [IntV 0] = Inr [IntV 0]"
    by (simp_all add: the_dtype_def in_int64_def trunc_def ceiling_def)
  have a6: "\<forall>x\<in>set [IntV 10] \<union> set [IntV 0]. exact (the_dtype None) x"
    by (simp add: the_dtype_def in_int64_def)
  have l1: "length [IntV 10] = length [IntV 0]" and l2: "length [IntV 10] = length [IntV (2 ^ 63)]"
    by simp_all
  note i1 = single_generation [where u = mem0 and dtype = None and ?N0.0 = "[IntV 10]"
      and r = "[IntV 10]" and g = "pure_fn incr" and w = "()" and ?M0.0 = "[IntV 0]"
      and rN = "[IntV 10]" and rM = "[IntV 0]" and ?g2.0 = "pure_fn2 decr_incr"]
  from i1 a1 have b1: "fst (run_sim [IntV 10] (pure_fn incr) 1 None (fresh () mem0)) = Inr [[IntV 10]]"
    and b2: "trace (snd (run_sim [IntV 10] (pure_fn incr) 1 None (fresh () mem0)))
       = [Alloc TrN, Store TrN 0]"
    by blast+
  from i1 have b3: "returns (snd (run_sim [IntV 10] (pure_fn incr) 1 None (fresh () mem0))) = []"
    and b4: "returns (snd (run_sim_2d [IntV 10] [IntV 0] (pure_fn2 decr_incr) 1 None
                            (fresh () mem0))) = []"
    by blast+
  from i1 a1 a5 l1
  have b5: "fst (run_sim_2d [IntV 10] [IntV 0] (pure_fn2 decr_incr) 1 None (fresh () mem0))
     = Inr ([[IntV 10]], [[IntV 0]])"
    and b6: "trace (snd (run_sim_2d [IntV 10] [IntV 0] (pure_fn2 decr_incr) 1 None (fresh () mem0)))
     = [Alloc TrN, Store TrN 0, Alloc TrM, Store TrM 0]"
    by blast+
  note i2 = single_generation [where u = mem0 and dtype = None and ?N0.0 = "[IntV (2 ^ 63)]"
      and e = OverflowError and g = "pure_fn incr" and w = "()"]
  from i2 a2
  have c1: "fst (run_sim [IntV (2 ^ 63)] (pure_fn incr) 1 None (fresh () mem0)) = Inl OverflowError"
    and c2: "trace (snd (run_sim [IntV (2 ^ 63)] (pure_fn incr) 1 None (fresh () mem0)))
       = [Alloc TrN]"
    by blast+
  note i3 = single_generation [where u = mem0 and dtype = "Some DFloat"
      and ?N0.0 = "[FloatV (3 / 2)]" and r = "[FloatV (3 / 2)]" and g = "pure_fn incr" and w = "()"]
  from i3 a3
  have d1: "fst (run_sim [FloatV (3 / 2)] (pure_fn incr) 1 (Some DFloat) (fresh () mem0))
     = Inr [[FloatV (3 / 2)]]"
    by blast
  note i4 = single_generation [where u = mem0 and dtype = None
      and ?N0.0 = "[FloatV (- 3 / 2)]" and r = "[IntV (- 1)]" and g = "pure_fn incr" and w = "()"]
  from i4 a4
  have d2: "fst (run_sim [FloatV (- 3 / 2)] (pure_fn incr) 1 None (fresh () mem0))
     = Inr [[IntV (- 1)]]"
    by blast
  note i5 = single_generation [where u = mem0 and dtype = None and ?N0.0 = "[IntV 10]"
      and ?M0.0 = "[IntV (2 ^ 63)]" and rN = "[IntV 10]" and e = OverflowError
      and ?g2.0 = "pure_fn2 decr_incr" and w = "()"]
  from i5 a1 a2 l2
  have d3: "fst (run_sim_2d [IntV 10] [IntV (2 ^ 63)] (pure_fn2 decr_incr) 1 None (fresh () mem0))
     = Inl OverflowError"
    by blast
  from a6 have a7: "list_all (exact (the_dtype None)) ([IntV 10] @ [IntV 0])"
    by (simp add: list_all_iff)
  from a1 a2 a3 a4 a5 a7 l1 l2 b1 b2 b3 b4 b5 b6 c1 c2 d1 d2 d3 show ?thesis by blast
qed

text \<open>
  As stated, C5 fails: under the default dtype the initial vector \<open>[1.5]\<close> is stored as
  \<open>[1]\<close>, so the trajectory does not contain the initial vector; and for the initial
  vector \<open>[2\<^sup>6\<^sup>3]\<close> the driver raises OverflowError and returns no trajectory.
\<close>

theorem single_generation_counterexample:
  "fst (run_sim [FloatV (3 / 2)] (pure_fn incr) 1 None (fresh () mem0)) = Inr [[IntV 1]] \<and>
   map value_of [IntV 1] \<noteq> map value_of [FloatV (3 / 2)] \<and>
   fst (run_sim [IntV (2 ^ 63)] (pure_fn incr) 1 None (fresh () mem0)) = Inl OverflowError"
  by (simp add: run_defs num_defs)

text \<open>
  Claim C1, amended. A driver returns a trajectory only when at least one generation is
  requested, and the trajectory has as many generations as were requested. When the
  transition function does not write to its arguments, generation 0 is the initial
  vector converted to the requested dtype; it is numerically equal to the initial vector
  when the dtype holds every value of the vector as it is (under \<^verbatim>\<open>int\<close> the integral
  values of the 64-bit range, under \<^verbatim>\<open>float\<close> the floats and the integers of magnitude
  at most \<open>2\<^sup>5\<^sup>3\<close>), and it is the initial vector itself when the values are
  already of the dtype.
\<close>

theorem trajectory_length_and_start:
  "(fst (run_sim N0 g ngens dtype s) = Inr traj \<longrightarrow>
      0 < ngens \<and> int (length traj) = ngens \<and>
      (no_inplace g \<longrightarrow>
         astype_all (env s) (the_dtype dtype) N0 = Inr (traj ! 0) \<and>
         ((\<forall>x\<in>set N0. exact (the_dtype dtype) x) \<longrightarrow>
            map value_of (traj ! 0) = map value_of N0) \<and>
         ((\<forall>x\<in>set N0. is_dtype (the_dtype dtype) x) \<longrightarrow> traj ! 0 = N0))) \<and>
   (fst (run_sim_2d N0 M0 g2 ngens dtype s2) = Inr (tN, tM) \<longrightarrow>
      0 < ngens \<and> int (length tN) = ngens \<and> int (length tM) = ngens \<and>
      (no_inplace2 g2 \<longrightarrow>
         astype_all (env s2) (the_dtype dtype) N0 = Inr (tN ! 0) \<and>
         astype_all (env s2) (the_dtype dtype) M0 = Inr (tM ! 0) \<and>
         ((\<forall>x\<in>set N0 \<union> set M0. exact (the_dtype dtype) x) \<longrightarrow>
            map value_of (tN ! 0) = map value_of N0 \<and>
            map value_of (tM ! 0) = map value_of M0) \<and>
         ((\<forall>x\<in>set N0 \<union> set M0. is_dtype (the_dtype dtype) x) \<longrightarrow>
            tN ! 0 = N0 \<and> tM ! 0 = M0)))"
proof (intro conjI impI)
  assume ok: "fst (run_sim N0 g ngens dtype s) = Inr traj"
  from run_sim_shape [OF ok] have sh: "map length traj = replicate (nat ngens) (length N0)"
    and pos: "0 < ngens" by simp_all
  from pos show "0 < ngens" .
  from sh have "length (map length traj) = length (replicate (nat ngens) (length N0))" by simp
  with pos show "int (length traj) = ngens" by simp
  assume ni: "no_inplace g"
  from ni ok show r0: "astype_all (env s) (the_dtype dtype) N0 = Inr (traj ! 0)"
    by (rule run_sim_row0)
  { assume "\<forall>x\<in>set N0. exact (the_dtype dtype) x"
    with r0 show "map value_of (traj ! 0) = map value_of N0" by (rule exact_row) }
  assume "\<forall>x\<in>set N0. is_dtype (the_dtype dtype) x"
  then have "astype_all (env s) (the_dtype dtype) N0 = Inr N0" by (rule is_dtype_astype_all)
  with r0 show "traj ! 0 = N0" by simp
next
  assume ok: "fst (run_sim_2d N0 M0 g2 ngens dtype s2) = Inr (tN, tM)"
  from run_sim_2d_shape [OF ok] have shN: "map length tN = replicate (nat ngens) (length N0)"
    and shM: "map length tM = replicate (nat ngens) (length M0)"
    and pos: "0 < ngens" by simp_all
  from pos show "0 < ngens" .
  from shN have "length (map length tN) = length (replicate (nat ngens) (length N0))" by simp
  with pos show "int (length tN) = ngens" by simp
  from shM have "length (map length tM) = length (replicate (nat ngens) (length M0))" by simp
  with pos show "int (length tM) = ngens" by simp
  assume ni: "no_inplace2 g2"
  from ni ok show rN: "astype_all (env s2) (the_dtype dtype) N0 = Inr (tN ! 0)"
    and rM: "astype_all (env s2) (the_dtype dtype) M0 = Inr (tM ! 0)"
    by (rule run_sim_2d_row0)+
  { assume ex: "\<forall>x\<in>set N0 \<union> set M0. exact (the_dtype dtype) x"
    then have "\<forall>x\<in>set N0. exact (the_dtype dtype) x" by simp
    with rN show "map value_of (tN ! 0) = map value_of N0" by (rule exact_row)
    from ex have "\<forall>x\<in>set M0. exact (the_dtype dtype) x" by simp
    with rM show "map value_of (tM ! 0) = map value_of M0" by (rule exact_row) }
  assume fixed: "\<forall>x\<in>set N0 \<union> set M0. is_dtype (the_dtype dtype) x"
  then have "\<forall>x\<in>set N0. is_dtype (the_dtype dtype) x" by simp
  then have "astype_all (env s2) (the_dtype dtype) N0 = Inr N0" by (rule is_dtype_astype_all)
  with rN show "tN ! 0 = N0" by simp
  from fixed have "\<forall>x\<in>set M0. is_dtype (the_dtype dtype) x" by simp
  then have "astype_all (env s2) (the_dtype dtype) M0 = Inr M0" by (rule is_dtype_astype_all)
  with rM show "tM ! 0 = M0" by simp
qed

theorem trajectory_length_and_start_witness:
  "fst (run_sim [IntV 10] (pure_fn incr) 3 None (fresh () mem0))
     = Inr [[IntV 10], [IntV 11], [IntV 12]] \<and>
   (0::int) < 3 \<and> int (length [[IntV 10], [IntV 11], [IntV 12]]) = 3 \<and>
   no_inplace (pure_fn incr :: unit gen_fn) \<and>
   list_all (is_dtype (the_dtype None)) ([IntV 10] @ [IntV 0]) \<and>
   [[IntV 10], [IntV 11], [IntV 12]] ! 0 = [IntV 10] \<and>
   fst (run_sim [IntV 10] (pure_fn incr) 2 (Some DFloat) (fresh () mem0))
     = Inr [[FloatV 10], [FloatV 11]] \<and>
   list_all (exact (the_dtype (Some DFloat))) [IntV 10] \<and>
   map value_of ([[FloatV 10], [FloatV 11]] ! 0) = map value_of [IntV 10] \<and>
   fst (run_sim_2d [IntV 10] [IntV 0] (pure_fn2 decr_incr) 3 None (fresh () mem0))
     = Inr ([[IntV 10], [IntV 9], [IntV 8]], [[IntV 0], [IntV 1], [IntV 2]]) \<and>
   no_inplace2 (pure_fn2 decr_incr :: unit gen_fn2) \<and>
   [[IntV 10], [IntV 9], [IntV 8]] ! 0 = [IntV 10] \<and>
   [[IntV 0], [IntV 1], [IntV 2]] ! 0 = [IntV 0]"
proof -
  have a: "fst (run_sim [IntV 10] (pure_fn incr) 3 None (fresh () mem0))
      = Inr [[IntV 10], [IntV 11], [IntV 12]]"
    by (simp add: run_defs num_defs)
  have a': "fst (run_sim [IntV 10] (pure_fn incr) 2 (Some DFloat) (fresh () mem0))
     = Inr [[FloatV 10], [FloatV 11]]"
    by (simp add: run_defs num_defs)
  have b: "fst (run_sim_2d [IntV 10] [IntV 0] (pure_fn2 decr_incr) 3 None (fresh () mem0))
     = Inr ([[IntV 10], [IntV 9], [IntV 8]], [[IntV 0], [IntV 1], [IntV 2]])"
    by (simp add: run_defs num_defs)
  have c: "no_inplace (pure_fn incr :: unit gen_fn)" by (rule no_inplace_pure_fn)
  have d: "no_inplace2 (pure_fn2 decr_incr :: unit gen_fn2)" by (rule no_inplace_pure_fn2)
  have e: "\<forall>x\<in>set [IntV 10] \<union> set [IntV 0]. is_dtype (the_dtype None) x"
    by (simp add: the_dtype_def in_int64_def)
  then have e1: "\<forall>x\<in>set [IntV 10]. is_dtype (the_dtype None) x" by simp
  have f: "\<forall>x\<in>set [IntV 10]. exact (the_dtype (Some DFloat)) x"
    by (simp add: the_dtype_def)
  note i1 = trajectory_length_and_start [where ?N0.0 = "[IntV 10]" and g = "pure_fn incr"
      and ngens = 3 and dtype = None and s = "fresh () mem0"
      and traj = "[[IntV 10], [IntV 11], [IntV 12]]" and ?M0.0 = "[IntV 0]"
      and ?g2.0 = "pure_fn2 decr_incr" and ?s2.0 = "fresh () mem0"
      and tN = "[[IntV 10], [IntV 9], [IntV 8]]" and tM = "[[IntV 0], [IntV 1], [IntV 2]]"]
  from i1 a c e1 have r1: "(0::int) < 3" "int (length [[IntV 10], [IntV 11], [IntV 12]]) = 3"
    "[[IntV 10], [IntV 11], [IntV 12]] ! 0 = [IntV 10]"
    by blast+
  from i1 b d e have r2: "[[IntV 10], [IntV 9], [IntV 8]] ! 0 = [IntV 10]"
    "[[IntV 0], [IntV 1], [IntV 2]] ! 0 = [IntV 0]"
    by blast+
  note i2 = trajectory_length_and_start [where ?N0.0 = "[IntV 10]" and g = "pure_fn incr"
      and ngens = 2 and dtype = "Some DFloat" and s = "fresh () mem0"
      and traj = "[[FloatV 10], [FloatV 11]]"]
  from i2 a' c f
  have r3: "map value_of ([[FloatV 10], [FloatV 11]] ! 0) = map value_of [IntV 10]"
    by blast
  from e have e': "list_all (is_dtype (the_dtype None)) ([IntV 10] @ [IntV 0])"
    by (simp add: list_all_iff)
  from f have f': "list_all (exact (the_dtype (Some DFloat))) [IntV 10]"
    by (simp add: list_all_iff)
  from a a' b c d e' f' r1 r2 r3 show ?thesis by blast
qed

text \<open>
  As stated, C1 fails in two ways: under the default dtype the initial vector \<open>[1.5]\<close>
  is stored as \<open>[1]\<close>; and \<^verbatim>\<open>SI_gen\<close>, which updates its arguments in place, changes
  generation 0 of the N-trajectory from \<open>[2]\<close> to \<open>[1]\<close> and that of the M-trajectory
  from \<open>[1]\<close> to \<open>[2]\<close> when one of the two encounters of the first generation infects
  and every other draw is 0.
\<close>

theorem trajectory_length_and_start_counterexample:
  "fst (run_sim [FloatV (3 / 2)] (pure_fn incr) 1 None (fresh () mem0)) = Inr [[IntV 1]] \<and>
   map value_of ([[IntV 1]] ! 0) \<noteq> map value_of [FloatV (3 / 2)] \<and>
   fst (run_sim_2d [IntV 2] [IntV 1]
          (SI_gen tape_draws (1 / 2) 4 (1 / 100) (1 / 10) (1 / 5) (1 / 100) (1 / 50))
          2 None (fresh [0, 0, 0, 1, 0, 0] mem0))
     = Inr ([[IntV 1], [IntV 1]], [[IntV 2], [IntV 2]]) \<and>
   [[IntV 1], [IntV 1]] ! 0 \<noteq> [IntV 2] \<and> [[IntV 2], [IntV 2]] ! 0 \<noteq> [IntV 1]"
  by (simp add: run_defs si_defs num_defs)

text \<open>
  Claim C9. Both drivers convert what they store to the requested dtype, and the
  omitted dtype is \<^verbatim>\<open>int\<close>: in every trajectory a driver returns, for every
  transition function (also one that writes to its arguments), every element is a 64-bit
  integer when the dtype is omitted and is of the requested dtype otherwise. The
  statement for generation \<open>t\<close> leaves in row \<open>t\<close> the output of the transition function,
  converted to the dtype and broadcast to the row. For a transition function that does
  not write to its arguments, in the trajectories returned under the default dtype
  generation 0 is the converted initial vector and every later generation the converted
  output of the call that produced it, and where the supplied element is a float \<open>x\<close>
  whose truncation lies in the 64-bit range (as it does for every float with a
  fractional part) the stored element is the integer \<open>trunc x\<close>. The truncation is
  towards zero: \<open>trunc x\<close> is not larger in magnitude than \<open>x\<close> and differs from it by
  less than 1; it differs from \<open>x\<close> when \<open>x\<close> is not integral.
\<close>

theorem stored_values_coerced:
  "(fst (run_sim N0 g ngens None (fresh w u)) = Inr traj \<longrightarrow>
      list_all (list_all (is_dtype DInt)) traj) \<and>
   (fst (run_sim N0 g ngens (Some dt) (fresh w u)) = Inr traj \<longrightarrow>
      list_all (list_all (is_dtype dt)) traj) \<and>
   (fst (run_sim_2d N0 M0 g2 ngens None (fresh w u)) = Inr (tN, tM) \<longrightarrow>
      list_all (list_all (is_dtype DInt)) tN \<and> list_all (list_all (is_dtype DInt)) tM) \<and>
   (fst (run_sim_2d N0 M0 g2 ngens (Some dt) (fresh w u)) = Inr (tN, tM) \<longrightarrow>
      list_all (list_all (is_dtype dt)) tN \<and> list_all (list_all (is_dtype dt)) tM) \<and>
   (step g dt t s = (Inr (), s') \<longrightarrow>
      (\<exists>out. snd (snd (g (world s) (heap s TrN ! (t - 1)))) = Inr out \<and>
             stored (env s) dt (length (heap s TrN ! t)) out = Inr (heap s' TrN ! t))) \<and>
   (step2 g2 dt t s = (Inr (), s') \<longrightarrow>
      (\<exists>oN oM. snd (snd (g2 (world s) (heap s TrN ! (t - 1)) (heap s TrM ! (t - 1))))
                  = Inr (oN, oM) \<and>
             stored (env s) dt (length (heap s TrN ! t)) oN = Inr (heap s' TrN ! t) \<and>
             stored (env s) dt (length (heap s TrM ! t)) oM = Inr (heap s' TrM ! t))) \<and>
   (no_inplace g \<and> fst (run_sim N0 g ngens None (fresh w u)) = Inr traj \<longrightarrow>
      astype_all u DInt N0 = Inr (traj ! 0) \<and>
      (\<forall>j x. j < length N0 \<and> N0 ! j = FloatV x \<and> in_int64 (trunc x) \<longrightarrow>
         traj ! 0 ! j = IntV (trunc x)) \<and>
      (\<forall>k out. (k, [out]) \<in> set (returns (snd (run_sim N0 g ngens None (fresh w u)))) \<longrightarrow>
         stored u DInt (length N0) out = Inr (traj ! k) \<and>
         (\<forall>j x. j < length N0 \<and> bcast (length N0) out ! j = FloatV x \<and> in_int64 (trunc x) \<longrightarrow>
            traj ! k ! j = IntV (trunc x)))) \<and>
   (no_inplace2 g2 \<and> fst (run_sim_2d N0 M0 g2 ngens None (fresh w u)) = Inr (tN, tM) \<longrightarrow>
      astype_all u DInt N0 = Inr (tN ! 0) \<and> astype_all u DInt M0 = Inr (tM ! 0) \<and>
      (\<forall>j x. j < length N0 \<and> N0 ! j = FloatV x \<and> in_int64 (trunc x) \<longrightarrow>
         tN ! 0 ! j = IntV (trunc x)) \<and>
      (\<forall>j x. j < length M0 \<and> M0 ! j = FloatV x \<and> in_int64 (trunc x) \<longrightarrow>
         tM ! 0 ! j = IntV (trunc x)) \<and>
      (\<forall>k oN oM.
         (k, [oN, oM]) \<in> set (returns (snd (run_sim_2d N0 M0 g2 ngens None (fresh w u)))) \<longrightarrow>
         stored u DInt (length N0) oN = Inr (tN ! k) \<and>
         stored u DInt (length M0) oM = Inr (tM ! k) \<and>
         (\<forall>j x. j < length N0 \<and> bcast (length N0) oN ! j = FloatV x \<and> in_int64 (trunc x) \<longrightarrow>
            tN ! k ! j = IntV (trunc x)) \<and>
         (\<forall>j x. j < length M0 \<and> bcast (length M0) oM ! j = FloatV x \<and> in_int64 (trunc x) \<longrightarrow>
            tM ! k ! j = IntV (trunc x)))) \<and>
   \<bar>real_of_int (trunc y)\<bar> \<le> \<bar>y\<bar> \<and> \<bar>y - real_of_int (trunc y)\<bar> < 1 \<and>
   (y \<notin> \<int> \<longrightarrow> value_of (IntV (trunc y)) \<noteq> y)"
proof -
  have e: "env (fresh w u) = u" and r: "returns (fresh w u) = []" by (simp_all add: fresh_def)
  have c1: "fst (run_sim N0 g ngens None (fresh w u)) = Inr traj \<longrightarrow>
      list_all (list_all (is_dtype DInt)) traj"
    using run_sim_typed [of N0 g ngens None "fresh w u" traj] by (simp add: the_dtype_def)
  have c2: "fst (run_sim N0 g ngens (Some dt) (fresh w u)) = Inr traj \<longrightarrow>
      list_all (list_all (is_dtype dt)) traj"
    using run_sim_typed [of N0 g ngens "Some dt" "fresh w u" traj] by (simp add: the_dtype_def)
  have c3: "fst (run_sim_2d N0 M0 g2 ngens None (fresh w u)) = Inr (tN, tM) \<longrightarrow>
      list_all (list_all (is_dtype DInt)) tN \<and> list_all (list_all (is_dtype DInt)) tM"
    using run_sim_2d_typed [of N0 M0 g2 ngens None "fresh w u" tN tM] by (simp add: the_dtype_def)
  have c4: "fst (run_sim_2d N0 M0 g2 ngens (Some dt) (fresh w u)) = Inr (tN, tM) \<longrightarrow>
      list_all (list_all (is_dtype dt)) tN \<and> list_all (list_all (is_dtype dt)) tM"
    using run_sim_2d_typed [of N0 M0 g2 ngens "Some dt" "fresh w u" tN tM]
    by (simp add: the_dtype_def)
  have c5: "step g dt t s = (Inr (), s') \<longrightarrow>
      (\<exists>out. snd (snd (g (world s) (heap s TrN ! (t - 1)))) = Inr out \<and>
             stored (env s) dt (length (heap s TrN ! t)) out = Inr (heap s' TrN ! t))"
    by (auto dest: step_store)
  have c6: "step2 g2 dt t s = (Inr (), s') \<longrightarrow>
      (\<exists>oN oM. snd (snd (g2 (world s) (heap s TrN ! (t - 1)) (heap s TrM ! (t - 1))))
                  = Inr (oN, oM) \<and>
             stored (env s) dt (length (heap s TrN ! t)) oN = Inr (heap s' TrN ! t) \<and>
             stored (env s) dt (length (heap s TrM ! t)) oM = Inr (heap s' TrM ! t))"
    by (auto dest: step2_store)
  have c7: "no_inplace g \<and> fst (run_sim N0 g ngens None (fresh w u)) = Inr traj \<longrightarrow>
      astype_all u DInt N0 = Inr (traj ! 0) \<and>
      (\<forall>j x. j < length N0 \<and> N0 ! j = FloatV x \<and> in_int64 (trunc x) \<longrightarrow>
         traj ! 0 ! j = IntV (trunc x)) \<and>
      (\<forall>k out. (k, [out]) \<in> set (returns (snd (run_sim N0 g ngens None (fresh w u)))) \<longrightarrow>
         stored u DInt (length N0) out = Inr (traj ! k) \<and>
         (\<forall>j x. j < length N0 \<and> bcast (length N0) out ! j = FloatV x \<and> in_int64 (trunc x) \<longrightarrow>
            traj ! k ! j = IntV (trunc x)))"
  proof (intro impI conjI allI)
    assume "no_inplace g \<and> fst (run_sim N0 g ngens None (fresh w u)) = Inr traj"
    then have ni: "no_inplace g" and ok: "fst (run_sim N0 g ngens None (fresh w u)) = Inr traj"
      by simp_all
    from run_sim_row0 [OF ni ok] show r0: "astype_all u DInt N0 = Inr (traj ! 0)"
      by (simp add: e the_dtype_def)
    { fix j x
      assume "j < length N0 \<and> N0 ! j = FloatV x \<and> in_int64 (trunc x)"
      then have "j < length N0" "N0 ! j = FloatV x" "in_int64 (trunc x)" by simp_all
      with r0 show "traj ! 0 ! j = IntV (trunc x)" by (rule astype_all_trunc) }
    fix k out
    assume "(k, [out]) \<in> set (returns (snd (run_sim N0 g ngens None (fresh w u))))"
    with ni ok have "(k, [out]) \<in> set (returns (fresh w u)) \<or>
         (\<exists>out'. [out] = [out'] \<and> 1 \<le> k \<and> k < nat ngens \<and>
                stored (env (fresh w u)) (the_dtype None) (length N0) out' = Inr (traj ! k))"
      by (rule run_sim_stored)
    then show st: "stored u DInt (length N0) out = Inr (traj ! k)"
      by (simp add: e r the_dtype_def)
    fix j x
    assume "j < length N0 \<and> bcast (length N0) out ! j = FloatV x \<and> in_int64 (trunc x)"
    then have "j < length N0" "bcast (length N0) out ! j = FloatV x" "in_int64 (trunc x)"
      by simp_all
    with st show "traj ! k ! j = IntV (trunc x)" by (rule stored_trunc)
  qed
  have c8: "no_inplace2 g2 \<and> fst (run_sim_2d N0 M0 g2 ngens None (fresh w u)) = Inr (tN, tM) \<longrightarrow>
      astype_all u DInt N0 = Inr (tN ! 0) \<and> astype_all u DInt M0 = Inr (tM ! 0) \<and>
      (\<forall>j x. j < length N0 \<and> N0 ! j = FloatV x \<and> in_int64 (trunc x) \<longrightarrow>
         tN ! 0 ! j = IntV (trunc x)) \<and>
      (\<forall>j x. j < length M0 \<and> M0 ! j = FloatV x \<and> in_int64 (trunc x) \<longrightarrow>
         tM ! 0 ! j = IntV (trunc x)) \<and>
      (\<forall>k oN oM.
         (k, [oN, oM]) \<in> set (returns (snd (run_sim_2d N0 M0 g2 ngens None (fresh w u)))) \<longrightarrow>
         stored u DInt (length N0) oN = Inr (tN ! k) \<and>
         stored u DInt (length M0) oM = Inr (tM ! k) \<and>
         (\<forall>j x. j < length N0 \<and> bcast (length N0) oN ! j = FloatV x \<and> in_int64 (trunc x) \<longrightarrow>
            tN ! k ! j = IntV (trunc x)) \<and>
         (\<forall>j x. j < length M0 \<and> bcast (length M0) oM ! j = FloatV x \<and> in_int64 (trunc x) \<longrightarrow>
            tM ! k ! j = IntV (trunc x)))"
  proof (intro impI conjI allI)
    assume "no_inplace2 g2 \<and> fst (run_sim_2d N0 M0 g2 ngens None (fresh w u)) = Inr (tN, tM)"
    then have ni: "no_inplace2 g2"
      and ok: "fst (run_sim_2d N0 M0 g2 ngens None (fresh w u)) = Inr (tN, tM)"
      by simp_all
    from run_sim_2d_row0(1) [OF ni ok] show rN: "astype_all u DInt N0 = Inr (tN ! 0)"
      by (simp add: e the_dtype_def)
    from run_sim_2d_row0(2) [OF ni ok] show rM: "astype_all u DInt M0 = Inr (tM ! 0)"
      by (simp add: e the_dtype_def)
    { fix j x
      assume "j < length N0 \<and> N0 ! j = FloatV x \<and> in_int64 (trunc x)"
      then have "j < length N0" "N0 ! j = FloatV x" "in_int64 (trunc x)" by simp_all
      with rN show "tN ! 0 ! j = IntV (trunc x)" by (rule astype_all_trunc) }
    { fix j x
      assume "j < length M0 \<and> M0 ! j = FloatV x \<and> in_int64 (trunc x)"
      then have "j < length M0" "M0 ! j = FloatV x" "in_int64 (trunc x)" by simp_all
      with rM show "tM ! 0 ! j = IntV (trunc x)" by (rule astype_all_trunc) }
    fix k oN oM
    assume "(k, [oN, oM]) \<in> set (returns (snd (run_sim_2d N0 M0 g2 ngens None (fresh w u))))"
    with ni ok have "(k, [oN, oM]) \<in> set (returns (fresh w u)) \<or>
         (\<exists>oN' oM'. [oN, oM] = [oN', oM'] \<and> 1 \<le> k \<and> k < nat ngens \<and>
                stored (env (fresh w u)) (the_dtype None) (length N0) oN' = Inr (tN ! k) \<and>
                stored (env (fresh w u)) (the_dtype None) (length M0) oM' = Inr (tM ! k))"
      by (rule run_sim_2d_stored)
    then have "stored u DInt (length N0) oN = Inr (tN ! k) \<and>
        stored u DInt (length M0) oM = Inr (tM ! k)"
      by (simp add: e r the_dtype_def)
    then show stN: "stored u DInt (length N0) oN = Inr (tN ! k)"
      and stM: "stored u DInt (length M0) oM = Inr (tM ! k)" by simp_all
    { fix j x
      assume "j < length N0 \<and> bcast (length N0) oN ! j = FloatV x \<and> in_int64 (trunc x)"
      then have "j < length N0" "bcast (length N0) oN ! j = FloatV x" "in_int64 (trunc x)"
        by simp_all
      with stN show "tN ! k ! j = IntV (trunc x)" by (rule stored_trunc) }
    { fix j x
      assume "j < length M0 \<and> bcast (length M0) oM ! j = FloatV x \<and> in_int64 (trunc x)"
      then have "j < length M0" "bcast (length M0) oM ! j = FloatV x" "in_int64 (trunc x)"
        by simp_all
      with stM show "tM ! k ! j = IntV (trunc x)" by (rule stored_trunc) }
  qed
  have c9: "\<bar>real_of_int (trunc y)\<bar> \<le> \<bar>y\<bar>" and c10: "\<bar>y - real_of_int (trunc y)\<bar> < 1"
    by (rule trunc_bounds)+
  have c11: "y \<notin> \<int> \<longrightarrow> value_of (IntV (trunc y)) \<noteq> y"
    by (auto dest: trunc_neq)
  from c1 c2 c3 c4 c5 c6 c7 c8 c9 c10 c11 show ?thesis by (intro conjI)
qed

theorem stored_values_coerced_witness:
  "fst (run_sim [FloatV (- 3 / 2)] (pure_fn add_half) 2 None (fresh () mem0))
     = Inr [[IntV (- 1)], [IntV 0]] \<and>
   list_all (list_all (is_dtype DInt)) [[IntV (- 1)], [IntV 0]] \<and>
   no_inplace (pure_fn add_half :: unit gen_fn) \<and>
   (0::nat) < length [FloatV (- 3 / 2)] \<and> in_int64 (trunc (- 3 / 2)) \<and>
   [[IntV (- 1)], [IntV 0]] ! 0 ! 0 = IntV (trunc (- 3 / 2)) \<and>
   (1, [[FloatV (- 1 / 2)]])
     \<in> set (returns (snd (run_sim [FloatV (- 3 / 2)] (pure_fn add_half) 2 None (fresh () mem0)))) \<and>
   bcast (length [FloatV (- 3 / 2)]) [FloatV (- 1 / 2)] ! 0 = FloatV (- 1 / 2) \<and>
   in_int64 (trunc (- 1 / 2)) \<and>
   [[IntV (- 1)], [IntV 0]] ! 1 ! 0 = IntV (trunc (- 1 / 2)) \<and>
   trunc (- 3 / 2) = - 1 \<and> trunc (- 1 / 2) = 0 \<and>
   (- 3 / 2 :: real) \<notin> \<int> \<and> value_of (IntV (trunc (- 3 / 2))) \<noteq> - 3 / 2 \<and>
   fst (run_sim [IntV 1] (pure_fn add_half) 2 (Some DFloat) (fresh () mem0))
     = Inr [[FloatV 1], [FloatV (3 / 2)]] \<and>
   list_all (list_all (is_dtype DFloat)) [[FloatV 1], [FloatV (3 / 2)]] \<and>
   fst (run_sim [IntV 10] poke 2 None (fresh () mem0)) = Inr [[IntV 2], [IntV 11]] \<and>
   list_all (list_all (is_dtype DInt)) [[IntV 2], [IntV 11]] \<and>
   fst (run_sim_2d [FloatV (3 / 2)] [FloatV (5 / 2)] (pure_fn2 add_half2) 2 None (fresh () mem0))
     = Inr ([[IntV 1], [IntV 1]], [[IntV 2], [IntV 2]]) \<and>
   no_inplace2 (pure_fn2 add_half2 :: unit gen_fn2) \<and>
   in_int64 (trunc (5 / 2)) \<and> [[IntV 2], [IntV 2]] ! 0 ! 0 = IntV (trunc (5 / 2)) \<and>
   list_all (list_all (is_dtype DInt)) ([[IntV 1], [IntV 1]] @ [[IntV 2], [IntV 2]]) \<and>
   fst (run_sim_2d [IntV 1] [IntV 2] (pure_fn2 add_half2) 2 (Some DFloat) (fresh () mem0))
     = Inr ([[FloatV 1], [FloatV (3 / 2)]], [[FloatV 2], [FloatV (5 / 2)]]) \<and>
   list_all (list_all (is_dtype DFloat))
     ([[FloatV 1], [FloatV (3 / 2)]] @ [[FloatV 2], [FloatV (5 / 2)]]) \<and>
   fst (step poke DInt 1 (started TrN 2 1 [IntV 10] (fresh () mem0))) = Inr () \<and>
   stored mem0 DInt 1 [IntV 11]
     = Inr (heap (snd (step poke DInt 1 (started TrN 2 1 [IntV 10] (fresh () mem0)))) TrN ! 1)"
proof -
  let ?T1 = "[[IntV (- 1)], [IntV 0]]"
  let ?S0 = "started TrN 2 1 [IntV 10] (fresh () mem0)"
  have a1: "fst (run_sim [FloatV (- 3 / 2)] (pure_fn add_half) 2 None (fresh () mem0)) = Inr ?T1"
    by (simp add: run_defs num_defs)
  have a2: "(1, [[FloatV (- 1 / 2)]])
     \<in> set (returns (snd (run_sim [FloatV (- 3 / 2)] (pure_fn add_half) 2 None (fresh () mem0))))"
    by (simp add: run_defs num_defs)
  have a3: "no_inplace (pure_fn add_half :: unit gen_fn)" by (rule no_inplace_pure_fn)
  have a4: "(0::nat) < length [FloatV (- 3 / 2)]" by simp
  have t1: "trunc (- 3 / 2) = - 1" and t2: "trunc (- 1 / 2) = 0" and t3: "trunc (5 / 2) = 2"
    by (simp_all add: trunc_def ceiling_def)
  have a5: "in_int64 (trunc (- 3 / 2))" and a6: "in_int64 (trunc (- 1 / 2))"
    and a7: "in_int64 (trunc (5 / 2))"
    using t1 t2 t3 by (simp_all add: in_int64_def)
  have a8: "bcast (length [FloatV (- 3 / 2)]) [FloatV (- 1 / 2)] ! 0 = FloatV (- 1 / 2)"
    by (simp add: bcast_def)
  have a9: "(- 3 / 2 :: real) \<notin> \<int>"
    using three_halves_not_int by (metis Ints_minus minus_divide_left minus_minus)
  note i1 = stored_values_coerced [where ?N0.0 = "[FloatV (- 3 / 2)]" and g = "pure_fn add_half"
      and ngens = 2 and w = "()" and u = mem0 and traj = ?T1 and y = "- 3 / 2"]
  from i1 a1 have b1: "list_all (list_all (is_dtype DInt)) ?T1" by blast
  from i1 a1 a3 have "\<forall>j x. j < length [FloatV (- 3 / 2)] \<and> [FloatV (- 3 / 2)] ! j = FloatV x \<and>
      in_int64 (trunc x) \<longrightarrow> ?T1 ! 0 ! j = IntV (trunc x)"
    by blast
  from this [rule_format, of 0 "- 3 / 2"] a5 have b2: "?T1 ! 0 ! 0 = IntV (trunc (- 3 / 2))"
    by simp
  note i1r = i1 [THEN conjunct2, THEN conjunct2, THEN conjunct2, THEN conjunct2, THEN conjunct2,
      THEN conjunct2, THEN conjunct1, rule_format, OF conjI, OF a3 a1]
  from i1r have "\<forall>k out. (k, [out]) \<in> set (returns (snd (run_sim [FloatV (- 3 / 2)]
        (pure_fn add_half) 2 None (fresh () mem0)))) \<longrightarrow>
         stored mem0 DInt (length [FloatV (- 3 / 2)]) out = Inr (?T1 ! k) \<and>
         (\<forall>j x. j < length [FloatV (- 3 / 2)] \<and>
            bcast (length [FloatV (- 3 / 2)]) out ! j = FloatV x \<and> in_int64 (trunc x) \<longrightarrow>
            ?T1 ! k ! j = IntV (trunc x))"
    by blast
  from this [rule_format, of 1 "[FloatV (- 1 / 2)]"] a2
  have "\<forall>j x. j < length [FloatV (- 3 / 2)] \<and>
            bcast (length [FloatV (- 3 / 2)]) [FloatV (- 1 / 2)] ! j = FloatV x \<and>
            in_int64 (trunc x) \<longrightarrow> ?T1 ! 1 ! j = IntV (trunc x)"
    by blast
  from this [rule_format, of 0 "- 1 / 2"] a4 a6 a8
  have b3: "?T1 ! 1 ! 0 = IntV (trunc (- 1 / 2))" by blast
  from i1 a9 have b4: "value_of (IntV (trunc (- 3 / 2))) \<noteq> - 3 / 2" by blast
  have c1: "fst (run_sim [IntV 1] (pure_fn add_half) 2 (Some DFloat) (fresh () mem0))
     = Inr [[FloatV 1], [FloatV (3 / 2)]]"
    by (simp add: run_defs num_defs)
  from stored_values_coerced [where ?N0.0 = "[IntV 1]" and g = "pure_fn add_half"
      and ngens = 2 and w = "()" and u = mem0 and dt = DFloat
      and traj = "[[FloatV 1], [FloatV (3 / 2)]]"] c1
  have c2: "list_all (list_all (is_dtype DFloat)) [[FloatV 1], [FloatV (3 / 2)]]" by blast
  have d1: "fst (run_sim [IntV 10] poke 2 None (fresh () mem0)) = Inr [[IntV 2], [IntV 11]]"
    by (simp add: run_defs num_defs)
  from stored_values_coerced [where ?N0.0 = "[IntV 10]" and g = poke
      and ngens = 2 and w = "()" and u = mem0 and traj = "[[IntV 2], [IntV 11]]"] d1
  have d2: "list_all (list_all (is_dtype DInt)) [[IntV 2], [IntV 11]]" by blast
  have e1: "fst (run_sim_2d [FloatV (3 / 2)] [FloatV (5 / 2)] (pure_fn2 add_half2) 2 None
                   (fresh () mem0))
     = Inr ([[IntV 1], [IntV 1]], [[IntV 2], [IntV 2]])"
    by (simp add: run_defs num_defs)
  have e2: "no_inplace2 (pure_fn2 add_half2 :: unit gen_fn2)" by (rule no_inplace_pure_fn2)
  note i2 = stored_values_coerced [where ?N0.0 = "[FloatV (3 / 2)]" and ?M0.0 = "[FloatV (5 / 2)]"
      and ?g2.0 = "pure_fn2 add_half2" and ngens = 2 and w = "()" and u = mem0
      and tN = "[[IntV 1], [IntV 1]]" and tM = "[[IntV 2], [IntV 2]]"]
  from i2 e1 have e3: "list_all (list_all (is_dtype DInt)) [[IntV 1], [IntV 1]]"
    and e4: "list_all (list_all (is_dtype DInt)) [[IntV 2], [IntV 2]]"
    by blast+
  from i2 e1 e2 have "\<forall>j x. j < length [FloatV (5 / 2)] \<and> [FloatV (5 / 2)] ! j = FloatV x \<and>
      in_int64 (trunc x) \<longrightarrow> [[IntV 2], [IntV 2]] ! 0 ! j = IntV (trunc x)"
    by blast
  from this [rule_format, of 0 "5 / 2"] a7
  have e5: "[[IntV 2], [IntV 2]] ! 0 ! 0 = IntV (trunc (5 / 2))" by simp
  from e3 e4 have e6: "list_all (list_all (is_dtype DInt))
      ([[IntV 1], [IntV 1]] @ [[IntV 2], [IntV 2]])"
    by simp
  have f1: "fst (run_sim_2d [IntV 1] [IntV 2] (pure_fn2 add_half2) 2 (Some DFloat) (fresh () mem0))
     = Inr ([[FloatV 1], [FloatV (3 / 2)]], [[FloatV 2], [FloatV (5 / 2)]])"
    by (simp add: run_defs num_defs)
  from stored_values_coerced [where ?N0.0 = "[IntV 1]" and ?M0.0 = "[IntV 2]"
      and ?g2.0 = "pure_fn2 add_half2" and ngens = 2 and w = "()" and u = mem0 and dt = DFloat
      and tN = "[[FloatV 1], [FloatV (3 / 2)]]" and tM = "[[FloatV 2], [FloatV (5 / 2)]]"] f1
  have "list_all (list_all (is_dtype DFloat)) [[FloatV 1], [FloatV (3 / 2)]] \<and>
      list_all (list_all (is_dtype DFloat)) [[FloatV 2], [FloatV (5 / 2)]]"
    by blast
  then have f2: "list_all (list_all (is_dtype DFloat))
     ([[FloatV 1], [FloatV (3 / 2)]] @ [[FloatV 2], [FloatV (5 / 2)]])"
    by simp
  have g1: "fst (step poke DInt 1 ?S0) = Inr ()"
    by (simp add: run_defs started_def num_defs)
  then have g2: "step poke DInt 1 ?S0 = (Inr (), snd (step poke DInt 1 ?S0))"
    by (simp add: prod_eq_iff)
  from stored_values_coerced [where g = poke and dt = DInt and t = 1 and s = ?S0
      and s' = "snd (step poke DInt 1 ?S0)"] g2
  have "\<exists>out. snd (snd (poke (world ?S0) (heap ?S0 TrN ! (1 - 1)))) = Inr out \<and>
      stored (env ?S0) DInt (length (heap ?S0 TrN ! 1)) out
        = Inr (heap (snd (step poke DInt 1 ?S0)) TrN ! 1)"
    by blast
  then have g3: "stored mem0 DInt 1 [IntV 11] = Inr (heap (snd (step poke DInt 1 ?S0)) TrN ! 1)"
    by (simp add: poke_def incr_def started_def fresh_def wrap64_def num_defs)
  from a1 b1 a3 a4 a5 b2 a2 a8 a6 b3 t1 t2 a9 b4 c1 c2 d1 d2 e1 e2 a7 e5 e6 f1 f2 g1 g3
  show ?thesis by blast
qed

text \<open>
  Claim C10. The transition function works on the row of generation \<open>t - 1\<close> itself, in
  both drivers and for both tracks: after the statement for generation \<open>t \<ge> 1\<close>, that
  row holds what the function's in-place assignments, converted to the dtype of the
  buffer, made of it. For a transition function that does not write to its arguments,
  the statement for generation \<open>t\<close> leaves every other row of the buffers as it was, and
  in the returned trajectories generation 0 is the stored initial vector and every later
  generation is what was stored for it. \<^verbatim>\<open>SI_gen\<close> writes to its arguments, and a run
  of the dual-track driver with it (one infection among the two encounters of the first
  generation, every other draw 0) returns trajectories whose generation 0 is \<open>[1]\<close> for
  N and \<open>[2]\<close> for M, not the initial \<open>[2]\<close> and \<open>[1]\<close>. A function that assigns 2.7
  to element 0 of its argument leaves the integer 2 in generation 0 of the returned
  trajectory.
\<close>

theorem views_not_copies:
  "(step g dt t s = (Inr (), s') \<and> 1 \<le> t \<longrightarrow>
      apply_writes (env s) dt (fst (snd (g (world s) (heap s TrN ! (t - 1)))))
        (heap s TrN ! (t - 1)) = Inr (heap s' TrN ! (t - 1))) \<and>
   (step2 g2 dt t s = (Inr (), s') \<and> 1 \<le> t \<longrightarrow>
      apply_writes (env s) dt
        (fst (fst (snd (g2 (world s) (heap s TrN ! (t - 1)) (heap s TrM ! (t - 1))))))
        (heap s TrN ! (t - 1)) = Inr (heap s' TrN ! (t - 1)) \<and>
      apply_writes (env s) dt
        (snd (fst (snd (g2 (world s) (heap s TrN ! (t - 1)) (heap s TrM ! (t - 1))))))
        (heap s TrM ! (t - 1)) = Inr (heap s' TrM ! (t - 1))) \<and>
   (no_inplace g \<and> step g dt t s = (r, s1) \<and> i \<noteq> t \<longrightarrow>
      heap s1 TrN ! i = heap s TrN ! i) \<and>
   (no_inplace2 g2 \<and> step2 g2 dt t s = (r, s2) \<and> i \<noteq> t \<longrightarrow>
      heap s2 TrN ! i = heap s TrN ! i \<and> heap s2 TrM ! i = heap s TrM ! i) \<and>
   (no_inplace g \<and> fst (run_sim N0 g ngens dtype (fresh w u)) = Inr traj \<longrightarrow>
      astype_all u (the_dtype dtype) N0 = Inr (traj ! 0) \<and>
      (\<forall>k out. (k, [out]) \<in> set (returns (snd (run_sim N0 g ngens dtype (fresh w u)))) \<longrightarrow>
         stored u (the_dtype dtype) (length N0) out = Inr (traj ! k))) \<and>
   (no_inplace2 g2 \<and> fst (run_sim_2d N0 M0 g2 ngens dtype (fresh w u)) = Inr (tN, tM) \<longrightarrow>
      astype_all u (the_dtype dtype) N0 = Inr (tN ! 0) \<and>
      astype_all u (the_dtype dtype) M0 = Inr (tM ! 0) \<and>
      (\<forall>k oN oM.
         (k, [oN, oM]) \<in> set (returns (snd (run_sim_2d N0 M0 g2 ngens dtype (fresh w u)))) \<longrightarrow>
         stored u (the_dtype dtype) (length N0) oN = Inr (tN ! k) \<and>
         stored u (the_dtype dtype) (length M0) oM = Inr (tM ! k))) \<and>
   \<not> no_inplace2 (SI_gen tape_draws (1 / 2) 4 (1 / 100) (1 / 10) (1 / 5) (1 / 100) (1 / 50)) \<and>
   fst (run_sim_2d [IntV 2] [IntV 1]
          (SI_gen tape_draws (1 / 2) 4 (1 / 100) (1 / 10) (1 / 5) (1 / 100) (1 / 50))
          2 None (fresh [0, 0, 0, 1, 0, 0] u))
     = Inr ([[IntV 1], [IntV 1]], [[IntV 2], [IntV 2]]) \<and>
   fst (run_sim [IntV 10] poke 2 None (fresh w u)) = Inr [[IntV 2], [IntV 11]]"
proof (intro conjI impI allI)
  assume "step g dt t s = (Inr (), s') \<and> 1 \<le> t"
  then have "step g dt t s = (Inr (), s')" and "1 \<le> t" by simp_all
  then show "apply_writes (env s) dt (fst (snd (g (world s) (heap s TrN ! (t - 1)))))
        (heap s TrN ! (t - 1)) = Inr (heap s' TrN ! (t - 1))"
    by (rule step_view)
next
  assume "step2 g2 dt t s = (Inr (), s') \<and> 1 \<le> t"
  then have a: "step2 g2 dt t s = (Inr (), s')" "1 \<le> t" by simp_all
  from a show "apply_writes (env s) dt
        (fst (fst (snd (g2 (world s) (heap s TrN ! (t - 1)) (heap s TrM ! (t - 1))))))
        (heap s TrN ! (t - 1)) = Inr (heap s' TrN ! (t - 1))"
    by (rule step2_view)
  from a show "apply_writes (env s) dt
        (snd (fst (snd (g2 (world s) (heap s TrN ! (t - 1)) (heap s TrM ! (t - 1))))))
        (heap s TrM ! (t - 1)) = Inr (heap s' TrM ! (t - 1))"
    by (rule step2_view)
next
  assume "no_inplace g \<and> step g dt t s = (r, s1) \<and> i \<noteq> t"
  then have "no_inplace g" and "step g dt t s = (r, s1)" and "TrN \<noteq> TrN \<or> i \<noteq> t"
    by simp_all
  then show "heap s1 TrN ! i = heap s TrN ! i" by (rule step_frame)
next
  assume "no_inplace2 g2 \<and> step2 g2 dt t s = (r, s2) \<and> i \<noteq> t"
  then have a: "no_inplace2 g2" "step2 g2 dt t s = (r, s2)" "i \<noteq> t"
    by simp_all
  from a show "heap s2 TrN ! i = heap s TrN ! i" by (rule step2_frame)
  from a show "heap s2 TrM ! i = heap s TrM ! i" by (rule step2_frame)
next
  assume "no_inplace g \<and> fst (run_sim N0 g ngens dtype (fresh w u)) = Inr traj"
  then have ni: "no_inplace g" and ok: "fst (run_sim N0 g ngens dtype (fresh w u)) = Inr traj"
    by simp_all
  from run_sim_row0 [OF ni ok] show "astype_all u (the_dtype dtype) N0 = Inr (traj ! 0)"
    by (simp add: fresh_def)
  fix k out
  assume "(k, [out]) \<in> set (returns (snd (run_sim N0 g ngens dtype (fresh w u))))"
  with ni ok have "(k, [out]) \<in> set (returns (fresh w u)) \<or>
         (\<exists>out'. [out] = [out'] \<and> 1 \<le> k \<and> k < nat ngens \<and>
                stored (env (fresh w u)) (the_dtype dtype) (length N0) out' = Inr (traj ! k))"
    by (rule run_sim_stored)
  then show "stored u (the_dtype dtype) (length N0) out = Inr (traj ! k)"
    by (simp add: fresh_def)
next
  assume "no_inplace2 g2 \<and> fst (run_sim_2d N0 M0 g2 ngens dtype (fresh w u)) = Inr (tN, tM)"
  then have ni: "no_inplace2 g2"
    and ok: "fst (run_sim_2d N0 M0 g2 ngens dtype (fresh w u)) = Inr (tN, tM)"
    by simp_all
  from run_sim_2d_row0(1) [OF ni ok] show "astype_all u (the_dtype dtype) N0 = Inr (tN ! 0)"
    by (simp add: fresh_def)
  from run_sim_2d_row0(2) [OF ni ok] show "astype_all u (the_dtype dtype) M0 = Inr (tM ! 0)"
    by (simp add: fresh_def)
  fix k oN oM
  assume "(k, [oN, oM]) \<in> set (returns (snd (run_sim_2d N0 M0 g2 ngens dtype (fresh w u))))"
  with ni ok have "(k, [oN, oM]) \<in> set (returns (fresh w u)) \<or>
         (\<exists>oN' oM'. [oN, oM] = [oN', oM'] \<and> 1 \<le> k \<and> k < nat ngens \<and>
                stored (env (fresh w u)) (the_dtype dtype) (length N0) oN' = Inr (tN ! k) \<and>
                stored (env (fresh w u)) (the_dtype dtype) (length M0) oM' = Inr (tM ! k))"
    by (rule run_sim_2d_stored)
  then show "stored u (the_dtype dtype) (length N0) oN = Inr (tN ! k)"
    and "stored u (the_dtype dtype) (length M0) oM = Inr (tM ! k)"
    by (simp_all add: fresh_def)
next
  show "\<not> no_inplace2 (SI_gen tape_draws (1 / 2) 4 (1 / 100) (1 / 10) (1 / 5) (1 / 100) (1 / 50))"
    by (rule SI_gen_inplace)
  show "fst (run_sim_2d [IntV 2] [IntV 1]
          (SI_gen tape_draws (1 / 2) 4 (1 / 100) (1 / 10) (1 / 5) (1 / 100) (1 / 50))
          2 None (fresh [0, 0, 0, 1, 0, 0] u))
     = Inr ([[IntV 1], [IntV 1]], [[IntV 2], [IntV 2]])"
    by (simp add: run_defs si_defs num_defs)
  show "fst (run_sim [IntV 10] poke 2 None (fresh w u)) = Inr [[IntV 2], [IntV 11]]"
    by (simp add: run_defs num_defs)
qed

theorem views_not_copies_witness:
  "fst (step poke DInt 1 (started TrN 2 1 [IntV 10] (fresh () mem0))) = Inr () \<and>
   (1::nat) \<le> 1 \<and>
   heap (snd (step poke DInt 1 (started TrN 2 1 [IntV 10] (fresh () mem0)))) TrN ! (1 - 1)
     = [IntV 2] \<and>
   fst (step2 (SI_gen tape_draws (1 / 2) 4 (1 / 100) (1 / 10) (1 / 5) (1 / 100) (1 / 50)) DInt 1
          (started TrM 2 1 [IntV 1] (started TrN 2 1 [IntV 2] (fresh [0, 0, 0, 1, 0, 0] mem0))))
     = Inr () \<and>
   heap (snd (step2 (SI_gen tape_draws (1 / 2) 4 (1 / 100) (1 / 10) (1 / 5) (1 / 100) (1 / 50))
                DInt 1
                (started TrM 2 1 [IntV 1]
                   (started TrN 2 1 [IntV 2] (fresh [0, 0, 0, 1, 0, 0] mem0))))) TrN ! (1 - 1)
     = [IntV 1] \<and>
   heap (snd (step2 (SI_gen tape_draws (1 / 2) 4 (1 / 100) (1 / 10) (1 / 5) (1 / 100) (1 / 50))
                DInt 1
                (started TrM 2 1 [IntV 1]
                   (started TrN 2 1 [IntV 2] (fresh [0, 0, 0, 1, 0, 0] mem0))))) TrM ! (1 - 1)
     = [IntV 2] \<and>
   no_inplace (pure_fn incr :: unit gen_fn) \<and> (0::nat) \<noteq> 1 \<and>
   heap (snd (step (pure_fn incr) DInt 1 (started TrN 2 1 [IntV 10] (fresh () mem0)))) TrN ! 0
     = [IntV 10] \<and>
   no_inplace2 (pure_fn2 decr_incr :: unit gen_fn2) \<and>
   heap (snd (step2 (pure_fn2 decr_incr) DInt 1
                (started TrM 2 1 [IntV 0] (started TrN 2 1 [IntV 10] (fresh () mem0))))) TrN ! 0
     = [IntV 10] \<and>
   heap (snd (step2 (pure_fn2 decr_incr) DInt 1
                (started TrM 2 1 [IntV 0] (started TrN 2 1 [IntV 10] (fresh () mem0))))) TrM ! 0
     = [IntV 0] \<and>
   fst (run_sim [IntV 10] (pure_fn incr) 3 None (fresh () mem0))
     = Inr [[IntV 10], [IntV 11], [IntV 12]] \<and>
   (2, [[IntV 12]])
     \<in> set (returns (snd (run_sim [IntV 10] (pure_fn incr) 3 None (fresh () mem0)))) \<and>
   stored mem0 (the_dtype None) (length [IntV 10]) [IntV 12]
     = Inr ([[IntV 10], [IntV 11], [IntV 12]] ! 2) \<and>
   fst (run_sim_2d [IntV 10] [IntV 0] (pure_fn2 decr_incr) 3 None (fresh () mem0))
     = Inr ([[IntV 10], [IntV 9], [IntV 8]], [[IntV 0], [IntV 1], [IntV 2]]) \<and>
   (2, [[IntV 8], [IntV 2]])
     \<in> set (returns (snd (run_sim_2d [IntV 10] [IntV 0] (pure_fn2 decr_incr) 3 None
                             (fresh () mem0)))) \<and>
   stored mem0 (the_dtype None) (length [IntV 10]) [IntV 8]
     = Inr ([[IntV 10], [IntV 9], [IntV 8]] ! 2) \<and>
   stored mem0 (the_dtype None) (length [IntV 0]) [IntV 2]
     = Inr ([[IntV 0], [IntV 1], [IntV 2]] ! 2)"
proof -
  let ?S0 = "started TrN 2 1 [IntV 10] (fresh () mem0)"
  let ?S2 = "started TrM 2 1 [IntV 0] ?S0"
  let ?SI = "SI_gen tape_draws (1 / 2) 4 (1 / 100) (1 / 10) (1 / 5) (1 / 100) (1 / 50)"
  let ?S3 = "started TrM 2 1 [IntV 1] (started TrN 2 1 [IntV 2] (fresh [0, 0, 0, 1, 0, 0] mem0))"
  have a: "fst (step poke DInt 1 ?S0) = Inr ()"
    by (simp add: run_defs started_def num_defs)
  then have a': "step poke DInt 1 ?S0 = (Inr (), snd (step poke DInt 1 ?S0))"
    by (simp add: prod_eq_iff)
  have a'': "apply_writes (env ?S0) DInt (fst (snd (poke (world ?S0) (heap ?S0 TrN ! (1 - 1)))))
      (heap ?S0 TrN ! (1 - 1)) = Inr [IntV 2]"
    by (simp add: run_defs started_def num_defs)
  have k: "fst (step2 ?SI DInt 1 ?S3) = Inr ()"
    by (simp add: run_defs si_defs started_def num_defs)
  then have k': "step2 ?SI DInt 1 ?S3 = (Inr (), snd (step2 ?SI DInt 1 ?S3))"
    by (simp add: prod_eq_iff)
  have k'': "apply_writes (env ?S3) DInt
        (fst (fst (snd (?SI (world ?S3) (heap ?S3 TrN ! (1 - 1)) (heap ?S3 TrM ! (1 - 1))))))
        (heap ?S3 TrN ! (1 - 1)) = Inr [IntV 1]"
      "apply_writes (env ?S3) DInt
        (snd (fst (snd (?SI (world ?S3) (heap ?S3 TrN ! (1 - 1)) (heap ?S3 TrM ! (1 - 1))))))
        (heap ?S3 TrM ! (1 - 1)) = Inr [IntV 2]"
    by (simp_all add: run_defs si_defs started_def num_defs)
  have b: "no_inplace (pure_fn incr :: unit gen_fn)" by (rule no_inplace_pure_fn)
  have b': "step (pure_fn incr) DInt 1 ?S0
      = (fst (step (pure_fn incr) DInt 1 ?S0), snd (step (pure_fn incr) DInt 1 ?S0))"
    by simp
  have b'': "heap ?S0 TrN ! 0 = [IntV 10]" by (simp add: started_def num_defs)
  have c: "no_inplace2 (pure_fn2 decr_incr :: unit gen_fn2)" by (rule no_inplace_pure_fn2)
  have c': "step2 (pure_fn2 decr_incr) DInt 1 ?S2
      = (fst (step2 (pure_fn2 decr_incr) DInt 1 ?S2), snd (step2 (pure_fn2 decr_incr) DInt 1 ?S2))"
    by simp
  have c'': "heap ?S2 TrN ! 0 = [IntV 10]" "heap ?S2 TrM ! 0 = [IntV 0]"
    by (simp_all add: started_def num_defs)
  have d: "fst (run_sim [IntV 10] (pure_fn incr) 3 None (fresh () mem0))
      = Inr [[IntV 10], [IntV 11], [IntV 12]]"
    by (simp add: run_defs num_defs)
  have d': "(2, [[IntV 12]])
      \<in> set (returns (snd (run_sim [IntV 10] (pure_fn incr) 3 None (fresh () mem0))))"
    by (simp add: run_defs num_defs)
  have e: "fst (run_sim_2d [IntV 10] [IntV 0] (pure_fn2 decr_incr) 3 None (fresh () mem0))
     = Inr ([[IntV 10], [IntV 9], [IntV 8]], [[IntV 0], [IntV 1], [IntV 2]])"
    by (simp add: run_defs num_defs)
  have e': "(2, [[IntV 8], [IntV 2]])
     \<in> set (returns (snd (run_sim_2d [IntV 10] [IntV 0] (pure_fn2 decr_incr) 3 None
                             (fresh () mem0))))"
    by (simp add: run_defs num_defs)
  have one: "(1::nat) \<le> 1" and ne: "(0::nat) \<noteq> 1" by simp_all
  note i1 = views_not_copies [where g = poke and dt = DInt and t = 1 and s = ?S0
      and s' = "snd (step poke DInt 1 ?S0)"]
  from i1 [THEN conjunct1, rule_format, OF conjI, OF a' one] a''
  have r1: "heap (snd (step poke DInt 1 ?S0)) TrN ! (1 - 1) = [IntV 2]" by simp
  note i0 = views_not_copies [where ?g2.0 = ?SI and dt = DInt and t = 1 and s = ?S3
      and s' = "snd (step2 ?SI DInt 1 ?S3)"]
  note i0r = i0 [THEN conjunct2, THEN conjunct1, rule_format, OF conjI, OF k' one]
  from i0r [THEN conjunct1] k''(1)
  have r0: "heap (snd (step2 ?SI DInt 1 ?S3)) TrN ! (1 - 1) = [IntV 1]" by (rule Inr_unique)
  from i0r [THEN conjunct2] k''(2)
  have r0': "heap (snd (step2 ?SI DInt 1 ?S3)) TrM ! (1 - 1) = [IntV 2]" by (rule Inr_unique)
  note i2 = views_not_copies [where g = "pure_fn incr" and dt = DInt and t = 1 and s = ?S0
      and r = "fst (step (pure_fn incr) DInt 1 ?S0)" and ?s1.0 = "snd (step (pure_fn incr) DInt 1 ?S0)"
      and i = 0 and ?N0.0 = "[IntV 10]" and ngens = 3 and dtype = None and w = "()" and u = mem0
      and traj = "[[IntV 10], [IntV 11], [IntV 12]]"]
  from i2 [THEN conjunct2, THEN conjunct2, THEN conjunct1, rule_format, OF conjI, OF b conjI,
      OF b' ne] b''
  have r2: "heap (snd (step (pure_fn incr) DInt 1 ?S0)) TrN ! 0 = [IntV 10]" by simp
  note i2r = i2 [THEN conjunct2, THEN conjunct2, THEN conjunct2, THEN conjunct2, THEN conjunct1,
      rule_format, OF conjI, OF b d]
  from i2r d' have r3: "stored mem0 (the_dtype None) (length [IntV 10]) [IntV 12]
      = Inr ([[IntV 10], [IntV 11], [IntV 12]] ! 2)"
    by blast
  note i3 = views_not_copies [where ?g2.0 = "pure_fn2 decr_incr" and dt = DInt and t = 1 and s = ?S2
      and r = "fst (step2 (pure_fn2 decr_incr) DInt 1 ?S2)"
      and ?s2.0 = "snd (step2 (pure_fn2 decr_incr) DInt 1 ?S2)"
      and i = 0 and ?N0.0 = "[IntV 10]" and ?M0.0 = "[IntV 0]" and ngens = 3 and dtype = None
      and w = "()" and u = mem0 and tN = "[[IntV 10], [IntV 9], [IntV 8]]"
      and tM = "[[IntV 0], [IntV 1], [IntV 2]]"]
  note i3f = i3 [THEN conjunct2, THEN conjunct2, THEN conjunct2, THEN conjunct1, rule_format,
      OF conjI, OF c conjI, OF c' ne]
  from i3f c'' have r4: "heap (snd (step2 (pure_fn2 decr_incr) DInt 1 ?S2)) TrN ! 0 = [IntV 10]"
    and r5: "heap (snd (step2 (pure_fn2 decr_incr) DInt 1 ?S2)) TrM ! 0 = [IntV 0]"
    by simp_all
  note i3r = i3 [THEN conjunct2, THEN conjunct2, THEN conjunct2, THEN conjunct2, THEN conjunct2,
      THEN conjunct1, rule_format, OF conjI, OF c e]
  from i3r e' have r6: "stored mem0 (the_dtype None) (length [IntV 10]) [IntV 8]
      = Inr ([[IntV 10], [IntV 9], [IntV 8]] ! 2)"
    and r7: "stored mem0 (the_dtype None) (length [IntV 0]) [IntV 2]
      = Inr ([[IntV 0], [IntV 1], [IntV 2]] ! 2)"
    by blast+
  from a one r1 k r0 r0' b ne r2 c r4 r5 d d' r3 e e' r6 r7 show ?thesis by blast
qed

end
